(* ===== verification/Prelude.thy ===== *)
theory Prelude
  imports Main "HOL-Library.Word"
begin

text \<open>
  Shared vocabulary of the development: instants and identifiers, the values a Python
  dictionary of the program can hold, tables as lists of rows with the lemmas their
  repositories share, and the few string operations of the Python standard library the
  program uses.  The collection \<open>row_simps\<close> holds the table lemmas;
  every repository lemma of the later theories is proved from it.
\<close>

named_theorems row_simps \<open>lookup and update of rows in a table\<close>

section \<open>Instants, identifiers and Python values\<close>

text \<open>
  A \<open>datetime\<close> (always UTC in the program) is its number of microseconds since the
  epoch, which is the resolution of both \<open>datetime\<close> and \<open>timestamptz\<close>.  A
  \<open>timedelta\<close> is a number of microseconds too.  A \<open>UUID\<close> is its 128-bit value, so
  its order is the order PostgreSQL gives the \<open>uuid\<close> type.
\<close>

type_synonym timestamp = int
type_synonym uuid = "128 word"

abbreviation seconds :: "int \<Rightarrow> int" where
  "seconds n \<equiv> n * 1000000"

abbreviation minutes :: "int \<Rightarrow> int" where
  "minutes n \<equiv> seconds (60 * n)"

abbreviation days :: "int \<Rightarrow> int" where
  "days n \<equiv> minutes (24 * 60 * n)"

text \<open>The exceptions of the standard library that the modelled code can raise or catch.\<close>

datatype py_exc = KeyError | ValueError | TypeError | AttributeError

text \<open>The values of \<open>dict[str, Any]\<close>: audit payloads, outbox payloads, JWT claims.
  \<open>PFloat m e\<close> is the finite float \<open>m * 2 ** e\<close>.\<close>

datatype pyval =
    PNone
  | PBool bool
  | PInt int
  | PFloat int int
  | PStr string
  | PTime timestamp
  | PList "pyval list"
  | PDict "(string \<times> pyval) list"

text \<open>Python truth value, \<open>bool(x)\<close>.\<close>

fun py_truth :: "pyval \<Rightarrow> bool" where
  "py_truth PNone = False"
| "py_truth (PBool b) = b"
| "py_truth (PInt i) = (i \<noteq> 0)"
| "py_truth (PFloat m e) = (m \<noteq> 0)"
| "py_truth (PStr s) = (s \<noteq> [])"
| "py_truth (PTime t) = True"
| "py_truth (PList xs) = (xs \<noteq> [])"
| "py_truth (PDict d) = (d \<noteq> [])"

section \<open>Tables as lists of rows\<close>

definition row_by :: "('r \<Rightarrow> 'k) \<Rightarrow> 'k \<Rightarrow> 'r list \<Rightarrow> 'r option" where
  "row_by key k rows = find (\<lambda>r. key r = k) rows"

definition put_row :: "('r \<Rightarrow> 'k) \<Rightarrow> 'k \<Rightarrow> ('r \<Rightarrow> 'r) \<Rightarrow> 'r list \<Rightarrow> 'r list" where
  "put_row key k f rows = map (\<lambda>r. if key r = k then f r else r) rows"

definition update_where :: "('r \<Rightarrow> bool) \<Rightarrow> ('r \<Rightarrow> 'r) \<Rightarrow> 'r list \<Rightarrow> 'r list" where
  "update_where P f rows = map (\<lambda>r. if P r then f r else r) rows"

definition count_where :: "('r \<Rightarrow> bool) \<Rightarrow> 'r list \<Rightarrow> nat" where
  "count_where P rows = length (filter P rows)"

lemma row_by_Nil [row_simps, simp]: "row_by key k [] = None"
  by (simp add: row_by_def)

lemma row_by_Cons [row_simps, simp]:
  "row_by key k (r # rows) = (if key r = k then Some r else row_by key k rows)"
  by (simp add: row_by_def)

lemma row_by_append [row_simps]:
  "row_by key k (xs @ ys) = (case row_by key k xs of None \<Rightarrow> row_by key k ys | Some r \<Rightarrow> Some r)"
  by (induction xs) auto

lemma row_by_SomeD:
  assumes "row_by key k rows = Some r"
  shows "r \<in> set rows" and "key r = k"
  using assms by (induction rows) (auto split: if_splits)

lemma row_by_None_iff: "row_by key k rows = None \<longleftrightarrow> k \<notin> key ` set rows"
  by (induction rows) auto

lemma row_by_unique:
  "distinct (map key rows) \<Longrightarrow> r \<in> set rows \<Longrightarrow> row_by key (key r) rows = Some r"
  by (induction rows) (auto simp: image_iff)

lemma row_by_mapped [row_simps]:
  assumes "\<And>r. key (f r) = key r"
  shows "row_by key k (map f rows) = map_option f (row_by key k rows)"
  by (induction rows) (auto simp: assms)

lemma row_by_put_same [row_simps]:
  assumes "\<And>r. key (f r) = key r"
  shows "row_by key k (put_row key k f rows) = map_option f (row_by key k rows)"
  unfolding put_row_def by (induction rows) (auto simp: assms)

lemma row_by_put_other [row_simps]:
  assumes "\<And>r. key (f r) = key r" and "k' \<noteq> k"
  shows "row_by key k' (put_row key k f rows) = row_by key k' rows"
  unfolding put_row_def using assms(2) by (induction rows) (auto simp: assms(1))

lemma row_by_update_where [row_simps]:
  assumes "\<And>r. key (f r) = key r"
  shows "row_by key k (update_where P f rows)
    = map_option (\<lambda>r. if P r then f r else r) (row_by key k rows)"
  unfolding update_where_def by (induction rows) (auto simp: assms)

text \<open>Reading by one key after a write through another.\<close>

lemma row_by_put_any:
  assumes "\<And>r. key' (f r) = key' r"
  shows "row_by key' i (put_row key k f rows) = map_option (\<lambda>r. if key r = k then f r else r) (row_by key' i rows)"
  unfolding put_row_def by (induction rows) (auto simp: assms)

lemma map_key_put [row_simps, simp]:
  assumes "\<And>r. key' (f r) = key' r"
  shows "map key' (put_row key k f rows) = map key' rows"
  by (simp add: put_row_def assms cong: if_cong)

lemma map_key_update_where [row_simps, simp]:
  assumes "\<And>r. key (f r) = key r"
  shows "map key (update_where P f rows) = map key rows"
  by (simp add: update_where_def assms cong: if_cong)

lemma set_put_rowE:
  assumes "x \<in> set (put_row key k f rows)"
  obtains (kept) "x \<in> set rows" "key x \<noteq> k" | (changed) r where "r \<in> set rows" "key r = k" "x = f r"
  using assms unfolding put_row_def by (auto split: if_splits)

lemma set_update_whereE:
  assumes "x \<in> set (update_where P f rows)"
  obtains (kept) "x \<in> set rows" "\<not> P x" | (changed) r where "r \<in> set rows" "P r" "x = f r"
  using assms unfolding update_where_def by (auto split: if_splits)

lemma update_where_none_left:
  assumes "\<And>r. \<not> P (f r)"
  shows "count_where P (update_where P f rows) = 0"
  by (auto simp: count_where_def update_where_def assms filter_empty_conv)

lemma filter_update_where_none: "(\<And>r. P r \<Longrightarrow> \<not> P (f r)) \<Longrightarrow> filter P (update_where P f rows) = []"
  by (auto simp: update_where_def filter_empty_conv)

lemma filter_update_where_other:
  "(\<And>r. P r \<Longrightarrow> \<not> Q r \<and> \<not> Q (f r)) \<Longrightarrow> filter Q (update_where P f rows) = filter Q rows"
  by (induction rows) (auto simp: update_where_def)

lemma filter_put_row:
  assumes "\<And>r. r \<in> set rows \<Longrightarrow> key r = k \<Longrightarrow> \<not> P r \<and> \<not> P (f r)"
  shows "filter P (put_row key k f rows) = filter P rows"
  using assms unfolding put_row_def by (induction rows) auto

lemma count_where_zero_iff: "count_where P rows = 0 \<longleftrightarrow> (\<forall>r \<in> set rows. \<not> P r)"
  by (auto simp: count_where_def filter_empty_conv)

lemma update_where_id: "count_where P rows = 0 \<Longrightarrow> update_where P f rows = rows"
  unfolding count_where_zero_iff update_where_def by (induction rows) auto

lemma count_where_put_one:
  assumes "distinct (map key rows)" and "x \<in> set rows" and "P x" and "\<not> P (f x)"
  shows "Suc (count_where P (put_row key (key x) f rows)) = count_where P rows"
  using assms
proof (induction rows)
  case (Cons r rows)
  show ?case
  proof (cases "r = x")
    case True
    with Cons.prems have "map (\<lambda>r. if key r = key x then f r else r) rows = rows"
      by (intro map_idI) (auto simp: image_iff)
    with True Cons.prems show ?thesis by (simp add: put_row_def count_where_def)
  next
    case False
    with Cons.prems have "key r \<noteq> key x" "x \<in> set rows" by (auto simp: image_iff)
    with Cons show ?thesis by (simp add: put_row_def count_where_def)
  qed
qed simp

text \<open>A flush touches \<open>updated_at\<close> only when it writes: the other columns read the same.\<close>

lemma touched_field:
  assumes "\<And>x. f (g x) = f x"
  shows "f (if a = b then b else g a) = f a"
  using assms by auto

lemma length_put_row [simp]: "length (put_row key k f rows) = length rows"
  by (simp add: put_row_def)

lemma length_update_where [simp]: "length (update_where P f rows) = length rows"
  by (simp add: update_where_def)

section \<open>Strings of the Python standard library\<close>

text \<open>
  A Python string is modelled by its code points; the model covers the code points below
  256, which contain every character the program itself writes.
\<close>

abbreviation (input) ord_of :: "char \<Rightarrow> nat" where
  "ord_of c \<equiv> of_char c"

text \<open>\<open>str.upper\<close>: \<open>CHR 0xDF\<close> (sharp s) becomes \<open>SS\<close>; \<open>CHR 0xB5\<close> and
  \<open>CHR 0xFF\<close> leave the modelled range and are kept, which is the same non-ASCII
  character class for every caller here.\<close>

definition upper_char :: "char \<Rightarrow> string" where
  "upper_char c = (let n = ord_of c in
     if 97 \<le> n \<and> n \<le> 122 \<or> 224 \<le> n \<and> n \<le> 254 \<and> n \<noteq> 247 then [char_of (n - 32)]
     else if n = 223 then ''SS'' else [c])"

definition py_upper :: "string \<Rightarrow> string" where
  "py_upper s = concat (map upper_char s)"

text \<open>\<open>str.lower\<close> on the same range.\<close>

definition lower_char :: "char \<Rightarrow> char" where
  "lower_char c = (let n = ord_of c in
     if 65 \<le> n \<and> n \<le> 90 \<or> 192 \<le> n \<and> n \<le> 222 \<and> n \<noteq> 215 then char_of (n + 32) else c)"

definition py_lower :: "string \<Rightarrow> string" where
  "py_lower s = map lower_char s"

text \<open>Whitespace of \<open>str.strip\<close> and of \<open>int()\<close> below code point 256.\<close>

definition py_space :: "char \<Rightarrow> bool" where
  "py_space c = (let n = ord_of c in
     9 \<le> n \<and> n \<le> 13 \<or> 28 \<le> n \<and> n \<le> 32 \<or> n = 133 \<or> n = 160)"

definition strip_by :: "(char \<Rightarrow> bool) \<Rightarrow> string \<Rightarrow> string" where
  "strip_by P s = rev (dropWhile P (rev (dropWhile P s)))"

definition py_strip :: "string \<Rightarrow> string" where
  "py_strip s = strip_by py_space s"

lemma strip_by_none: "\<forall>c \<in> set s. \<not> P c \<Longrightarrow> strip_by P s = s"
proof -
  assume a: "\<forall>c \<in> set s. \<not> P c"
  then have "dropWhile P s = s" by (cases s) auto
  moreover from a have "dropWhile P (rev s) = rev s" by (cases "rev s") (auto simp: rev_eq_Cons_iff)
  ultimately show ?thesis by (simp add: strip_by_def)
qed

text \<open>\<open>s.partition(sep)\<close> for a one-character separator: before, found, after.\<close>

fun py_partition :: "char \<Rightarrow> string \<Rightarrow> string \<times> bool \<times> string" where
  "py_partition sep [] = ([], False, [])"
| "py_partition sep (c # cs) =
     (if c = sep then ([], True, cs)
      else case py_partition sep cs of (a, f, b) \<Rightarrow> (c # a, f, b))"

lemma py_partition_app:
  "sep \<notin> set a \<Longrightarrow> py_partition sep (a @ sep # b) = (a, True, b)"
  by (induction a) auto

text \<open>\<open>s.replace(pat, "")\<close>: every non-overlapping occurrence, left to right.\<close>

fun remove_sub :: "nat \<Rightarrow> string \<Rightarrow> string \<Rightarrow> string" where
  "remove_sub (Suc n) pat (c # cs) = remove_sub n pat cs"
| "remove_sub 0 pat (c # cs) =
     (if pat \<noteq> [] \<and> take (length pat) (c # cs) = pat
      then remove_sub (length pat - 1) pat cs else c # remove_sub 0 pat cs)"
| "remove_sub n pat [] = []"

lemma remove_sub_absent: "hd pat \<notin> set s \<Longrightarrow> remove_sub 0 pat s = s"
  by (induction s) (auto simp: neq_Nil_conv)

section \<open>Integers as text\<close>

text \<open>Value of a digit in bases up to 36, as \<open>int(s, base)\<close> reads it.\<close>

definition digit_val :: "char \<Rightarrow> nat option" where
  "digit_val c = (let n = ord_of c in
     if 48 \<le> n \<and> n \<le> 57 then Some (n - 48)
     else if 97 \<le> n \<and> n \<le> 122 then Some (n - 87)
     else if 65 \<le> n \<and> n \<le> 90 then Some (n - 55)
     else None)"

text \<open>
  Digits with single underscores between them.  The flag says whether the previous
  character was a digit: an underscore needs a digit on both sides.
\<close>

fun digits_val :: "nat \<Rightarrow> bool \<Rightarrow> nat \<Rightarrow> string \<Rightarrow> nat option" where
  "digits_val b prev acc [] = (if prev then Some acc else None)"
| "digits_val b prev acc (c # cs) =
     (if c = CHR ''_'' then (if prev then digits_val b False acc cs else None)
      else case digit_val c of None \<Rightarrow> None
           | Some d \<Rightarrow> if d < b then digits_val b True (b * acc + d) cs else None)"

text \<open>\<open>int(s)\<close> and \<open>int(s, 16)\<close>; \<open>None\<close> is \<open>ValueError\<close>.\<close>

definition unsign :: "string \<Rightarrow> bool \<times> string" where
  "unsign s = (case s of c # cs \<Rightarrow> if c = CHR ''-'' then (True, cs)
                 else if c = CHR ''+'' then (False, cs) else (False, s)
               | [] \<Rightarrow> (False, s))"

definition py_int :: "string \<Rightarrow> int option" where
  "py_int s = (let (neg, t) = unsign (py_strip s)
     in map_option (\<lambda>n. if neg then - int n else int n) (digits_val 10 False 0 t))"

definition py_int16 :: "string \<Rightarrow> int option" where
  "py_int16 s = (let (neg, t) = unsign (py_strip s);
       hex = take 2 t \<in> {''0x'', ''0X''};
       body = (if hex then drop 2 t else t)
     in map_option (\<lambda>n. if neg then - int n else int n) (digits_val 16 hex 0 body))"

end
