(* ===== verification/Text_Codec.thy ===== *)
theory Text_Codec
  imports Prelude
begin

text \<open>
  How the program writes integers and UUIDs into strings and reads them back: \<open>str(int)\<close>
  and \<open>int(str)\<close>, \<open>str(UUID)\<close> and \<open>UUID(str)\<close>, and hexadecimal digests.  The round
  trips are used by the login-challenge codec and by the page cursors.
\<close>

section \<open>Hexadecimal\<close>

definition hexd :: "nat \<Rightarrow> char" where
  "hexd n = (if n < 10 then char_of (48 + n) else char_of (87 + n))"

text \<open>\<open>w\<close> hexadecimal digits of \<open>n\<close>, most significant first: \<open>'%0wx' % n\<close> for \<open>n < 16 ^ w\<close>.\<close>

fun hex_fixed :: "nat \<Rightarrow> nat \<Rightarrow> string" where
  "hex_fixed 0 n = []"
| "hex_fixed (Suc w) n = hex_fixed w (n div 16) @ [hexd (n mod 16)]"

definition hex_char :: "char \<Rightarrow> bool" where
  "hex_char c = (let n = ord_of c in 48 \<le> n \<and> n \<le> 57 \<or> 97 \<le> n \<and> n \<le> 102)"

lemma of_char_hexd: "n < 16 \<Longrightarrow> (of_char (hexd n) :: nat) = (if n < 10 then 48 + n else 87 + n)"
  by (auto simp: hexd_def)

lemma hex_char_hexd: "n < 16 \<Longrightarrow> hex_char (hexd n)"
  by (simp add: hex_char_def of_char_hexd Let_def)

lemma digit_val_hexd: "n < 16 \<Longrightarrow> digit_val (hexd n) = Some n"
  by (simp add: digit_val_def of_char_hexd Let_def)

lemma hexd_not_underscore: "n < 16 \<Longrightarrow> hexd n \<noteq> CHR ''_''"
  by (drule hex_char_hexd) (auto simp: hex_char_def)

lemma length_hex_fixed [simp]: "length (hex_fixed w n) = w"
  by (induction w arbitrary: n) auto

lemma hex_fixed_chars: "c \<in> set (hex_fixed w n) \<Longrightarrow> hex_char c"
  by (induction w arbitrary: n) (auto simp: hex_char_hexd)

lemma digits_val_hex_fixed:
  "digits_val 16 prev acc (hex_fixed w n @ rest)
     = digits_val 16 (prev \<or> 0 < w) (acc * 16 ^ w + n mod 16 ^ w) rest"
proof (induction w arbitrary: n rest)
  case 0
  then show ?case by simp
next
  case (Suc w)
  have m: "n mod 16 < 16" by simp
  have "16 * (acc * 16 ^ w + n div 16 mod 16 ^ w) + n mod 16 = acc * 16 ^ Suc w + n mod 16 ^ Suc w"
    by (simp add: mod_mult2_eq algebra_simps)
  with Suc show ?case
    by (simp add: hexd_not_underscore [OF m] digit_val_hexd [OF m] del: power_Suc)
qed

section \<open>Decimal integers\<close>

fun dec_nat :: "nat \<Rightarrow> string" where
  "dec_nat n = (if n < 10 then [char_of (48 + n)] else dec_nat (n div 10) @ [char_of (48 + n mod 10)])"

declare dec_nat.simps [simp del]

definition py_str_int :: "int \<Rightarrow> string" where
  "py_str_int i = (if i < 0 then CHR ''-'' # dec_nat (nat (- i)) else dec_nat (nat i))"

definition dec_char :: "char \<Rightarrow> bool" where
  "dec_char c = (let n = ord_of c in 48 \<le> n \<and> n \<le> 57)"

lemma of_char_dec: "n < 10 \<Longrightarrow> (of_char (char_of (48 + n) :: char) :: nat) = 48 + n"
  by simp

lemma digit_val_dec: "n < 10 \<Longrightarrow> digit_val (char_of (48 + n)) = Some n"
  by (simp add: digit_val_def Let_def)

lemma dec_nat_chars: "c \<in> set (dec_nat n) \<Longrightarrow> dec_char c"
  by (induction n rule: dec_nat.induct)
    (subst (asm) (2) dec_nat.simps, auto simp: dec_char_def Let_def split: if_splits)

lemma dec_nat_nonempty [simp]: "dec_nat n \<noteq> []"
  by (subst dec_nat.simps) simp

lemma dec_not_underscore:
  fixes n :: nat
  assumes "n < 10"
  shows "char_of (48 + n) \<noteq> CHR ''_''"
proof
  assume "char_of (48 + n) = CHR ''_''"
  then have "(of_char (char_of (48 + n) :: char) :: nat) = of_char CHR ''_''" by simp
  with assms show False by simp
qed

lemma digits_val_dec_nat:
  "digits_val 10 prev acc (dec_nat n @ rest)
     = digits_val 10 True (acc * 10 ^ length (dec_nat n) + n) rest"
proof (induction n arbitrary: rest rule: dec_nat.induct)
  case (1 n)
  have m: "n mod 10 < 10" by simp
  show ?case
  proof (cases "n < 10")
    case True
    then show ?thesis
      by (simp add: dec_nat.simps [of n] dec_not_underscore digit_val_dec mult.commute)
  next
    case False
    have "10 * (acc * 10 ^ length (dec_nat (n div 10)) + n div 10) + n mod 10
        = acc * 10 ^ Suc (length (dec_nat (n div 10))) + n"
      by (simp add: algebra_simps)
    with False "1" show ?thesis
      by (simp add: dec_nat.simps [of n] dec_not_underscore [OF m] digit_val_dec [OF m] algebra_simps)
  qed
qed

lemma dec_nat_plain:
  assumes "c \<in> set (dec_nat n)"
  shows "\<not> py_space c" and "c \<noteq> CHR ''-''" and "c \<noteq> CHR ''+''" and "c \<noteq> CHR '':''"
  using dec_nat_chars [OF assms] by (auto simp: dec_char_def py_space_def Let_def)

lemma unsign_dec_nat: "unsign (dec_nat n) = (False, dec_nat n)"
  using dec_nat_plain [of _ n] dec_nat_nonempty [of n]
  by (auto simp: unsign_def split: list.splits)

text \<open>\<open>int(str(i)) == i\<close>.\<close>

lemma py_int_str_int: "py_int (py_str_int i) = Some i"
proof -
  have plain: "py_strip (dec_nat n) = dec_nat n" for n
    using dec_nat_plain(1) by (auto simp: py_strip_def intro: strip_by_none)
  have minus: "py_strip (CHR ''-'' # dec_nat n) = CHR ''-'' # dec_nat n" for n
    unfolding py_strip_def
    by (rule strip_by_none) (auto dest: dec_nat_plain(1) simp: py_space_def)
  have val: "digits_val 10 False 0 (dec_nat n) = Some n" for n
    using digits_val_dec_nat [of False 0 n "[]"] by simp
  show ?thesis
    by (auto simp: py_int_def py_str_int_def plain minus unsign_dec_nat val)
      (simp add: unsign_def val)
qed

section \<open>UUIDs\<close>

text \<open>\<open>str(uuid)\<close>: 32 hexadecimal digits in groups of 8, 4, 4, 4 and 12.\<close>

definition str_uuid :: "uuid \<Rightarrow> string" where
  "str_uuid u = (let h = hex_fixed 32 (unat u) in
     take 8 h @ ''-'' @ take 4 (drop 8 h) @ ''-'' @ take 4 (drop 12 h) @ ''-''
       @ take 4 (drop 16 h) @ ''-'' @ drop 20 h)"

text \<open>\<open>UUID(s)\<close>; \<open>None\<close> is \<open>ValueError\<close>.\<close>

definition parse_uuid :: "string \<Rightarrow> uuid option" where
  "parse_uuid s =
     (let hex = filter (\<lambda>c. c \<noteq> CHR ''-'')
        (strip_by (\<lambda>c. c \<in> {CHR 0x7B, CHR 0x7D})
          (remove_sub 0 ''uuid:'' (remove_sub 0 ''urn:'' s)))
      in if length hex \<noteq> 32 then None
         else case py_int16 hex of
             None \<Rightarrow> None
           | Some i \<Rightarrow> if 0 \<le> i \<and> i < 2 ^ 128 then Some (word_of_int i) else None)"

lemma hex_char_plain:
  assumes "hex_char c"
  shows "\<not> py_space c" and "c \<noteq> CHR ''-''" and "c \<noteq> CHR ''+''" and "c \<noteq> CHR ''u''"
    and "c \<noteq> CHR ''x''" and "c \<noteq> CHR ''X''" and "c \<noteq> CHR 0x7B" and "c \<noteq> CHR 0x7D" and "c \<noteq> CHR '':''"
  using assms by (auto simp: hex_char_def py_space_def Let_def)

lemma str_uuid_chars: "c \<in> set (str_uuid u) \<Longrightarrow> hex_char c \<or> c = CHR ''-''"
  unfolding str_uuid_def Let_def
  by (auto dest!: in_set_takeD in_set_dropD intro: hex_fixed_chars)

lemma str_uuid_digits: "filter (\<lambda>c. c \<noteq> CHR ''-'') (str_uuid u) = hex_fixed 32 (unat u)"
proof -
  let ?h = "hex_fixed 32 (unat u)"
  have all: "filter (\<lambda>c. c \<noteq> CHR ''-'') xs = xs" if "set xs \<subseteq> set ?h" for xs
    using that hex_char_plain(2) [OF hex_fixed_chars] by (auto simp: filter_id_conv)
  have sub: "set (take a (drop b ?h)) \<subseteq> set ?h" "set (take a ?h) \<subseteq> set ?h" "set (drop b ?h) \<subseteq> set ?h"
    for a b by (auto dest: in_set_takeD in_set_dropD)
  have "take 8 ?h @ take 4 (drop 8 ?h) @ take 4 (drop 12 ?h) @ take 4 (drop 16 ?h) @ drop 20 ?h = ?h"
    by (simp add: append_take_drop_id drop_drop [symmetric] del: drop_drop append_assoc
        flip: append_assoc take_add)
  then show ?thesis
    by (simp add: str_uuid_def Let_def all sub)
qed

lemma py_int16_hex:
  assumes hex: "\<forall>c \<in> set xs. hex_char c" and val: "digits_val 16 False 0 xs = Some n"
  shows "py_int16 xs = Some (int n)"
proof -
  have strip: "py_strip xs = xs"
    using hex by (auto simp: py_strip_def intro!: strip_by_none dest: hex_char_plain(1))
  have sign: "unsign xs = (False, xs)"
    using hex by (auto simp: unsign_def hex_char_plain split: list.splits)
  have "take 2 xs \<notin> {''0x'', ''0X''}"
    using hex by (cases xs; cases "tl xs") (auto simp: hex_char_plain)
  with val show ?thesis by (simp add: py_int16_def strip sign)
qed

text \<open>\<open>UUID(str(u)) == u\<close>.\<close>

lemma parse_str_uuid: "parse_uuid (str_uuid u) = Some u"
proof -
  let ?h = "hex_fixed 32 (unat u)"
  have no_u: "CHR ''u'' \<notin> set (str_uuid u)" and no_brace: "\<forall>c \<in> set (str_uuid u). c \<notin> {CHR 0x7B, CHR 0x7D}"
    by (auto dest!: str_uuid_chars dest: hex_char_plain)
  have body: "filter (\<lambda>c. c \<noteq> CHR ''-'') (strip_by (\<lambda>c. c \<in> {CHR 0x7B, CHR 0x7D})
      (remove_sub 0 ''uuid:'' (remove_sub 0 ''urn:'' (str_uuid u)))) = ?h"
    using strip_by_none [OF no_brace] no_u by (simp add: remove_sub_absent str_uuid_digits)
  have val: "digits_val 16 False 0 ?h = Some (unat u)"
    using digits_val_hex_fixed [of False 0 32 "unat u" "[]"] unsigned_less [of u, where ?'a = nat]
    by simp
  have "py_int16 ?h = Some (int (unat u))"
    by (rule py_int16_hex) (auto simp: val intro: hex_fixed_chars)
  moreover have "int (unat u) < 2 ^ 128"
    using unsigned_less [of u, where ?'a = int] by simp
  ultimately show ?thesis
    unfolding parse_uuid_def Let_def body by simp
qed

section \<open>Instants\<close>

text \<open>The proleptic Gregorian date of a day number counted from 1970-01-01.\<close>

definition civil_from_days :: "int \<Rightarrow> int \<times> int \<times> int" where
  "civil_from_days n = (let z = n + 719468; era = z div 146097; doe = z mod 146097;
       yoe = (doe - doe div 1460 + doe div 36524 - doe div 146096) div 365;
       doy = doe - (365 * yoe + yoe div 4 - yoe div 100);
       mp = (5 * doy + 2) div 153;
       d = doy - (153 * mp + 2) div 5 + 1;
       m = (if mp < 10 then mp + 3 else mp - 9)
     in (yoe + era * 400 + (if m \<le> 2 then 1 else 0), m, d))"

fun dec_fixed :: "nat \<Rightarrow> int \<Rightarrow> string" where
  "dec_fixed 0 n = []"
| "dec_fixed (Suc w) n = dec_fixed w (n div 10) @ [char_of (48 + nat (n mod 10))]"

text \<open>\<open>datetime.isoformat()\<close> of a UTC instant; microseconds are written when not zero.\<close>

definition isoformat :: "timestamp \<Rightarrow> string" where
  "isoformat t = (case civil_from_days (t div days 1) of (y, m, d) \<Rightarrow>
     let us = t mod days 1; s = us div 1000000 in
       dec_fixed 4 y @ ''-'' @ dec_fixed 2 m @ ''-'' @ dec_fixed 2 d @ ''T''
       @ dec_fixed 2 (s div 3600) @ '':'' @ dec_fixed 2 (s div 60 mod 60) @ '':'' @ dec_fixed 2 (s mod 60)
       @ (if us mod 1000000 = 0 then [] else ''.'' @ dec_fixed 6 (us mod 1000000)) @ ''+00:00'')"

lemma isoformat_example:
  "isoformat (days 20000 + seconds 3661 + 5) = ''2024-10-04T01:01:01.000005+00:00''"
  by code_simp

end
