(* ===== verification/Digest.thy ===== *)
theory Digest
  imports Text_Codec
begin

unbundle bit_operations_syntax

text \<open>
  \<open>hashlib.sha256\<close> and \<open>hmac\<close> over it, computed in HOL as FIPS 180-4 and RFC 2104
  define them.  The program uses them for \<open>hash_token\<close>
  (identity/infrastructure/token_service.py), for \<open>csrf_token_for_session\<close> and
  \<open>hash_ip\<close> (core/security.py) and for the keys of the login throttle.  Bytes are
  integers below 256.
\<close>

section \<open>UTF-8\<close>

definition utf8_char :: "char \<Rightarrow> int list" where
  "utf8_char c = (let n = (of_char c :: int) in if n < 128 then [n] else [192 + n div 64, 128 + n mod 64])"

definition utf8 :: "string \<Rightarrow> int list" where
  "utf8 s = concat (map utf8_char s)"

text \<open>The decoder for the code points in range; \<open>None\<close> is \<open>UnicodeDecodeError\<close>.\<close>

fun utf8_decode :: "int list \<Rightarrow> string option" where
  "utf8_decode [] = Some []"
| "utf8_decode (a # bs) =
     (if 0 \<le> a \<and> a < 128 then map_option (Cons (char_of a)) (utf8_decode bs)
      else if a = 194 \<or> a = 195 then (case bs of
          b # bs' \<Rightarrow> if 128 \<le> b \<and> b < 192
             then map_option (Cons (char_of ((a - 192) * 64 + (b - 128)))) (utf8_decode bs') else None
        | [] \<Rightarrow> None)
      else None)"

lemma of_char_int_bounds: "0 \<le> (of_char c :: int)" "(of_char c :: int) < 256"
  by (cases c; simp)+

lemma utf8_decode_utf8: "utf8_decode (utf8 s) = Some s"
proof (induction s)
  case (Cons c s)
  have b: "0 \<le> (of_char c :: int)" "(of_char c :: int) < 256" by (rule of_char_int_bounds)+
  have "(of_char c :: int) div 64 = 2 \<or> (of_char c :: int) div 64 = 3" if "\<not> (of_char c :: int) < 128"
    using that b by arith
  with Cons b show ?case
    by (auto simp: utf8_def utf8_char_def Let_def)
qed (simp add: utf8_def)

section \<open>SHA-256\<close>

type_synonym u32 = "32 word"

definition sha_k :: "u32 list" where
  "sha_k =
    [1116352408, 1899447441, 3049323471, 3921009573, 961987163, 1508970993, 2453635748,
     2870763221, 3624381080, 310598401, 607225278, 1426881987, 1925078388, 2162078206,
     2614888103, 3248222580, 3835390401, 4022224774, 264347078, 604807628, 770255983, 1249150122,
     1555081692, 1996064986, 2554220882, 2821834349, 2952996808, 3210313671, 3336571891,
     3584528711, 113926993, 338241895, 666307205, 773529912, 1294757372, 1396182291, 1695183700,
     1986661051, 2177026350, 2456956037, 2730485921, 2820302411, 3259730800, 3345764771,
     3516065817, 3600352804, 4094571909, 275423344, 430227734, 506948616, 659060556, 883997877,
     958139571, 1322822218, 1537002063, 1747873779, 1955562222, 2024104815, 2227730452,
     2361852424, 2428436474, 2756734187, 3204031479, 3329325298]"

definition sha_init :: "u32 list" where
  "sha_init =
    [1779033703, 3144134277, 1013904242, 2773480762, 1359893119, 2600822924, 528734635, 1541459225]"

definition rotr :: "nat \<Rightarrow> u32 \<Rightarrow> u32" where
  "rotr n w = drop_bit n w OR push_bit (32 - n) w"

definition small_sigma0 :: "u32 \<Rightarrow> u32" where
  "small_sigma0 w = rotr 7 w XOR rotr 18 w XOR drop_bit 3 w"

definition small_sigma1 :: "u32 \<Rightarrow> u32" where
  "small_sigma1 w = rotr 17 w XOR rotr 19 w XOR drop_bit 10 w"

definition big_sigma0 :: "u32 \<Rightarrow> u32" where
  "big_sigma0 w = rotr 2 w XOR rotr 13 w XOR rotr 22 w"

definition big_sigma1 :: "u32 \<Rightarrow> u32" where
  "big_sigma1 w = rotr 6 w XOR rotr 11 w XOR rotr 25 w"

text \<open>The message schedule, built most recent word first.\<close>

fun schedule :: "nat \<Rightarrow> u32 list \<Rightarrow> u32 list" where
  "schedule 0 ws = ws"
| "schedule (Suc n) ws =
     schedule n ((small_sigma1 (ws ! 1) + ws ! 6 + small_sigma0 (ws ! 14) + ws ! 15) # ws)"

fun sha_round :: "u32 list \<Rightarrow> u32 \<times> u32 \<Rightarrow> u32 list" where
  "sha_round [a, b, c, d, e, f, g, h] (k, w) =
     (let t1 = h + big_sigma1 e + ((e AND f) XOR (NOT e AND g)) + k + w;
          t2 = big_sigma0 a + ((a AND b) XOR (a AND c) XOR (b AND c))
      in [t1 + t2, a, b, c, d + t1, e, f, g])"
| "sha_round st _ = st"

definition sha_block :: "u32 list \<Rightarrow> u32 list \<Rightarrow> u32 list" where
  "sha_block st block =
     map2 (+) st (foldl sha_round st (zip sha_k (rev (schedule 48 (rev block)))))"

fun be_words :: "int list \<Rightarrow> u32 list" where
  "be_words (a # b # c # d # bs) =
     word_of_int (((a * 256 + b) * 256 + c) * 256 + d) # be_words bs"
| "be_words _ = []"

fun be_bytes :: "nat \<Rightarrow> int \<Rightarrow> int list" where
  "be_bytes 0 n = []"
| "be_bytes (Suc w) n = be_bytes w (n div 256) @ [n mod 256]"

definition sha_pad :: "int list \<Rightarrow> int list" where
  "sha_pad bs = bs @ [128] @ replicate ((119 - length bs mod 64) mod 64) 0 @ be_bytes 8 (8 * int (length bs))"

fun sha_blocks :: "nat \<Rightarrow> u32 list \<Rightarrow> u32 list \<Rightarrow> u32 list" where
  "sha_blocks 0 st ws = st"
| "sha_blocks (Suc n) st ws = sha_blocks n (sha_block st (take 16 ws)) (drop 16 ws)"

text \<open>The digest as 32 bytes and as the 64 characters of \<open>hexdigest()\<close>.\<close>

definition sha256 :: "int list \<Rightarrow> int list" where
  "sha256 bs = (let p = sha_pad bs
     in concat (map (\<lambda>w. be_bytes 4 (uint w)) (sha_blocks (length p div 64) sha_init (be_words p))))"

definition hexdigest :: "int list \<Rightarrow> string" where
  "hexdigest bs = concat (map (\<lambda>b. hex_fixed 2 (nat b)) bs)"

definition sha256_hex :: "string \<Rightarrow> string" where
  "sha256_hex s = hexdigest (sha256 (utf8 s))"

section \<open>HMAC\<close>

definition hmac_key :: "int list \<Rightarrow> int list" where
  "hmac_key k = (let k' = (if length k > 64 then sha256 k else k) in k' @ replicate (64 - length k') 0)"

definition xor_byte :: "int \<Rightarrow> int \<Rightarrow> int" where
  "xor_byte m b = m XOR b"

definition hmac_sha256 :: "int list \<Rightarrow> int list \<Rightarrow> int list" where
  "hmac_sha256 k m = (let key = hmac_key k in
     sha256 (map (xor_byte 0x5c) key @ sha256 (map (xor_byte 0x36) key @ m)))"

section \<open>Lengths\<close>

lemma length_be_bytes [simp]: "length (be_bytes w n) = w"
  by (induction w arbitrary: n) auto

lemma length_sha_round: "length st = 8 \<Longrightarrow> length (sha_round st kw) = 8"
  by (cases "(st, kw)" rule: sha_round.cases) (auto simp: Let_def)

lemma length_sha_rounds: "length st = 8 \<Longrightarrow> length (foldl sha_round st kws) = 8"
  by (induction kws arbitrary: st) (auto simp: length_sha_round)

lemma length_sha_blocks: "length st = 8 \<Longrightarrow> length (sha_blocks n st ws) = 8"
  by (induction n arbitrary: st ws) (auto simp: sha_block_def length_sha_rounds)

lemma length_concat_map_const:
  "(\<And>x. length (f x) = n) \<Longrightarrow> length (concat (map f xs)) = n * length xs"
  by (induction xs) auto

lemma length_sha256 [simp]: "length (sha256 bs) = 32"
  by (simp add: sha256_def Let_def length_concat_map_const length_sha_blocks sha_init_def)

lemma length_hexdigest: "length (hexdigest bs) = 2 * length bs"
  by (simp add: hexdigest_def length_concat_map_const)

end
