(* ===== verification/Core.thy ===== *)
theory Core
  imports Digest
begin

text \<open>
  The shared kernel of the service, src/app/core and src/app/api: the settings the modelled
  code reads (config.py), the problem response (exceptions.py), CSRF tokens and hashed
  addresses (security.py), the session cookies (cookies.py), and the fixed-window rate
  limiter (rate_limit.py) over a model of the Redis commands it issues.
\<close>

section \<open>Settings and API errors\<close>

record settings =
  environment :: string
  base_url :: string
  app_version :: string
  git_commit_sha :: string
  jwt_signing_key :: string
  csrf_secret :: string
  access_token_minutes :: int
  refresh_token_days :: int
  ip_hash_salt :: string
  mfa_secret_key :: string
  mfa_issuer :: string
  email_provider :: string

record api_error =
  ae_status_code :: int
  ae_code :: string
  ae_title :: string
  ae_detail :: string
  ae_headers :: "(string \<times> string) list"

section \<open>CSRF tokens and hashed addresses\<close>

definition hash_token :: "string \<Rightarrow> string" where
  "hash_token raw_token = sha256_hex raw_token"

definition csrf_token_for_session :: "settings \<Rightarrow> uuid \<Rightarrow> string" where
  "csrf_token_for_session cfg session_id =
     hexdigest (hmac_sha256 (utf8 (csrf_secret cfg)) (utf8 (str_uuid session_id)))"

text \<open>\<open>secrets.compare_digest\<close> is equality; \<open>not presented\<close> holds for a missing and
  for an empty header.\<close>

definition verify_csrf_token :: "settings \<Rightarrow> uuid \<Rightarrow> string option \<Rightarrow> bool" where
  "verify_csrf_token cfg session_id presented = (case presented of
       None \<Rightarrow> False
     | Some p \<Rightarrow> if p = [] then False else p = csrf_token_for_session cfg session_id)"

definition hash_ip :: "settings \<Rightarrow> string \<Rightarrow> string" where
  "hash_ip cfg ip_address = sha256_hex (ip_hash_salt cfg @ '':'' @ ip_address)"

lemma length_hash_token [simp]: "length (hash_token t) = 64"
  by (simp add: hash_token_def sha256_hex_def length_hexdigest)

lemma length_csrf_token: "length (csrf_token_for_session cfg sid) = 64"
  by (simp add: csrf_token_for_session_def length_hexdigest hmac_sha256_def Let_def)

lemma verify_own_csrf_token:
  "verify_csrf_token cfg sid (Some (csrf_token_for_session cfg sid))"
  using length_csrf_token [of cfg sid] by (auto simp: verify_csrf_token_def)

section \<open>Cookies\<close>

datatype same_site = Lax

record cookie =
  ck_name :: string
  ck_value :: string
  ck_max_age :: int
  ck_httponly :: bool
  ck_secure :: bool
  ck_samesite :: same_site
  ck_path :: string

definition ACCESS_COOKIE :: string where "ACCESS_COOKIE = ''access_token''"
definition REFRESH_COOKIE :: string where "REFRESH_COOKIE = ''refresh_token''"
definition CSRF_COOKIE :: string where "CSRF_COOKIE = ''csrf_token''"
definition REFRESH_COOKIE_PATH :: string where "REFRESH_COOKIE_PATH = ''/api/v1/auth''"

definition secure_flag :: "settings \<Rightarrow> bool" where
  "secure_flag cfg = (environment cfg \<noteq> ''development'')"

text \<open>A response is the list of \<open>Set-Cookie\<close> headers it has collected, in order.  Deleting
  a cookie sets it empty with a lifetime of zero.\<close>

definition set_access_cookie :: "settings \<Rightarrow> string \<Rightarrow> cookie list \<Rightarrow> cookie list" where
  "set_access_cookie cfg access_token response = response @
     [\<lparr>ck_name = ACCESS_COOKIE, ck_value = access_token,
       ck_max_age = access_token_minutes cfg * 60, ck_httponly = True,
       ck_secure = secure_flag cfg, ck_samesite = Lax, ck_path = ''/''\<rparr>]"

definition set_session_cookies :: "settings \<Rightarrow> string \<Rightarrow> string \<Rightarrow> string \<Rightarrow> cookie list \<Rightarrow> cookie list" where
  "set_session_cookies cfg access_token refresh_token csrf_token response =
     set_access_cookie cfg access_token response @
     [\<lparr>ck_name = REFRESH_COOKIE, ck_value = refresh_token,
       ck_max_age = refresh_token_days cfg * 24 * 60 * 60, ck_httponly = True,
       ck_secure = secure_flag cfg, ck_samesite = Lax, ck_path = REFRESH_COOKIE_PATH\<rparr>,
      \<lparr>ck_name = CSRF_COOKIE, ck_value = csrf_token,
       ck_max_age = refresh_token_days cfg * 24 * 60 * 60, ck_httponly = False,
       ck_secure = secure_flag cfg, ck_samesite = Lax, ck_path = ''/''\<rparr>]"

definition delete_cookie :: "string \<Rightarrow> string \<Rightarrow> bool \<Rightarrow> bool \<Rightarrow> cookie" where
  "delete_cookie name path httponly secure =
     \<lparr>ck_name = name, ck_value = [], ck_max_age = 0, ck_httponly = httponly,
      ck_secure = secure, ck_samesite = Lax, ck_path = path\<rparr>"

definition clear_session_cookies :: "settings \<Rightarrow> cookie list \<Rightarrow> cookie list" where
  "clear_session_cookies cfg response = response @
     [delete_cookie ACCESS_COOKIE ''/'' True (secure_flag cfg),
      delete_cookie REFRESH_COOKIE REFRESH_COOKIE_PATH True (secure_flag cfg),
      delete_cookie CSRF_COOKIE ''/'' False (secure_flag cfg)]"

text \<open>A browser identifies a cookie by name and path; the last header for it wins.\<close>

definition browser_jar :: "cookie list \<Rightarrow> (string \<times> string) \<rightharpoonup> cookie" where
  "browser_jar cks k = row_by (\<lambda>c. (ck_name c, ck_path c)) k (rev cks)"

section \<open>Redis\<close>

text \<open>
  The keys with their string value and optional deadline.  A key past its deadline does not
  exist.  \<open>INCR\<close> of a key whose value is no integer is refused by the server; the program
  only increments its own counters.
\<close>

type_synonym redis = "string \<rightharpoonup> string \<times> timestamp option"

definition r_get :: "timestamp \<Rightarrow> string \<Rightarrow> redis \<Rightarrow> string option" where
  "r_get now k r = (case r k of None \<Rightarrow> None
     | Some (v, dl) \<Rightarrow> (case dl of None \<Rightarrow> Some v | Some d \<Rightarrow> if now < d then Some v else None))"

definition r_set :: "timestamp \<Rightarrow> string \<Rightarrow> string \<Rightarrow> int \<Rightarrow> redis \<Rightarrow> redis" where
  "r_set now k v ex r = r(k \<mapsto> (v, Some (now + seconds ex)))"

definition r_delete :: "string \<Rightarrow> redis \<Rightarrow> redis" where
  "r_delete k r = r(k := None)"

definition r_deadline :: "timestamp \<Rightarrow> string \<Rightarrow> redis \<Rightarrow> timestamp option" where
  "r_deadline now k r = (case r k of None \<Rightarrow> None
     | Some (v, dl) \<Rightarrow> (case dl of None \<Rightarrow> None | Some d \<Rightarrow> if now < d then Some d else None))"

definition r_incr :: "timestamp \<Rightarrow> string \<Rightarrow> redis \<Rightarrow> (int \<times> redis) option" where
  "r_incr now k r = (case r_get now k r of
       None \<Rightarrow> Some (1, r(k \<mapsto> (py_str_int 1, None)))
     | Some v \<Rightarrow> (case py_int v of None \<Rightarrow> None
         | Some n \<Rightarrow> Some (n + 1, r(k \<mapsto> (py_str_int (n + 1), r_deadline now k r)))))"

definition r_expire :: "timestamp \<Rightarrow> string \<Rightarrow> int \<Rightarrow> redis \<Rightarrow> redis" where
  "r_expire now k secs r = (case r_get now k r of None \<Rightarrow> r
     | Some v \<Rightarrow> r(k \<mapsto> (v, Some (now + seconds secs))))"

text \<open>\<open>TTL\<close> in seconds, rounded to the nearest: \<open>-2\<close> without the key, \<open>-1\<close> without a deadline.\<close>

definition r_ttl :: "timestamp \<Rightarrow> string \<Rightarrow> redis \<Rightarrow> int" where
  "r_ttl now k r = (case r_get now k r of None \<Rightarrow> -2
     | Some v \<Rightarrow> (case r_deadline now k r of None \<Rightarrow> -1
         | Some d \<Rightarrow> (d - now + 500000) div 1000000))"

section \<open>The rate limiter\<close>

definition rate_limited_error :: "(string \<times> string) list \<Rightarrow> api_error" where
  "rate_limited_error hs = \<lparr>ae_status_code = 429, ae_code = ''RATE_LIMITED'',
     ae_title = ''Too many requests'', ae_detail = ''Rate limit exceeded. Try again later.'', ae_headers = hs\<rparr>"

definition rate_key :: "string \<Rightarrow> string option \<Rightarrow> string" where
  "rate_key key_prefix client_host =
     ''ratelimit:'' @ key_prefix @ '':'' @ (case client_host of None \<Rightarrow> ''unknown'' | Some h \<Rightarrow> h)"

definition rate_headers :: "int \<Rightarrow> int \<Rightarrow> int \<Rightarrow> (string \<times> string) list" where
  "rate_headers limit count reset_seconds =
     [(''RateLimit-Limit'', py_str_int limit),
      (''RateLimit-Remaining'', py_str_int (max (limit - count) 0)),
      (''RateLimit-Reset'', py_str_int reset_seconds)]"

text \<open>The dependency: the outcome (\<open>None\<close> when Redis refuses the increment) with the store
  it leaves.  \<open>Inr\<close> carries the headers it sets on the response.\<close>

definition rate_limiter ::
  "string \<Rightarrow> int \<Rightarrow> int \<Rightarrow> timestamp \<Rightarrow> string option \<Rightarrow> redis
     \<Rightarrow> ((api_error + (string \<times> string) list) \<times> redis) option" where
  "rate_limiter key_prefix limit window_seconds now client_host r =
     (let key = rate_key key_prefix client_host in
      case r_incr now key r of
        None \<Rightarrow> None
      | Some (count, r1) \<Rightarrow>
          (let r2 = (if count = 1 then r_expire now key window_seconds r1 else r1);
               ttl = r_ttl now key r2;
               reset_seconds = (if ttl \<noteq> 0 \<and> ttl > 0 then ttl else window_seconds);
               hs = rate_headers limit count reset_seconds
           in Some (if count > limit then Inl (rate_limited_error hs) else Inr hs, r2)))"

section \<open>What the cookies and the limiter do\<close>

lemmas cookie_defs = set_session_cookies_def set_access_cookie_def clear_session_cookies_def
  delete_cookie_def

lemma cookie_names [simp]:
  "ACCESS_COOKIE \<noteq> REFRESH_COOKIE" "ACCESS_COOKIE \<noteq> CSRF_COOKIE" "REFRESH_COOKIE \<noteq> CSRF_COOKIE"
  "REFRESH_COOKIE \<noteq> ACCESS_COOKIE" "CSRF_COOKIE \<noteq> ACCESS_COOKIE" "CSRF_COOKIE \<noteq> REFRESH_COOKIE"
  by (simp_all add: ACCESS_COOKIE_def REFRESH_COOKIE_def CSRF_COOKIE_def)

lemma browser_jar_append:
  "browser_jar (xs @ ys) k = (case browser_jar ys k of None \<Rightarrow> browser_jar xs k | Some c \<Rightarrow> Some c)"
  by (simp add: browser_jar_def row_by_append split: option.splits)

lemma jar_after_login:
  assumes "browser_jar (set_session_cookies cfg a r c []) k = Some ck"
  shows "k \<in> {(ACCESS_COOKIE, ''/''), (REFRESH_COOKIE, REFRESH_COOKIE_PATH), (CSRF_COOKIE, ''/'')}"
  using assms by (auto simp: browser_jar_def cookie_defs split: if_splits)

text \<open>The counter a window holds after \<open>n\<close> requests.\<close>

definition counter_at :: "string \<Rightarrow> int \<Rightarrow> timestamp option \<Rightarrow> redis \<Rightarrow> bool" where
  "counter_at k n dl r = (r k = Some (py_str_int n, dl))"

lemma r_incr_fresh: "r_get now k r = None \<Longrightarrow> r_incr now k r = Some (1, r(k \<mapsto> (py_str_int 1, None)))"
  by (simp add: r_incr_def)

lemma r_incr_live:
  "counter_at k n (Some d) r \<Longrightarrow> now < d
    \<Longrightarrow> r_incr now k r = Some (n + 1, r(k \<mapsto> (py_str_int (n + 1), Some d)))"
  by (simp add: counter_at_def r_incr_def r_get_def r_deadline_def py_int_str_int)

lemma r_incr_unbounded:
  "counter_at k n None r \<Longrightarrow> r_incr now k r = Some (n + 1, r(k \<mapsto> (py_str_int (n + 1), None)))"
  by (simp add: counter_at_def r_incr_def r_get_def r_deadline_def py_int_str_int)

definition rate_accepts :: "(api_error + (string \<times> string) list) \<Rightarrow> bool" where
  "rate_accepts out = (case out of Inl e \<Rightarrow> False | Inr hs \<Rightarrow> True)"

text \<open>The outcomes of a sequence of requests from one client, at the given times.\<close>

fun rate_run :: "string \<Rightarrow> int \<Rightarrow> int \<Rightarrow> string option \<Rightarrow> redis \<Rightarrow> timestamp list \<Rightarrow> bool list" where
  "rate_run p limit w host r [] = []"
| "rate_run p limit w host r (t # ts) = (case rate_limiter p limit w t host r of
       None \<Rightarrow> []
     | Some (out, r') \<Rightarrow> rate_accepts out # rate_run p limit w host r' ts)"

lemma rate_limiter_first:
  assumes "r_get t (rate_key p host) r = None"
  obtains out r' where "rate_limiter p limit w t host r = Some (out, r')"
    and "rate_accepts out \<longleftrightarrow> 1 \<le> limit" and "counter_at (rate_key p host) 1 (Some (t + seconds w)) r'"
  using that r_incr_fresh [OF assms]
  by (auto simp: rate_limiter_def Let_def r_expire_def r_get_def rate_accepts_def counter_at_def)

lemma rate_limiter_next:
  assumes "counter_at (rate_key p host) n (Some d) r" and "t < d" and "0 < n"
  obtains out r' where "rate_limiter p limit w t host r = Some (out, r')"
    and "rate_accepts out \<longleftrightarrow> n + 1 \<le> limit" and "counter_at (rate_key p host) (n + 1) (Some d) r'"
  using that r_incr_live [OF assms(1,2)] assms(3)
  by (auto simp: rate_limiter_def Let_def rate_accepts_def counter_at_def)

lemma rate_run_live:
  assumes "counter_at (rate_key p host) n (Some d) r" and "0 < n" and "\<forall>t \<in> set ts. t < d"
  shows "rate_run p limit w host r ts = map (\<lambda>i. n + 1 + int i \<le> limit) [0..<length ts]"
  using assms
proof (induction ts arbitrary: n r)
  case Nil
  then show ?case by simp
next
  case (Cons t ts)
  from Cons.prems have "t < d" by simp
  from rate_limiter_next [OF Cons.prems(1) this Cons.prems(2), of limit w] obtain out r' where
    step: "rate_limiter p limit w t host r = Some (out, r')" "rate_accepts out \<longleftrightarrow> n + 1 \<le> limit"
    and cnt: "counter_at (rate_key p host) (n + 1) (Some d) r'" by blast
  have "rate_run p limit w host r' ts = map (\<lambda>i. n + 1 + 1 + int i \<le> limit) [0..<length ts]"
    using Cons.IH [OF cnt] Cons.prems by simp
  then show ?case
    using step by (simp add: upt_conv_Cons o_def algebra_simps del: upt_Suc flip: map_Suc_upt)
qed

text \<open>Within one window the limiter admits exactly the first \<open>limit\<close> requests of a client.\<close>

theorem rate_limiter_window:
  assumes "r_get t0 (rate_key p host) r = None" and "\<forall>t \<in> set ts. t < t0 + seconds w"
  shows "rate_run p limit w host r (t0 # ts) = map (\<lambda>i. int i < limit) [0..<Suc (length ts)]"
proof -
  obtain out r' where step: "rate_limiter p limit w t0 host r = Some (out, r')"
      "rate_accepts out \<longleftrightarrow> 1 \<le> limit"
    and cnt: "counter_at (rate_key p host) 1 (Some (t0 + seconds w)) r'"
    using rate_limiter_first [OF assms(1)] by blast
  have "rate_run p limit w host r' ts = map (\<lambda>i. 1 + 1 + int i \<le> limit) [0..<length ts]"
    using rate_run_live [OF cnt] assms(2) by simp
  then show ?thesis
    using step by (auto simp: upt_conv_Cons o_def simp del: upt_Suc simp flip: map_Suc_upt)
qed

theorem rate_limiter_window_witness:
  "rate_run ''auth:login'' 2 3600 (Some ''10.0.0.1'') (\<lambda>_. None) [0, 5, 10] = [True, True, False]"
  using rate_limiter_window [of 0 "''auth:login''" "Some ''10.0.0.1''" "\<lambda>_. None" "[5, 10]" 3600 2]
  by (simp add: r_get_def upt_rec)

text \<open>A counter that lost its deadline refuses its client for good once it has reached the limit.\<close>

theorem rate_limiter_no_deadline:
  assumes "counter_at (rate_key p host) n None r" and "limit \<le> n" and "1 \<le> n"
  shows "rate_run p limit w host r ts = replicate (length ts) False"
  using assms
proof (induction ts arbitrary: n r)
  case Nil
  then show ?case by simp
next
  case (Cons t ts)
  have "counter_at (rate_key p host) (n + 1) None (r(rate_key p host \<mapsto> (py_str_int (n + 1), None)))"
    by (simp add: counter_at_def)
  from Cons.IH [OF this] Cons.prems show ?case
    by (simp add: rate_limiter_def Let_def r_incr_unbounded rate_accepts_def fun_upd_def)
qed

text \<open>Logging out expires in the browser every cookie a login set, under the same flags.\<close>

theorem clear_covers_login:
  assumes "browser_jar (set_session_cookies cfg a r c []) k = Some ck"
  shows "browser_jar (set_session_cookies cfg a r c [] @ clear_session_cookies cfg []) k
     = Some (ck\<lparr>ck_value := [], ck_max_age := 0\<rparr>)"
proof -
  from jar_after_login [OF assms]
  consider "k = (ACCESS_COOKIE, ''/'')" | "k = (REFRESH_COOKIE, REFRESH_COOKIE_PATH)" | "k = (CSRF_COOKIE, ''/'')"
    by blast
  then show ?thesis
    using assms unfolding browser_jar_append by cases (auto simp: browser_jar_def cookie_defs)
qed

end
