(* ===== verification/Python_Values.thy ===== *)
theory Python_Values
  imports Text_Codec
begin

text \<open>
  Operations of the Python language on the values of \<open>dict[str, Any]\<close>: the name of a
  value's type, equality across the numeric types, and the \<open>repr\<close> of a string, which the
  program puts into problem documents.
\<close>

section \<open>Types and equality\<close>

text \<open>\<open>type(value).__name__\<close>.\<close>

fun py_type_name :: "pyval \<Rightarrow> string" where
  "py_type_name PNone = ''NoneType''"
| "py_type_name (PBool b) = ''bool''"
| "py_type_name (PInt i) = ''int''"
| "py_type_name (PFloat m e) = ''float''"
| "py_type_name (PStr s) = ''str''"
| "py_type_name (PTime t) = ''datetime''"
| "py_type_name (PList xs) = ''list''"
| "py_type_name (PDict d) = ''dict''"

text \<open>The number \<open>m * 2 ** e\<close> a numeric value stands for: \<open>True == 1 == 1.0\<close>.\<close>

fun py_number :: "pyval \<Rightarrow> (int \<times> int) option" where
  "py_number (PBool b) = Some (if b then 1 else 0, 0)"
| "py_number (PInt i) = Some (i, 0)"
| "py_number (PFloat m e) = Some (m, e)"
| "py_number _ = None"

definition same_number :: "int \<times> int \<Rightarrow> int \<times> int \<Rightarrow> bool" where
  "same_number p q = (case (p, q) of ((m, e), (n, f)) \<Rightarrow>
     let low = min e f in m * 2 ^ nat (e - low) = n * 2 ^ nat (f - low))"

text \<open>\<open>==\<close>.  Dictionaries are equal when they map the same keys to equal values, in any order.\<close>

fun py_eq :: "pyval \<Rightarrow> pyval \<Rightarrow> bool"
  and py_eq_items :: "pyval list \<Rightarrow> pyval list \<Rightarrow> bool"
  and py_eq_entries :: "(string \<times> pyval) list \<Rightarrow> (string \<times> pyval) list \<Rightarrow> bool" where
  "py_eq PNone w = (w = PNone)"
| "py_eq (PStr s) w = (w = PStr s)"
| "py_eq (PTime t) w = (w = PTime t)"
| "py_eq (PList xs) w = (case w of PList ys \<Rightarrow> py_eq_items xs ys | _ \<Rightarrow> False)"
| "py_eq (PDict d) w = (case w of PDict e \<Rightarrow> length d = length e \<and> py_eq_entries d e | _ \<Rightarrow> False)"
| "py_eq (PBool b) w = (case py_number w of None \<Rightarrow> False | Some q \<Rightarrow> same_number (if b then 1 else 0, 0) q)"
| "py_eq (PInt i) w = (case py_number w of None \<Rightarrow> False | Some q \<Rightarrow> same_number (i, 0) q)"
| "py_eq (PFloat m e) w = (case py_number w of None \<Rightarrow> False | Some q \<Rightarrow> same_number (m, e) q)"
| "py_eq_items [] ys = (ys = [])"
| "py_eq_items (x # xs) ys = (case ys of [] \<Rightarrow> False | y # ys' \<Rightarrow> py_eq x y \<and> py_eq_items xs ys')"
| "py_eq_entries [] e = True"
| "py_eq_entries ((k, v) # d) e =
     ((case map_of e k of None \<Rightarrow> False | Some w \<Rightarrow> py_eq v w) \<and> py_eq_entries d e)"

text \<open>Keys of a Python dictionary are distinct, at every depth.\<close>

fun proper :: "pyval \<Rightarrow> bool"
  and proper_items :: "pyval list \<Rightarrow> bool"
  and proper_entries :: "(string \<times> pyval) list \<Rightarrow> bool" where
  "proper (PList xs) = proper_items xs"
| "proper (PDict d) = (distinct (map fst d) \<and> proper_entries d)"
| "proper v = True"
| "proper_items [] = True"
| "proper_items (x # xs) = (proper x \<and> proper_items xs)"
| "proper_entries [] = True"
| "proper_entries ((k, v) # d) = (proper v \<and> proper_entries d)"

lemma same_number_refl [simp]: "same_number p p"
  by (simp add: same_number_def split: prod.split)

lemma py_eq_entries_sub:
  "\<forall>(k, v) \<in> set d. map_of e k = Some v \<and> py_eq v v \<Longrightarrow> py_eq_entries d e"
  by (induction d) auto

lemma py_eq_refl:
  "proper v \<Longrightarrow> py_eq v v"
  "proper_items xs \<Longrightarrow> py_eq_items xs xs"
  "proper_entries d \<Longrightarrow> \<forall>(k, v) \<in> set d. py_eq v v"
proof (induction v and xs and d rule: proper_proper_items_proper_entries.induct)
  case (2 d)
  then have "py_eq_entries d d"
    by (intro py_eq_entries_sub) auto
  then show ?case by simp
qed auto

lemma py_eq_same_type:
  "py_type_name v = py_type_name w \<Longrightarrow> py_eq v w \<Longrightarrow> v \<in> {PNone} \<union> range PBool \<union> range PInt \<union> range PStr \<Longrightarrow> w = v"
  by (cases v; cases w) (auto simp: same_number_def split: if_splits)

section \<open>\<open>repr\<close> of a string\<close>

text \<open>Printable below code point 256: the ASCII graphics, the blank, and the upper half
  without the no-break blank and the soft hyphen.\<close>

definition py_printable :: "char \<Rightarrow> bool" where
  "py_printable c = (let n = ord_of c in 32 \<le> n \<and> n < 127 \<or> 161 \<le> n \<and> n \<noteq> 173)"

definition repr_char :: "char \<Rightarrow> char \<Rightarrow> string" where
  "repr_char quote c = (let n = ord_of c in
     if c = quote \<or> c = CHR 0x5C then [CHR 0x5C, c]
     else if n = 9 then [CHR 0x5C, CHR ''t''] else if n = 10 then [CHR 0x5C, CHR ''n'']
     else if n = 13 then [CHR 0x5C, CHR ''r'']
     else if py_printable c then [c]
     else [CHR 0x5C, CHR ''x'', hexd (n div 16), hexd (n mod 16)])"

definition py_repr :: "string \<Rightarrow> string" where
  "py_repr s = (let quote = (if CHR 0x27 \<in> set s \<and> CHR 0x22 \<notin> set s then CHR 0x22 else CHR 0x27)
     in quote # concat (map (repr_char quote) s) @ [quote])"

abbreviation (input) quoted :: "string \<Rightarrow> string" where
  "quoted s \<equiv> CHR 0x27 # s @ [CHR 0x27]"

section \<open>Joins, prefixes and patterns\<close>

text \<open>\<open>sep.join(parts)\<close>.\<close>

fun py_join :: "string \<Rightarrow> string list \<Rightarrow> string" where
  "py_join sep [] = []"
| "py_join sep [s] = s"
| "py_join sep (s # ss) = s @ sep @ py_join sep ss"

text \<open>\<open>str.startswith\<close>, and \<open>LIKE\<close> with an escaped prefix.\<close>

fun starts_with :: "string \<Rightarrow> string \<Rightarrow> bool" where
  "starts_with [] s = True"
| "starts_with (c # cs) [] = False"
| "starts_with (c # cs) (d # ds) = (c = d \<and> starts_with cs ds)"

text \<open>\<open>re.compile("^...$").match(s)\<close>: the dollar also matches before a final newline.\<close>

definition re_whole :: "(string \<Rightarrow> bool) \<Rightarrow> string \<Rightarrow> bool" where
  "re_whole P s = (P s \<or> s \<noteq> [] \<and> last s = CHR 0x0A \<and> P (butlast s))"

definition ascii_lower :: "char \<Rightarrow> bool" where
  "ascii_lower c = (let n = ord_of c in 97 \<le> n \<and> n \<le> 122)"

definition ascii_digit :: "char \<Rightarrow> bool" where
  "ascii_digit c = (let n = ord_of c in 48 \<le> n \<and> n \<le> 57)"

lemma strip_by_last: "strip_by P s \<noteq> [] \<Longrightarrow> \<not> P (last (strip_by P s))"
proof -
  assume "strip_by P s \<noteq> []"
  then have "dropWhile P (rev (dropWhile P s)) \<noteq> []" by (simp add: strip_by_def)
  from hd_dropWhile [OF this] show ?thesis by (simp only: strip_by_def last_rev not_False_eq_True)
qed

lemma strip_by_hd: "strip_by P s \<noteq> [] \<Longrightarrow> \<not> P (hd (strip_by P s))"
proof -
  assume ne: "strip_by P s \<noteq> []"
  let ?d = "dropWhile P s"
  have d: "?d \<noteq> []"
  proof
    assume "?d = []"
    then have "strip_by P s = []" by (simp only: strip_by_def rev.simps dropWhile.simps)
    with ne show False by contradiction
  qed
  have "rev ?d = takeWhile P (rev ?d) @ dropWhile P (rev ?d)" by simp
  then have "?d = rev (dropWhile P (rev ?d)) @ rev (takeWhile P (rev ?d))"
    by (metis rev_append rev_rev_ident)
  with ne have "hd (strip_by P s) = hd ?d" by (metis hd_append2 strip_by_def)
  with hd_dropWhile [OF d] show ?thesis by simp
qed

lemma strip_by_stripped: "s \<noteq> [] \<Longrightarrow> \<not> P (hd s) \<Longrightarrow> \<not> P (last s) \<Longrightarrow> strip_by P s = s"
proof -
  assume a: "s \<noteq> []" "\<not> P (hd s)" "\<not> P (last s)"
  then have "dropWhile P s = s" by (cases s) auto
  moreover have "dropWhile P (rev s) = rev s" using a by (cases s rule: rev_cases) auto
  ultimately show ?thesis by (simp add: strip_by_def)
qed

lemma strip_by_idem [simp]: "strip_by P (strip_by P s) = strip_by P s"
proof (cases "strip_by P s = []")
  case True
  then show ?thesis by (simp only: True) (simp add: strip_by_def)
next
  case False
  from strip_by_stripped [OF False strip_by_hd [OF False] strip_by_last [OF False]] show ?thesis .
qed

lemma py_strip_idem [simp]: "py_strip (py_strip s) = py_strip s"
  by (simp add: py_strip_def)

lemma py_strip_no_newline: "py_strip s \<noteq> [] \<Longrightarrow> last (py_strip s) \<noteq> CHR 0x0A"
  using strip_by_last [of py_space s] by (auto simp: py_strip_def py_space_def)

lemma re_whole_stripped: "re_whole P (py_strip s) = P (py_strip s)"
  using py_strip_no_newline [of s] by (auto simp: re_whole_def)

lemma length_strip_by: "length (strip_by P s) \<le> length s"
  using length_dropWhile_le [of P s] length_dropWhile_le [of P "rev (dropWhile P s)"]
  by (simp add: strip_by_def)

end
