(* ===== verification/Platform_Entities.thy ===== *)
theory Platform_Entities
  imports Python_Values
begin

text \<open>
  The platform domain (platform/domain/entities.py, enums.py, exceptions.py): the email outbox
  with its delivery states, the audit log, and the typed settings.
\<close>

datatype outbox_status = PENDING | SENDING | SENT | FAILED

record outbox_message =
  ob_id :: uuid
  ob_user_id :: "uuid option"
  ob_recipient_email :: string
  ob_template :: string
  ob_payload :: "(string \<times> pyval) list"
  ob_status :: outbox_status
  ob_send_after :: timestamp
  ob_attempt_count :: int
  ob_last_error :: "string option"
  ob_sent_at :: "timestamp option"
  ob_created_at :: timestamp
  ob_updated_at :: timestamp

record audit_entry =
  al_id :: uuid
  al_actor_user_id :: "uuid option"
  al_action :: string
  al_entity_type :: string
  al_entity_id :: "uuid option"
  al_before_data :: "(string \<times> pyval) list option"
  al_after_data :: "(string \<times> pyval) list option"
  al_request_id :: "string option"
  al_ip_hash :: "string option"
  al_created_at :: timestamp

definition MAX_OUTBOX_ATTEMPTS :: int where "MAX_OUTBOX_ATTEMPTS = 5"

definition REDACTED :: string where "REDACTED = ''[redacted]''"

text \<open>\<open>dict.fromkeys(payload, REDACTED)\<close>.\<close>

definition redact_payload :: "outbox_message \<Rightarrow> outbox_message" where
  "redact_payload m = m\<lparr>ob_payload := map (\<lambda>(k, v). (k, PStr REDACTED)) (ob_payload m)\<rparr>"

definition ob_mark_sent :: "timestamp \<Rightarrow> outbox_message \<Rightarrow> outbox_message" where
  "ob_mark_sent at m = redact_payload
     (m\<lparr>ob_status := SENT, ob_sent_at := Some at, ob_updated_at := at\<rparr>)"

definition ob_mark_failed :: "string \<Rightarrow> timestamp \<Rightarrow> timestamp \<Rightarrow> outbox_message \<Rightarrow> outbox_message" where
  "ob_mark_failed err next_attempt_at at m =
     (let m1 = m\<lparr>ob_attempt_count := ob_attempt_count m + 1,
                 ob_last_error := Some (take 1000 err), ob_updated_at := at\<rparr>
      in if ob_attempt_count m1 \<ge> MAX_OUTBOX_ATTEMPTS
         then redact_payload (m1\<lparr>ob_status := FAILED\<rparr>)
         else m1\<lparr>ob_status := PENDING, ob_send_after := next_attempt_at\<rparr>)"

text \<open>A row holds no secret once every payload value is the redaction mark.\<close>

definition redacted :: "outbox_message \<Rightarrow> bool" where
  "redacted m = (\<forall>(k, v) \<in> set (ob_payload m). v = PStr REDACTED)"

lemma redacted_redact [simp]: "redacted (redact_payload m)"
  by (auto simp: redacted_def redact_payload_def)

lemma redact_keys: "map fst (ob_payload (redact_payload m)) = map fst (ob_payload m)"
  by (simp add: redact_payload_def comp_def case_prod_beta)

lemma ob_id_methods [simp]:
  "ob_id (redact_payload m) = ob_id m" "ob_id (ob_mark_sent at m) = ob_id m"
  "ob_id (ob_mark_failed err nxt at m) = ob_id m"
  by (simp_all add: redact_payload_def ob_mark_sent_def ob_mark_failed_def Let_def)

section \<open>Settings\<close>

datatype setting_type = BOOLEAN | INTEGER | STRING | MONEY | DURATION | JSON

text \<open>What \<open>SettingTypeMismatchError\<close> reports: a declared type or the name of a Python type.\<close>

datatype type_label = Declared setting_type | Python_Type string

datatype platform_error =
    SettingNotFoundError string
  | InvalidSettingValueError string "string list"
  | SettingTypeMismatchError string type_label type_label

record setting =
  st_id :: uuid
  st_key :: string
  st_type :: setting_type
  st_value :: pyval
  st_description :: "string option"
  st_updated_by :: "uuid option"
  st_created_at :: timestamp
  st_updated_at :: timestamp

definition change_value :: "pyval \<Rightarrow> uuid \<Rightarrow> timestamp \<Rightarrow> setting \<Rightarrow> bool \<times> setting" where
  "change_value new_value actor_id at s =
     (if py_type_name (st_value s) = py_type_name new_value \<and> py_eq (st_value s) new_value then (False, s)
      else (True, s\<lparr>st_value := new_value, st_updated_by := Some actor_id, st_updated_at := at\<rparr>))"

lemma change_value_fields:
  "change_value v actor at s = (c, s') \<Longrightarrow> st_id s' = st_id s \<and> st_key s' = st_key s \<and> st_type s' = st_type s
     \<and> st_description s' = st_description s \<and> st_created_at s' = st_created_at s"
  by (auto simp: change_value_def split: if_splits)

end
