(* ===== verification/Catalog_Entities.thy ===== *)
theory Catalog_Entities
  imports Python_Values
begin

text \<open>
  The catalogue domain: catalog/domain/exceptions.py, slug.py and entities.py.  A material and a
  colour are reference values; a category is a reference value with a slug, as its class extends
  \<open>_ReferenceValue\<close>.  The lifecycle methods are those of the base class and apply to both.
\<close>

datatype catalog_error =
    ReferenceValueNotFoundError string uuid
  | SlugConflictError string
  | InvalidSlugError string string
  | ArchivedValueNotMutableError string uuid

section \<open>Slugs\<close>

definition MAX_SLUG_LENGTH :: nat where "MAX_SLUG_LENGTH = 200"

definition slug_char :: "char \<Rightarrow> bool" where
  "slug_char c = (ascii_lower c \<or> ascii_digit c)"

text \<open>\<open>[a-z0-9]+(?:-[a-z0-9]+)*\<close>; the flag says that a group has at least one character.\<close>

fun slug_groups :: "bool \<Rightarrow> string \<Rightarrow> bool" where
  "slug_groups started [] = started"
| "slug_groups started (c # cs) =
     (if slug_char c then slug_groups True cs else c = CHR ''-'' \<and> started \<and> slug_groups False cs)"

definition normalise_slug :: "string \<Rightarrow> catalog_error + string" where
  "normalise_slug raw = (let candidate = py_lower (py_strip raw) in
     if candidate = [] then Inl (InvalidSlugError raw ''slug must not be empty'')
     else if MAX_SLUG_LENGTH < length candidate
     then Inl (InvalidSlugError raw (''slug must be at most '' @ py_str_int (int MAX_SLUG_LENGTH) @ '' characters''))
     else if \<not> re_whole (slug_groups False) candidate
     then Inl (InvalidSlugError raw
       ''slug may contain only lowercase letters, digits and single hyphens between them'')
     else Inr candidate)"

text \<open>The canonical form: nonempty groups of lowercase letters and digits between single hyphens.\<close>

definition canonical_slug :: "string \<Rightarrow> bool" where
  "canonical_slug s = (slug_groups False s \<and> length s \<le> MAX_SLUG_LENGTH)"

lemma slug_char_plain: "slug_char c \<Longrightarrow> lower_char c = c \<and> \<not> py_space c"
  by (auto simp: slug_char_def ascii_lower_def ascii_digit_def lower_char_def py_space_def Let_def)

lemma hyphen_plain: "lower_char CHR ''-'' = CHR ''-''" "\<not> py_space CHR ''-''"
  by (simp_all add: lower_char_def py_space_def Let_def)

lemma slug_groups_chars: "slug_groups b s \<Longrightarrow> \<forall>c \<in> set s. lower_char c = c \<and> \<not> py_space c"
  by (induction b s rule: slug_groups.induct) (auto simp: slug_char_plain hyphen_plain split: if_splits)

lemma slug_groups_nonempty: "slug_groups False s \<Longrightarrow> s \<noteq> []"
  by auto

lemma slug_groups_lower: "slug_groups b s \<Longrightarrow> py_lower s = s"
  using slug_groups_chars by (auto simp: py_lower_def intro: map_idI)

lemma slug_groups_strip: "slug_groups b s \<Longrightarrow> py_strip s = s"
  unfolding py_strip_def by (rule strip_by_none) (auto dest: slug_groups_chars)

text \<open>No hyphen at either end and no two in a row, and only slug characters between them.\<close>

lemma slug_groups_shape:
  "slug_groups b s \<longleftrightarrow> (\<forall>c \<in> set s. slug_char c \<or> c = CHR ''-'')
     \<and> (if s = [] then b else (hd s = CHR ''-'' \<longrightarrow> b) \<and> last s \<noteq> CHR ''-'')
     \<and> (\<forall>i. Suc i < length s \<longrightarrow> \<not> (s ! i = CHR ''-'' \<and> s ! Suc i = CHR ''-''))"
proof (induction b s rule: slug_groups.induct)
  case (2 b c cs)
  have hyphen: "\<not> slug_char CHR ''-''" by (simp add: slug_char_def ascii_lower_def ascii_digit_def)
  have all_nat: "(\<forall>i. Q i) \<longleftrightarrow> Q 0 \<and> (\<forall>i. Q (Suc i))" for Q :: "nat \<Rightarrow> bool"
    by (metis not0_implies_Suc)
  have step: "(\<forall>i. Suc i < length (c # cs) \<longrightarrow> \<not> ((c # cs) ! i = CHR ''-'' \<and> (c # cs) ! Suc i = CHR ''-''))
      \<longleftrightarrow> (cs \<noteq> [] \<longrightarrow> \<not> (c = CHR ''-'' \<and> hd cs = CHR ''-''))
        \<and> (\<forall>i. Suc i < length cs \<longrightarrow> \<not> (cs ! i = CHR ''-'' \<and> cs ! Suc i = CHR ''-''))"
    by (subst all_nat) (auto simp: hd_conv_nth)
  show ?case
    unfolding step using 2 hyphen by (cases "slug_char c") auto
qed simp

section \<open>Reference values\<close>

record reference_value =
  rv_id :: uuid
  rv_name :: string
  rv_is_active :: bool
  rv_deleted_at :: "timestamp option"
  rv_created_at :: timestamp
  rv_updated_at :: timestamp

record category = reference_value +
  cat_slug :: string

definition is_archived :: "'a reference_value_scheme \<Rightarrow> bool" where
  "is_archived v = (rv_deleted_at v \<noteq> None)"

definition is_publicly_visible :: "'a reference_value_scheme \<Rightarrow> bool" where
  "is_publicly_visible v = (rv_deleted_at v = None \<and> rv_is_active v)"

definition audit_snapshot :: "'a reference_value_scheme \<Rightarrow> (string \<times> pyval) list" where
  "audit_snapshot v = [(''name'', PStr (rv_name v)), (''is_active'', PBool (rv_is_active v)),
     (''deleted_at'', case rv_deleted_at v of None \<Rightarrow> PNone | Some t \<Rightarrow> PStr (isoformat t))]"

definition archive :: "timestamp \<Rightarrow> 'a reference_value_scheme \<Rightarrow> 'a reference_value_scheme" where
  "archive at v = v\<lparr>rv_deleted_at := Some at, rv_is_active := False, rv_updated_at := at\<rparr>"

text \<open>\<open>Category.audit_snapshot\<close> extends the one of its base class.\<close>

definition category_audit_snapshot :: "category \<Rightarrow> (string \<times> pyval) list" where
  "category_audit_snapshot c = audit_snapshot c @ [(''slug'', PStr (cat_slug c))]"

text \<open>The assignments of \<open>apply_update\<close>, in order; the flag says that one of them changed a field.\<close>

definition update_name :: "string option \<Rightarrow> bool \<times> 'a reference_value_scheme \<Rightarrow> bool \<times> 'a reference_value_scheme" where
  "update_name name p = (case (name, p) of (Some n, (changed, v)) \<Rightarrow>
       if n \<noteq> rv_name v then (True, v\<lparr>rv_name := n\<rparr>) else p
     | _ \<Rightarrow> p)"

definition update_is_active :: "bool option \<Rightarrow> bool \<times> 'a reference_value_scheme \<Rightarrow> bool \<times> 'a reference_value_scheme" where
  "update_is_active is_active p = (case (is_active, p) of (Some a, (changed, v)) \<Rightarrow>
       if a \<noteq> rv_is_active v then (True, v\<lparr>rv_is_active := a\<rparr>) else p
     | _ \<Rightarrow> p)"

definition update_slug :: "string option \<Rightarrow> bool \<times> category \<Rightarrow> bool \<times> category" where
  "update_slug slug p = (case (slug, p) of (Some s, (changed, v)) \<Rightarrow>
       if s \<noteq> cat_slug v then (True, v\<lparr>cat_slug := s\<rparr>) else p
     | _ \<Rightarrow> p)"

definition touch :: "timestamp \<Rightarrow> bool \<times> 'a reference_value_scheme \<Rightarrow> bool \<times> 'a reference_value_scheme" where
  "touch at p = (case p of (changed, v) \<Rightarrow> (changed, if changed then v\<lparr>rv_updated_at := at\<rparr> else v))"

definition apply_update :: "string option \<Rightarrow> bool option \<Rightarrow> timestamp
    \<Rightarrow> reference_value \<Rightarrow> bool \<times> reference_value" where
  "apply_update name is_active at v = touch at (update_is_active is_active (update_name name (False, v)))"

definition apply_category_update :: "string option \<Rightarrow> string option \<Rightarrow> bool option \<Rightarrow> timestamp
    \<Rightarrow> category \<Rightarrow> bool \<times> category" where
  "apply_category_update name slug is_active at v =
     touch at (update_is_active is_active (update_slug slug (update_name name (False, v))))"

lemmas entity_update_defs = apply_update_def apply_category_update_def update_name_def update_is_active_def
  update_slug_def touch_def

text \<open>A field named in the request takes its value, the others stay; the timestamp moves exactly
  when a field did.\<close>

lemma apply_update_spec:
  assumes "apply_update name is_active at v = (changed, w)"
  shows "rv_name w = (case name of None \<Rightarrow> rv_name v | Some n \<Rightarrow> n)"
    and "rv_is_active w = (case is_active of None \<Rightarrow> rv_is_active v | Some a \<Rightarrow> a)"
    and "rv_id w = rv_id v" and "rv_deleted_at w = rv_deleted_at v" and "rv_created_at w = rv_created_at v"
    and "rv_updated_at w = (if changed then at else rv_updated_at v)"
    and "changed \<longleftrightarrow> rv_name w \<noteq> rv_name v \<or> rv_is_active w \<noteq> rv_is_active v"
    and "\<not> changed \<Longrightarrow> w = v"
  using assms by (auto simp: entity_update_defs split: option.splits if_splits)

lemma apply_category_update_spec:
  assumes "apply_category_update name slug is_active at v = (changed, w)"
  shows "rv_name w = (case name of None \<Rightarrow> rv_name v | Some n \<Rightarrow> n)"
    and "cat_slug w = (case slug of None \<Rightarrow> cat_slug v | Some s \<Rightarrow> s)"
    and "rv_is_active w = (case is_active of None \<Rightarrow> rv_is_active v | Some a \<Rightarrow> a)"
    and "rv_id w = rv_id v" and "rv_deleted_at w = rv_deleted_at v" and "rv_created_at w = rv_created_at v"
    and "rv_updated_at w = (if changed then at else rv_updated_at v)"
    and "changed \<longleftrightarrow> rv_name w \<noteq> rv_name v \<or> cat_slug w \<noteq> cat_slug v \<or> rv_is_active w \<noteq> rv_is_active v"
    and "\<not> changed \<Longrightarrow> w = v"
  using assms by (auto simp: entity_update_defs split: option.splits if_splits)

lemma archive_fields [simp]:
  "rv_id (archive at v) = rv_id v" "rv_name (archive at v) = rv_name v" "is_archived (archive at v)"
  "\<not> is_publicly_visible (archive at v)" "rv_created_at (archive at v) = rv_created_at v"
  "rv_deleted_at (archive at v) = Some at" "\<not> rv_is_active (archive at v)"
  by (simp_all add: archive_def is_archived_def is_publicly_visible_def)

section \<open>What a slug can be\<close>

lemma normalise_slug_iff:
  "normalise_slug raw = Inr s \<longleftrightarrow> s = py_lower (py_strip raw) \<and> canonical_slug s"
proof -
  have lower_newline: "c = CHR 0x0A" if "lower_char c = CHR 0x0A" for c
  proof -
    from that have "(of_char (lower_char c) :: nat) = 10" by simp
    then have "lower_char c = c" by (auto simp: lower_char_def Let_def split: if_splits)
    with that show ?thesis by simp
  qed
  let ?c = "py_lower (py_strip raw)"
  have "re_whole (slug_groups False) ?c = slug_groups False ?c"
    using py_strip_no_newline [of raw] lower_newline
    by (auto simp: re_whole_def py_lower_def last_map)
  then show ?thesis
    by (auto simp: normalise_slug_def Let_def canonical_slug_def)
qed

text \<open>Normalisation accepts exactly the texts whose trimmed lower-case form is canonical, returns
  that form, and leaves a canonical slug as it is.\<close>

theorem normalise_slug_exact:
  "normalise_slug raw = Inr s \<longleftrightarrow> s = py_lower (py_strip raw) \<and> canonical_slug s"
  by (rule normalise_slug_iff)

text \<open>A canonical slug is left as it is.\<close>

theorem canonical_slug_stable: "canonical_slug s \<Longrightarrow> normalise_slug s = Inr s"
  by (auto simp: normalise_slug_iff canonical_slug_def slug_groups_strip [of False] slug_groups_lower [of False])

end
