(* ===== verification/Engagement_Entities.thy ===== *)
theory Engagement_Entities
  imports Python_Values Digest
begin

text \<open>
  The engagement domain: engagement/domain/enums.py, exceptions.py, entities.py and payload.py.
  The length of a payload is measured on its JSON text.  The text of a float is an argument,
  CPython's \<open>float.__repr__\<close>; non-finite floats, keys that are no strings and lone surrogates have
  no counterpart among the modelled values, so the checks for them cannot fire.
\<close>

datatype notification_type = ACCOUNT | ORDER | PAYMENT | REFUND | OFFER | DOWNLOAD

datatype engagement_error =
    InvalidNotificationPayloadError "string list"
  | NotificationNotFoundError uuid

record notification =
  nt_id :: uuid
  nt_user_id :: uuid
  nt_type :: notification_type
  nt_payload :: "(string \<times> pyval) list"
  nt_read_at :: "timestamp option"
  nt_created_at :: timestamp

definition is_read :: "notification \<Rightarrow> bool" where
  "is_read n = (nt_read_at n \<noteq> None)"

section \<open>The JSON text of a payload\<close>

definition MAX_PAYLOAD_BYTES :: nat where "MAX_PAYLOAD_BYTES = 16 * 1024"

definition EVENT_KEY :: string where "EVENT_KEY = ''event''"

text \<open>\<open>json.dumps\<close> of a string with \<open>ensure_ascii=False\<close>.\<close>

definition json_char :: "char \<Rightarrow> string" where
  "json_char c = (let n = ord_of c in
     if n = 34 \<or> n = 92 then [CHR 0x5C, c]
     else if n = 8 then [CHR 0x5C, CHR ''b''] else if n = 9 then [CHR 0x5C, CHR ''t'']
     else if n = 10 then [CHR 0x5C, CHR ''n''] else if n = 12 then [CHR 0x5C, CHR ''f'']
     else if n = 13 then [CHR 0x5C, CHR ''r'']
     else if n < 32 then [CHR 0x5C, CHR ''u'', CHR ''0'', CHR ''0'', hexd (n div 16), hexd (n mod 16)]
     else [c])"

definition json_string :: "string \<Rightarrow> string" where
  "json_string s = CHR 0x22 # concat (map json_char s) @ [CHR 0x22]"

text \<open>\<open>sort_keys=True\<close>: an entry is put before the first one with a larger key.\<close>

fun text_less :: "string \<Rightarrow> string \<Rightarrow> bool" where
  "text_less s [] = False"
| "text_less [] (c # cs) = True"
| "text_less (a # as) (c # cs) = (ord_of a < ord_of c \<or> a = c \<and> text_less as cs)"

fun insert_entry :: "string \<times> 'v \<Rightarrow> (string \<times> 'v) list \<Rightarrow> (string \<times> 'v) list" where
  "insert_entry e [] = [e]"
| "insert_entry e (f # fs) = (if text_less (fst f) (fst e) then f # insert_entry e fs else e # f # fs)"

text \<open>\<open>None\<close> is \<open>TypeError\<close>: a value \<open>json\<close> cannot serialise.  The strings of an object are
  computed for its entries in their order and then sorted by key.\<close>

fun compact_json :: "(int \<Rightarrow> int \<Rightarrow> string) \<Rightarrow> pyval \<Rightarrow> string option"
  and json_items :: "(int \<Rightarrow> int \<Rightarrow> string) \<Rightarrow> pyval list \<Rightarrow> string list option"
  and json_entries :: "(int \<Rightarrow> int \<Rightarrow> string) \<Rightarrow> (string \<times> pyval) list \<Rightarrow> (string \<times> string) list option" where
  "compact_json fl PNone = Some ''null''"
| "compact_json fl (PBool b) = Some (if b then ''true'' else ''false'')"
| "compact_json fl (PInt i) = Some (py_str_int i)"
| "compact_json fl (PFloat m e) = Some (fl m e)"
| "compact_json fl (PStr s) = Some (json_string s)"
| "compact_json fl (PTime t) = None"
| "compact_json fl (PList xs) = map_option (\<lambda>ts. CHR ''['' # py_join '','' ts @ '']'') (json_items fl xs)"
| "compact_json fl (PDict d) = map_option (\<lambda>es. CHR 0x7B # py_join '',''
       (map (\<lambda>(k, t). json_string k @ CHR '':'' # t) es) @ [CHR 0x7D]) (json_entries fl d)"
| "json_items fl [] = Some []"
| "json_items fl (x # xs) = (case compact_json fl x of None \<Rightarrow> None
     | Some t \<Rightarrow> map_option (Cons t) (json_items fl xs))"
| "json_entries fl [] = Some []"
| "json_entries fl ((k, v) # d) = (case compact_json fl v of None \<Rightarrow> None
     | Some t \<Rightarrow> map_option (insert_entry (k, t)) (json_entries fl d))"

section \<open>Validation\<close>

definition event_reasons :: "(string \<times> pyval) list \<Rightarrow> string list" where
  "event_reasons d = (case map_of d EVENT_KEY of
       None \<Rightarrow> [''payload must contain '' @ py_repr EVENT_KEY]
     | Some PNone \<Rightarrow> [''payload must contain '' @ py_repr EVENT_KEY]
     | Some (PStr s) \<Rightarrow> if py_strip s = [] then [''payload '' @ py_repr EVENT_KEY @ '' must not be empty''] else []
     | Some v \<Rightarrow> [''payload '' @ py_repr EVENT_KEY @ '' must be a string, got '' @ py_type_name v])"

definition size_reasons :: "(int \<Rightarrow> int \<Rightarrow> string) \<Rightarrow> (string \<times> pyval) list \<Rightarrow> string list" where
  "size_reasons fl d = (case compact_json fl (PDict d) of
       None \<Rightarrow> [''payload must be JSON-serialisable: Object of type datetime is not JSON serializable'']
     | Some t \<Rightarrow> let size = length (utf8 t) in
         if MAX_PAYLOAD_BYTES < size
         then [''payload is '' @ py_str_int (int size) @ '' bytes, above the ''
               @ py_str_int (int MAX_PAYLOAD_BYTES) @ ''-byte limit''] else [])"

definition validate_payload :: "(int \<Rightarrow> int \<Rightarrow> string) \<Rightarrow> pyval \<Rightarrow> engagement_error + (string \<times> pyval) list" where
  "validate_payload fl payload = (case payload of
       PDict d \<Rightarrow> (let reasons = event_reasons d @ size_reasons fl d
         in if reasons \<noteq> [] then Inl (InvalidNotificationPayloadError reasons) else Inr d)
     | _ \<Rightarrow> Inl (InvalidNotificationPayloadError [''payload must be a JSON object, got '' @ py_type_name payload]))"

text \<open>A payload is accepted unchanged exactly when it is an object with a nonblank string under
  \<open>event\<close> whose JSON text fits into 16 KiB; every rule it breaks is reported.\<close>

theorem validate_payload_exact:
  "validate_payload fl payload = Inr d \<longleftrightarrow> payload = PDict d
     \<and> (\<exists>s. map_of d ''event'' = Some (PStr s) \<and> py_strip s \<noteq> [])
     \<and> (\<exists>t. compact_json fl payload = Some t \<and> length (utf8 t) \<le> 16384)"
proof (cases payload)
  case (PDict e)
  have "event_reasons e = [] \<longleftrightarrow> (\<exists>s. map_of e ''event'' = Some (PStr s) \<and> py_strip s \<noteq> [])"
    by (auto simp: event_reasons_def EVENT_KEY_def split: option.splits pyval.splits)
  moreover have "size_reasons fl e = [] \<longleftrightarrow> (\<exists>t. compact_json fl payload = Some t \<and> length (utf8 t) \<le> 16384)"
    unfolding PDict by (auto simp: size_reasons_def MAX_PAYLOAD_BYTES_def Let_def simp del: compact_json.simps split: option.splits)
  ultimately show ?thesis unfolding validate_payload_def PDict by (auto simp: Let_def)
qed (simp_all add: validate_payload_def)

end
