(* ===== verification/Identity_Entities.thy ===== *)
theory Identity_Entities
  imports Core Platform_Entities Catalog_Entities Engagement_Entities
begin

text \<open>
  The identity domain: identity/domain/enums.py, exceptions.py and entities.py.  An entity is
  a record with the fields of its dataclass; a method that mutates the entity returns the new
  record, and one that raises returns \<open>Inl\<close> of the exception.  The exceptions are one
  datatype; \<open>is_invalid_session\<close>, \<open>is_session_terminated\<close> and \<open>is_invalid_mfa_code\<close>
  are the \<open>except\<close> clauses that catch a base class.
\<close>

section \<open>Enumerations and exceptions\<close>

datatype user_role = CUSTOMER | ADMIN

definition role_value :: "user_role \<Rightarrow> string" where
  "role_value r = (case r of CUSTOMER \<Rightarrow> ''customer'' | ADMIN \<Rightarrow> ''admin'')"

text \<open>\<open>UserRole(value)\<close>; \<open>None\<close> is \<open>ValueError\<close>.\<close>

definition parse_role :: "pyval \<Rightarrow> user_role option" where
  "parse_role v = (if v = PStr ''customer'' then Some CUSTOMER
     else if v = PStr ''admin'' then Some ADMIN else None)"

datatype mfa_method = TOTP

datatype app_error =
    AlreadyVerifiedError uuid
  | InvalidVerificationTokenError
  | VerificationTokenExpiredError uuid
  | InvalidCredentialsError
  | AccountDisabledError uuid
  | AccountLockedError int
  | InvalidSessionError
  | SessionRevokedError uuid
  | SessionExpiredError uuid
  | RefreshTokenReuseError uuid
  | SessionOwnerRevokedError uuid
  | InvalidRecoveryCodeError
  | MfaNotEnrolledError
  | MfaAlreadyEnabledError
  | InvalidMfaCodeError
  | MfaCodeReplayedError
  | InvalidPasswordResetTokenError
  | PasswordResetTokenExpiredError uuid
  | AccountNotMutableError uuid
  | SecretDecryptionError
  | Platform platform_error
  | Catalog catalog_error
  | Engagement engagement_error
  | IntegrityError
  | Uncaught py_exc

definition is_invalid_session :: "app_error \<Rightarrow> bool" where
  "is_invalid_session e = (case e of InvalidSessionError \<Rightarrow> True
     | SessionRevokedError s \<Rightarrow> True | SessionExpiredError s \<Rightarrow> True | _ \<Rightarrow> False)"

definition is_session_terminated :: "app_error \<Rightarrow> bool" where
  "is_session_terminated e = (case e of RefreshTokenReuseError s \<Rightarrow> True
     | SessionOwnerRevokedError s \<Rightarrow> True | _ \<Rightarrow> False)"

definition is_invalid_mfa_code :: "app_error \<Rightarrow> bool" where
  "is_invalid_mfa_code e = (case e of InvalidMfaCodeError \<Rightarrow> True | MfaCodeReplayedError \<Rightarrow> True | _ \<Rightarrow> False)"

section \<open>User\<close>

record user =
  u_id :: uuid
  u_email :: string
  u_password_hash :: string
  u_role :: user_role
  u_email_verified_at :: "timestamp option"
  u_is_active :: bool
  u_anonymized_at :: "timestamp option"
  u_deleted_at :: "timestamp option"
  u_created_at :: timestamp
  u_updated_at :: timestamp
  u_auth_epoch :: int

definition is_verified :: "user \<Rightarrow> bool" where
  "is_verified u = (u_email_verified_at u \<noteq> None)"

definition can_authenticate :: "user \<Rightarrow> bool" where
  "can_authenticate u = (u_is_active u \<and> u_anonymized_at u = None \<and> u_deleted_at u = None)"

definition mark_verified :: "timestamp \<Rightarrow> user \<Rightarrow> app_error + user" where
  "mark_verified at u = (if is_verified u then Inl (AlreadyVerifiedError (u_id u))
     else Inr (u\<lparr>u_email_verified_at := Some at, u_updated_at := at\<rparr>))"

definition change_password :: "string \<Rightarrow> timestamp \<Rightarrow> user \<Rightarrow> user" where
  "change_password new_password_hash at u = u\<lparr>u_password_hash := new_password_hash, u_updated_at := at\<rparr>"

definition invalidate_credentials :: "timestamp \<Rightarrow> user \<Rightarrow> user" where
  "invalidate_credentials at u = u\<lparr>u_auth_epoch := u_auth_epoch u + 1, u_updated_at := at\<rparr>"

definition set_active :: "bool \<Rightarrow> timestamp \<Rightarrow> user \<Rightarrow> bool \<times> user" where
  "set_active is_active at u = (if is_active = u_is_active u then (False, u)
     else (True, u\<lparr>u_is_active := is_active, u_updated_at := at\<rparr>))"

section \<open>Verification and reset tokens\<close>

record verification_token =
  vt_id :: uuid
  vt_user_id :: uuid
  vt_token_hash :: string
  vt_expires_at :: timestamp
  vt_used_at :: "timestamp option"
  vt_created_at :: timestamp

definition vt_is_used :: "verification_token \<Rightarrow> bool" where
  "vt_is_used t = (vt_used_at t \<noteq> None)"

definition vt_mark_used :: "timestamp \<Rightarrow> verification_token \<Rightarrow> app_error + verification_token" where
  "vt_mark_used at t =
     (if vt_is_used t then Inl InvalidVerificationTokenError
      else if at \<ge> vt_expires_at t then Inl (VerificationTokenExpiredError (vt_id t))
      else Inr (t\<lparr>vt_used_at := Some at\<rparr>))"

record reset_token =
  rt_id :: uuid
  rt_user_id :: uuid
  rt_token_hash :: string
  rt_expires_at :: timestamp
  rt_used_at :: "timestamp option"
  rt_created_at :: timestamp

definition rt_is_used :: "reset_token \<Rightarrow> bool" where
  "rt_is_used t = (rt_used_at t \<noteq> None)"

definition rt_mark_used :: "timestamp \<Rightarrow> reset_token \<Rightarrow> app_error + reset_token" where
  "rt_mark_used at t =
     (if rt_is_used t then Inl InvalidPasswordResetTokenError
      else if at \<ge> rt_expires_at t then Inl (PasswordResetTokenExpiredError (rt_id t))
      else Inr (t\<lparr>rt_used_at := Some at\<rparr>))"

section \<open>Login sessions\<close>

record session =
  s_id :: uuid
  s_user_id :: uuid
  s_refresh_token_hash :: string
  s_token_version :: int
  s_expires_at :: timestamp
  s_last_used_at :: "timestamp option"
  s_rotated_at :: "timestamp option"
  s_revoked_at :: "timestamp option"
  s_reuse_detected_at :: "timestamp option"
  s_ip_hash :: "string option"
  s_user_agent :: "string option"
  s_created_at :: timestamp

definition is_revoked :: "session \<Rightarrow> bool" where
  "is_revoked s = (s_revoked_at s \<noteq> None)"

definition is_expired :: "timestamp \<Rightarrow> session \<Rightarrow> bool" where
  "is_expired at s = (at \<ge> s_expires_at s)"

definition is_live :: "timestamp \<Rightarrow> session \<Rightarrow> bool" where
  "is_live at s = (\<not> is_revoked s \<and> \<not> is_expired at s)"

definition authorize_rotation :: "string \<Rightarrow> int \<Rightarrow> timestamp \<Rightarrow> session \<Rightarrow> app_error option" where
  "authorize_rotation presented_token_hash presented_version at s =
     (if is_revoked s then Some (SessionRevokedError (s_id s))
      else if is_expired at s then Some (SessionExpiredError (s_id s))
      else if presented_version < s_token_version s then Some (RefreshTokenReuseError (s_id s))
      else if presented_version \<noteq> s_token_version s then Some InvalidSessionError
      else if presented_token_hash \<noteq> s_refresh_token_hash s then Some InvalidSessionError
      else None)"

definition rotate_session :: "string \<Rightarrow> timestamp \<Rightarrow> session \<Rightarrow> session" where
  "rotate_session new_token_hash at s = s\<lparr>s_refresh_token_hash := new_token_hash,
     s_token_version := s_token_version s + 1, s_rotated_at := Some at, s_last_used_at := Some at\<rparr>"

definition revoke :: "timestamp \<Rightarrow> session \<Rightarrow> session" where
  "revoke at s = (if is_revoked s then s else s\<lparr>s_revoked_at := Some at\<rparr>)"

definition mark_reuse_detected :: "timestamp \<Rightarrow> session \<Rightarrow> session" where
  "mark_reuse_detected at s = revoke at (s\<lparr>s_reuse_detected_at := Some at\<rparr>)"

section \<open>Second factors\<close>

type_synonym bytes = "int list"

record mfa_credential =
  mc_id :: uuid
  mc_user_id :: uuid
  mc_method :: mfa_method
  mc_secret_ciphertext :: bytes
  mc_enabled_at :: "timestamp option"
  mc_last_used_at :: "timestamp option"
  mc_last_totp_step :: "int option"
  mc_created_at :: timestamp
  mc_updated_at :: timestamp

definition is_enabled :: "mfa_credential \<Rightarrow> bool" where
  "is_enabled c = (mc_enabled_at c \<noteq> None)"

definition enable :: "timestamp \<Rightarrow> mfa_credential \<Rightarrow> mfa_credential" where
  "enable at c = (let c1 = (if \<not> is_enabled c then c\<lparr>mc_enabled_at := Some at\<rparr> else c)
     in c1\<lparr>mc_updated_at := at\<rparr>)"

definition mc_mark_used :: "timestamp \<Rightarrow> mfa_credential \<Rightarrow> mfa_credential" where
  "mc_mark_used at c = c\<lparr>mc_last_used_at := Some at, mc_updated_at := at\<rparr>"

definition is_totp_step_replayed :: "int \<Rightarrow> mfa_credential \<Rightarrow> bool" where
  "is_totp_step_replayed step c = (case mc_last_totp_step c of None \<Rightarrow> False | Some l \<Rightarrow> step \<le> l)"

definition record_totp_step :: "int \<Rightarrow> timestamp \<Rightarrow> mfa_credential \<Rightarrow> mfa_credential" where
  "record_totp_step step at c = mc_mark_used at (c\<lparr>mc_last_totp_step :=
     Some (case mc_last_totp_step c of None \<Rightarrow> step | Some l \<Rightarrow> max l step)\<rparr>)"

record recovery_code =
  rc_id :: uuid
  rc_mfa_credential_id :: uuid
  rc_code_hash :: string
  rc_used_at :: "timestamp option"
  rc_created_at :: timestamp

definition rc_is_used :: "recovery_code \<Rightarrow> bool" where
  "rc_is_used c = (rc_used_at c \<noteq> None)"

definition redeem :: "timestamp \<Rightarrow> recovery_code \<Rightarrow> app_error + recovery_code" where
  "redeem at c = (if rc_is_used c then Inl InvalidRecoveryCodeError else Inr (c\<lparr>rc_used_at := Some at\<rparr>))"

lemmas user_methods = is_verified_def can_authenticate_def mark_verified_def change_password_def
  invalidate_credentials_def set_active_def

lemmas session_methods = is_revoked_def is_expired_def is_live_def authorize_rotation_def
  rotate_session_def revoke_def mark_reuse_detected_def

lemmas credential_methods = is_enabled_def enable_def mc_mark_used_def is_totp_step_replayed_def
  record_totp_step_def

lemma methods_keep_id [simp]:
  "u_id (change_password h at u) = u_id u" "u_id (invalidate_credentials at u) = u_id u"
  "s_id (rotate_session h at s) = s_id s" "s_id (revoke at s) = s_id s"
  "s_id (mark_reuse_detected at s) = s_id s"
  "mc_id (enable at c) = mc_id c" "mc_id (mc_mark_used at c) = mc_id c"
  "mc_id (record_totp_step k at c) = mc_id c"
  by (simp_all add: user_methods session_methods credential_methods Let_def)

section \<open>Single use\<close>

text \<open>
  What the three one-time credentials share: redeeming spends, and a spent one is refused.
  A list of attempts at one credential records which of them were accepted.
\<close>

fun attempts :: "(timestamp \<Rightarrow> 't \<Rightarrow> 'e + 't) \<Rightarrow> 't \<Rightarrow> timestamp list \<Rightarrow> bool list" where
  "attempts use t [] = []"
| "attempts use t (at # ats) = (case use at t of
       Inl e \<Rightarrow> False # attempts use t ats
     | Inr t' \<Rightarrow> True # attempts use t' ats)"

locale single_use =
  fixes spent :: "'t \<Rightarrow> bool" and use :: "timestamp \<Rightarrow> 't \<Rightarrow> app_error + 't"
  assumes use_spends: "use at t = Inr t' \<Longrightarrow> spent t'"
    and spent_refused: "spent t \<Longrightarrow> \<exists>e. use at t = Inl e"
begin

lemma attempts_spent: "spent t \<Longrightarrow> attempts use t ats = replicate (length ats) False"
proof (induction ats)
  case (Cons at ats)
  from spent_refused [OF Cons.prems, of at] Cons show ?case by auto
qed simp

lemma at_most_once: "length (filter id (attempts use t ats)) \<le> 1"
proof (induction ats arbitrary: t)
  case (Cons at ats)
  show ?case
  proof (cases "use at t")
    case (Inl e)
    with Cons show ?thesis by simp
  next
    case (Inr t')
    from attempts_spent [OF use_spends [OF Inr]] Inr show ?thesis by simp
  qed
qed simp

end

interpretation vt: single_use vt_is_used vt_mark_used
  by unfold_locales (auto simp: vt_is_used_def vt_mark_used_def split: if_splits)

interpretation rt: single_use rt_is_used rt_mark_used
  by unfold_locales (auto simp: rt_is_used_def rt_mark_used_def split: if_splits)

interpretation rc: single_use rc_is_used redeem
  by unfold_locales (auto simp: rc_is_used_def redeem_def split: if_splits)

text \<open>A reset token is accepted at most once, however often and whenever it is presented,
  and once spent it answers "invalid" at every time, before and after its expiry.\<close>

theorem reset_token_single_use:
  "length (filter id (attempts rt_mark_used t ats)) \<le> 1
     \<and> (\<forall>at t'. rt_mark_used at t = Inr t' \<longrightarrow> (\<forall>later. rt_mark_used later t' = Inl InvalidPasswordResetTokenError))"
  using rt.at_most_once by (auto simp: rt_mark_used_def rt_is_used_def split: if_splits)

theorem reset_token_single_use_witness:
  "let t = \<lparr>rt_id = 1, rt_user_id = 2, rt_token_hash = ''h'', rt_expires_at = 10, rt_used_at = None, rt_created_at = 0\<rparr>
   in attempts rt_mark_used t [3, 4, 20] = [True, False, False] \<and> length (filter id (attempts rt_mark_used t [3, 4, 20])) \<le> 1"
  unfolding Let_def by (rule conjI, simp add: rt_mark_used_def rt_is_used_def)
    (use reset_token_single_use in blast)

section \<open>The life of a session\<close>

text \<open>
  The decision of \<open>authorize_rotation\<close> as a table: what a presented token must satisfy to be
  accepted, and when it is reported as reuse.
\<close>

lemma authorize_rotation_accepts_iff:
  "authorize_rotation h v at s = None
     \<longleftrightarrow> is_live at s \<and> v = s_token_version s \<and> h = s_refresh_token_hash s"
  by (auto simp: authorize_rotation_def is_live_def)

lemma authorize_rotation_reuse_iff:
  "authorize_rotation h v at s = Some (RefreshTokenReuseError i)
     \<longleftrightarrow> is_live at s \<and> v < s_token_version s \<and> i = s_id s"
  by (auto simp: authorize_rotation_def is_live_def)

text \<open>The moves the program makes on a stored session.\<close>

inductive session_step :: "session \<Rightarrow> session \<Rightarrow> bool" where
  rotated: "authorize_rotation h v at s = None \<Longrightarrow> session_step s (rotate_session h' at s)"
| revoked: "session_step s (revoke at s)"
| reused: "authorize_rotation h v at s = Some (RefreshTokenReuseError i)
    \<Longrightarrow> session_step s (mark_reuse_detected at s)"

inductive_cases session_stepE: "session_step s s'"

definition session_le :: "session \<Rightarrow> session \<Rightarrow> bool" where
  "session_le s s' = (s_id s' = s_id s \<and> s_user_id s' = s_user_id s \<and> s_expires_at s' = s_expires_at s
     \<and> s_token_version s \<le> s_token_version s'
     \<and> (is_revoked s \<longrightarrow> s_revoked_at s' = s_revoked_at s \<and> s_token_version s' = s_token_version s))"

lemma session_le_refl [simp]: "session_le s s"
  by (simp add: session_le_def)

lemma session_le_trans: "session_le a b \<Longrightarrow> session_le b c \<Longrightarrow> session_le a c"
  by (auto simp: session_le_def is_revoked_def)

lemma session_step_le: "session_step s s' \<Longrightarrow> session_le s s'"
  by (erule session_stepE) (auto simp: session_le_def session_methods split: if_splits)

text \<open>Whatever sequence of rotations, revocations and reuse detections a session goes
  through, its deadline and owner never change, its token version never decreases, and once
  revoked it is never live again and keeps its revocation time.\<close>

theorem session_lifecycle:
  assumes "session_step\<^sup>*\<^sup>* s s'"
  shows "session_le s s' \<and> (is_revoked s \<longrightarrow> \<not> is_live now s')"
proof -
  have le: "session_le s s'"
    using assms by induction (auto intro: session_le_trans session_step_le)
  moreover have "\<not> is_live now s'" if "is_revoked s"
    using le that by (simp add: session_le_def is_live_def is_revoked_def)
  ultimately show ?thesis by blast
qed

text \<open>After a rotation every token of the rotated version or an older one is answered with
  reuse detection for as long as the session is live, whatever hash it carries, and that
  response ends the session.\<close>

theorem rotated_token_is_reuse:
  assumes "authorize_rotation h v at s = None" and "v' \<le> v" and "is_live later (rotate_session h' now s)"
  shows "authorize_rotation h'' v' later (rotate_session h' now s) = Some (RefreshTokenReuseError (s_id s))
    \<and> \<not> is_live t (mark_reuse_detected later (rotate_session h' now s))"
proof -
  have v: "v = s_token_version s" using assms(1) by (simp add: authorize_rotation_accepts_iff)
  have "authorize_rotation h'' v' later (rotate_session h' now s) = Some (RefreshTokenReuseError (s_id s))"
    unfolding authorize_rotation_reuse_iff using assms(2,3) v by (simp add: rotate_session_def)
  then show ?thesis by (simp add: session_methods)
qed

section \<open>The TOTP high-water mark\<close>

lemma record_totp_step_spends:
  "is_totp_step_replayed j (record_totp_step k at c) \<longleftrightarrow> is_totp_step_replayed j c \<or> j \<le> k"
  by (auto simp: credential_methods split: option.splits)

lemma replayed_fold:
  "is_totp_step_replayed j c
     \<Longrightarrow> is_totp_step_replayed j (fold (\<lambda>(k, at). record_totp_step k at) uses c)"
  by (induction uses arbitrary: c) (auto simp: record_totp_step_spends)

text \<open>A TOTP step that was recorded stays refused after any further recordings, in whatever
  order the steps arrive: the mark never moves backwards.\<close>

theorem totp_step_stays_spent:
  assumes "j \<le> k"
  shows "is_totp_step_replayed j
    (fold (\<lambda>(k, at). record_totp_step k at) later (record_totp_step k at c))"
  using assms by (intro replayed_fold) (simp add: record_totp_step_spends)

end
