(* ===== verification/Database.thy ===== *)
theory Database
  imports Identity_Entities
begin

text \<open>
  The PostgreSQL state of one transaction and the statements the repositories issue on it:
  identity/infrastructure/repositories.py and models.py, and the outbox and audit repositories
  of platform/infrastructure/repositories.py.  A table is the list of its rows; a row is the
  entity its \<open>_to_domain\<close> function copies it to.  \<open>tx_now\<close> is the transaction's
  \<open>now()\<close>, and \<open>gen_uuid\<close> with its counter stands for the values
  \<open>gen_random_uuid()\<close> will return.  Uniqueness, foreign keys and the cascades of the schema
  are part of the statements: a violation is \<open>IntegrityError\<close>.  Row locks have no effect
  inside one transaction; a command whose reads are locked is one atomic step of the system in
  the theory of the whole service.
\<close>

record database =
  tx_now :: timestamp
  gen_uuid :: "nat \<Rightarrow> uuid"
  gen_ctr :: nat
  users :: "user list"
  sessions :: "session list"
  verification_tokens :: "verification_token list"
  reset_tokens :: "reset_token list"
  mfa_credentials :: "mfa_credential list"
  recovery_codes :: "recovery_code list"
  email_outbox :: "outbox_message list"
  audit_logs :: "audit_entry list"
  setting_rows :: "setting list"
  categories :: "category list"
  materials :: "reference_value list"
  colours :: "reference_value list"
  notifications :: "notification list"

text \<open>The order of text in PostgreSQL is its collation, a parameter of the lists: it maps a text to
  its sort key.\<close>

type_synonym collation = "string \<Rightarrow> nat list"

definition next_uuid :: "database \<Rightarrow> uuid" where
  "next_uuid db = gen_uuid db (gen_ctr db)"

abbreviation drawn :: "database \<Rightarrow> database" where
  "drawn db \<equiv> db\<lparr>gen_ctr := Suc (gen_ctr db)\<rparr>"

text \<open>\<open>ORDER BY created_at DESC LIMIT 1\<close>.\<close>

fun latest_by :: "('r \<Rightarrow> timestamp) \<Rightarrow> 'r list \<Rightarrow> 'r option" where
  "latest_by ts [] = None"
| "latest_by ts (r # rs) = (case latest_by ts rs of None \<Rightarrow> Some r
     | Some r' \<Rightarrow> if ts r < ts r' then Some r' else Some r)"

lemma latest_by_None_iff [simp]: "latest_by ts rs = None \<longleftrightarrow> rs = []"
  by (cases rs) (auto split: option.splits)

lemma latest_by_SomeD:
  "latest_by ts rs = Some r \<Longrightarrow> r \<in> set rs \<and> (\<forall>x \<in> set rs. ts x \<le> ts r)"
proof (induction rs arbitrary: r)
  case (Cons a rs)
  show ?case
  proof (cases "latest_by ts rs")
    case None
    with Cons.prems have "rs = []" "r = a" by auto
    then show ?thesis by simp
  next
    case (Some r')
    from Cons.IH [OF Some] Cons.prems Some show ?thesis
      by (fastforce split: if_splits)
  qed
qed simp

section \<open>The repository contract\<close>

text \<open>
  Every repository reads a row by key and writes an entity back with \<open>save\<close>, which raises
  for a missing row and otherwise changes that row only.  \<open>stored db e row\<close> is what the row
  becomes: the columns \<open>save\<close> assigns come from the entity, the rest from the row;
  \<open>ok\<close> says that the written columns violate no uniqueness of the schema.
\<close>

locale row_store =
  fixes get :: "'k \<Rightarrow> 'db \<Rightarrow> 'r option"
    and save :: "'r \<Rightarrow> 'db \<Rightarrow> app_error + 'db"
    and key :: "'r \<Rightarrow> 'k"
    and stored :: "'db \<Rightarrow> 'r \<Rightarrow> 'r \<Rightarrow> 'r"
    and ok :: "'r \<Rightarrow> 'db \<Rightarrow> bool"
  assumes save_missing: "get (key e) db = None \<Longrightarrow> save e db = Inl (Uncaught ValueError)"
    and save_present: "get (key e) db = Some row \<Longrightarrow> ok e db \<Longrightarrow> \<exists>db'. save e db = Inr db'"
    and get_saved: "save e db = Inr db' \<Longrightarrow> get (key e) db = Some row
      \<Longrightarrow> get (key e) db' = Some (stored db e row)"
    and get_other: "save e db = Inr db' \<Longrightarrow> k \<noteq> key e \<Longrightarrow> get k db' = get k db"
begin

lemma save_succeeds_iff:
  assumes "ok e db"
  shows "(\<exists>db'. save e db = Inr db') \<longleftrightarrow> get (key e) db \<noteq> None"
proof (cases "get (key e) db")
  case None
  from save_missing [OF None] None show ?thesis by simp
next
  case (Some row)
  from save_present [OF Some assms] Some show ?thesis by simp
qed

lemma get_after_save:
  assumes "save e db = Inr db'"
  shows "get k db' = (if k = key e then map_option (stored db e) (get k db) else get k db)"
proof (cases "get (key e) db")
  case None
  from save_missing [OF None] assms show ?thesis by simp
next
  case (Some row)
  from get_saved [OF assms Some] get_other [OF assms, of k] Some show ?thesis by simp
qed

lemma read_modify_write:
  assumes "get k db = Some row" and "key e = k" and "ok e db"
  obtains db' where "save e db = Inr db'" and "get k db' = Some (stored db e row)"
  using assms save_present get_saved by blast

lemma save_keeps_present: "save e db = Inr db' \<Longrightarrow> (get k db' = None) = (get k db = None)"
  by (auto simp: get_after_save)

end

section \<open>Users\<close>

definition user_by_id :: "uuid \<Rightarrow> database \<Rightarrow> user option" where
  "user_by_id i db = row_by u_id i (users db)"

text \<open>\<open>CITEXT\<close> equality ignores case; deleted rows are not found by address.\<close>

definition user_by_email :: "string \<Rightarrow> database \<Rightarrow> user option" where
  "user_by_email email db =
     find (\<lambda>u. py_lower (u_email u) = py_lower email \<and> u_deleted_at u = None) (users db)"

definition get_auth_epoch :: "uuid \<Rightarrow> database \<Rightarrow> int option" where
  "get_auth_epoch i db = map_option u_auth_epoch (row_by u_id i (users db))"

definition user_add :: "string \<Rightarrow> string \<Rightarrow> database \<Rightarrow> app_error + user \<times> database" where
  "user_add email password_hash db =
     (if user_by_id (next_uuid db) db \<noteq> None \<or> user_by_email email db \<noteq> None then Inl IntegrityError
      else let u = \<lparr>u_id = next_uuid db, u_email = email, u_password_hash = password_hash,
             u_role = CUSTOMER, u_email_verified_at = None, u_is_active = True,
             u_anonymized_at = None, u_deleted_at = None, u_created_at = tx_now db,
             u_updated_at = tx_now db, u_auth_epoch = 0\<rparr>
           in Inr (u, (drawn db)\<lparr>users := users db @ [u]\<rparr>))"

text \<open>\<open>updated_at\<close> is an \<open>onupdate\<close> column: the flush sets it when it writes anything.\<close>

definition user_stored :: "database \<Rightarrow> user \<Rightarrow> user \<Rightarrow> user" where
  "user_stored db u row = (let row' = row\<lparr>u_password_hash := u_password_hash u,
       u_email_verified_at := u_email_verified_at u, u_is_active := u_is_active u,
       u_anonymized_at := u_anonymized_at u, u_deleted_at := u_deleted_at u,
       u_auth_epoch := u_auth_epoch u\<rparr>
     in if row' = row then row else row'\<lparr>u_updated_at := tx_now db\<rparr>)"

definition user_save :: "user \<Rightarrow> database \<Rightarrow> app_error + database" where
  "user_save u db = (case user_by_id (u_id u) db of
       None \<Rightarrow> Inl (Uncaught ValueError)
     | Some row \<Rightarrow> Inr (db\<lparr>users := put_row u_id (u_id u) (user_stored db u) (users db)\<rparr>))"

lemma user_stored_fields [simp]:
  "u_id (user_stored db u row) = u_id row" "u_email (user_stored db u row) = u_email row"
  "u_role (user_stored db u row) = u_role row"
  "u_created_at (user_stored db u row) = u_created_at row"
  "u_password_hash (user_stored db u row) = u_password_hash u"
  "u_email_verified_at (user_stored db u row) = u_email_verified_at u"
  "u_is_active (user_stored db u row) = u_is_active u"
  "u_anonymized_at (user_stored db u row) = u_anonymized_at u"
  "u_deleted_at (user_stored db u row) = u_deleted_at u"
  "u_auth_epoch (user_stored db u row) = u_auth_epoch u"
  unfolding user_stored_def Let_def by (subst touched_field; simp)+

interpretation us: row_store user_by_id user_save u_id user_stored "\<lambda>_ _. True"
  by unfold_locales
    (auto simp: user_by_id_def user_save_def row_simps split: option.splits)

text \<open>\<open>DELETE ... WHERE email_verified_at IS NULL AND created_at < cutoff\<close> with the
  schema's cascades: sessions, tokens, credentials and notifications go with the user; the outbox,
  the audit log and the settings keep their rows and lose the reference.\<close>

definition purgeable :: "timestamp \<Rightarrow> user \<Rightarrow> bool" where
  "purgeable cutoff u = (u_email_verified_at u = None \<and> u_created_at u < cutoff)"

definition purge_never_verified_before :: "timestamp \<Rightarrow> database \<Rightarrow> nat \<times> database" where
  "purge_never_verified_before cutoff db =
     (let gone = map u_id (filter (purgeable cutoff) (users db));
          dead = (\<lambda>i. i \<in> set gone);
          dead_mc = (\<lambda>i. \<exists>c \<in> set (mfa_credentials db). mc_id c = i \<and> dead (mc_user_id c));
          null = (\<lambda>ref. case ref of None \<Rightarrow> None | Some i \<Rightarrow> if dead i then None else Some i)
      in (length gone, db\<lparr>users := filter (\<lambda>u. \<not> purgeable cutoff u) (users db),
           sessions := filter (\<lambda>s. \<not> dead (s_user_id s)) (sessions db),
           verification_tokens := filter (\<lambda>t. \<not> dead (vt_user_id t)) (verification_tokens db),
           reset_tokens := filter (\<lambda>t. \<not> dead (rt_user_id t)) (reset_tokens db),
           mfa_credentials := filter (\<lambda>c. \<not> dead (mc_user_id c)) (mfa_credentials db),
           recovery_codes := filter (\<lambda>c. \<not> dead_mc (rc_mfa_credential_id c)) (recovery_codes db),
           email_outbox := map (\<lambda>m. m\<lparr>ob_user_id := null (ob_user_id m)\<rparr>) (email_outbox db),
           audit_logs := map (\<lambda>a. a\<lparr>al_actor_user_id := null (al_actor_user_id a)\<rparr>) (audit_logs db),
           setting_rows := map (\<lambda>s. s\<lparr>st_updated_by := null (st_updated_by s)\<rparr>) (setting_rows db),
           notifications := filter (\<lambda>n. \<not> dead (nt_user_id n)) (notifications db)\<rparr>))"

section \<open>Sessions\<close>

definition session_by_id :: "uuid \<Rightarrow> database \<Rightarrow> session option" where
  "session_by_id i db = row_by s_id i (sessions db)"

definition session_owner_id :: "uuid \<Rightarrow> database \<Rightarrow> uuid option" where
  "session_owner_id i db = map_option s_user_id (row_by s_id i (sessions db))"

definition session_add ::
  "uuid \<Rightarrow> uuid \<Rightarrow> string \<Rightarrow> timestamp \<Rightarrow> string option \<Rightarrow> string option \<Rightarrow> database
     \<Rightarrow> app_error + database" where
  "session_add session_id user_id refresh_token_hash expires_at ip_hash user_agent db =
     (if session_by_id session_id db \<noteq> None \<or> user_by_id user_id db = None
         \<or> (\<exists>s \<in> set (sessions db). s_refresh_token_hash s = refresh_token_hash)
      then Inl IntegrityError
      else Inr (db\<lparr>sessions := sessions db @ [\<lparr>s_id = session_id, s_user_id = user_id,
             s_refresh_token_hash = refresh_token_hash, s_token_version = 1,
             s_expires_at = expires_at, s_last_used_at = None, s_rotated_at = None,
             s_revoked_at = None, s_reuse_detected_at = None, s_ip_hash = ip_hash,
             s_user_agent = user_agent, s_created_at = tx_now db\<rparr>]\<rparr>))"

text \<open>\<open>expires_at\<close> is not among the columns \<open>save\<close> writes.\<close>

definition session_stored :: "database \<Rightarrow> session \<Rightarrow> session \<Rightarrow> session" where
  "session_stored db s row = row\<lparr>s_refresh_token_hash := s_refresh_token_hash s,
     s_token_version := s_token_version s, s_last_used_at := s_last_used_at s,
     s_rotated_at := s_rotated_at s, s_revoked_at := s_revoked_at s,
     s_reuse_detected_at := s_reuse_detected_at s\<rparr>"

definition session_hash_free :: "session \<Rightarrow> database \<Rightarrow> bool" where
  "session_hash_free s db = (\<forall>x \<in> set (sessions db).
     s_id x \<noteq> s_id s \<longrightarrow> s_refresh_token_hash x \<noteq> s_refresh_token_hash s)"

definition session_save :: "session \<Rightarrow> database \<Rightarrow> app_error + database" where
  "session_save s db = (case session_by_id (s_id s) db of
       None \<Rightarrow> Inl (Uncaught ValueError)
     | Some row \<Rightarrow> if \<not> session_hash_free s db then Inl IntegrityError
         else Inr (db\<lparr>sessions := put_row s_id (s_id s) (session_stored db s) (sessions db)\<rparr>))"

lemma s_id_stored [simp]: "s_id (session_stored db s row) = s_id row"
  by (simp add: session_stored_def)

interpretation ss: row_store session_by_id session_save s_id session_stored session_hash_free
  by unfold_locales
    (auto simp: session_by_id_def session_save_def row_simps split: option.splits if_splits)

definition live_of :: "uuid \<Rightarrow> session \<Rightarrow> bool" where
  "live_of user_id s = (s_user_id s = user_id \<and> s_revoked_at s = None)"

definition revoke_all_for_user :: "uuid \<Rightarrow> timestamp \<Rightarrow> database \<Rightarrow> nat \<times> database" where
  "revoke_all_for_user user_id at db =
     (count_where (live_of user_id) (sessions db),
      db\<lparr>sessions := update_where (live_of user_id) (\<lambda>s. s\<lparr>s_revoked_at := Some at\<rparr>) (sessions db)\<rparr>)"

section \<open>One-time tokens\<close>

definition vt_by_hash :: "string \<Rightarrow> database \<Rightarrow> verification_token option" where
  "vt_by_hash h db = row_by vt_token_hash h (verification_tokens db)"

definition vt_latest :: "uuid \<Rightarrow> database \<Rightarrow> verification_token option" where
  "vt_latest user_id db = latest_by vt_created_at (filter (\<lambda>t. vt_user_id t = user_id) (verification_tokens db))"

definition vt_add :: "uuid \<Rightarrow> string \<Rightarrow> timestamp \<Rightarrow> database \<Rightarrow> app_error + database" where
  "vt_add user_id token_hash expires_at db =
     (if vt_by_hash token_hash db \<noteq> None \<or> user_by_id user_id db = None
         \<or> row_by vt_id (next_uuid db) (verification_tokens db) \<noteq> None
      then Inl IntegrityError
      else Inr ((drawn db)\<lparr>verification_tokens := verification_tokens db @ [\<lparr>vt_id = next_uuid db,
             vt_user_id = user_id, vt_token_hash = token_hash, vt_expires_at = expires_at,
             vt_used_at = None, vt_created_at = tx_now db\<rparr>]\<rparr>))"

definition vt_by_id :: "uuid \<Rightarrow> database \<Rightarrow> verification_token option" where
  "vt_by_id i db = row_by vt_id i (verification_tokens db)"

definition vt_stored :: "database \<Rightarrow> verification_token \<Rightarrow> verification_token \<Rightarrow> verification_token" where
  "vt_stored db t row = row\<lparr>vt_used_at := vt_used_at t\<rparr>"

definition vt_save :: "verification_token \<Rightarrow> database \<Rightarrow> app_error + database" where
  "vt_save t db = (case vt_by_id (vt_id t) db of
       None \<Rightarrow> Inl (Uncaught ValueError)
     | Some row \<Rightarrow> Inr (db\<lparr>verification_tokens :=
         put_row vt_id (vt_id t) (vt_stored db t) (verification_tokens db)\<rparr>))"

interpretation vts: row_store vt_by_id vt_save vt_id vt_stored "\<lambda>_ _. True"
  by unfold_locales
    (auto simp: vt_by_id_def vt_save_def vt_stored_def row_simps split: option.splits)

definition rt_by_hash :: "string \<Rightarrow> database \<Rightarrow> reset_token option" where
  "rt_by_hash h db = row_by rt_token_hash h (reset_tokens db)"

definition rt_latest :: "uuid \<Rightarrow> database \<Rightarrow> reset_token option" where
  "rt_latest user_id db = latest_by rt_created_at (filter (\<lambda>t. rt_user_id t = user_id) (reset_tokens db))"

definition rt_add :: "uuid \<Rightarrow> string \<Rightarrow> timestamp \<Rightarrow> database \<Rightarrow> app_error + database" where
  "rt_add user_id token_hash expires_at db =
     (if rt_by_hash token_hash db \<noteq> None \<or> user_by_id user_id db = None
         \<or> row_by rt_id (next_uuid db) (reset_tokens db) \<noteq> None
      then Inl IntegrityError
      else Inr ((drawn db)\<lparr>reset_tokens := reset_tokens db @ [\<lparr>rt_id = next_uuid db,
             rt_user_id = user_id, rt_token_hash = token_hash, rt_expires_at = expires_at,
             rt_used_at = None, rt_created_at = tx_now db\<rparr>]\<rparr>))"

definition rt_by_id :: "uuid \<Rightarrow> database \<Rightarrow> reset_token option" where
  "rt_by_id i db = row_by rt_id i (reset_tokens db)"

definition rt_stored :: "database \<Rightarrow> reset_token \<Rightarrow> reset_token \<Rightarrow> reset_token" where
  "rt_stored db t row = row\<lparr>rt_used_at := rt_used_at t\<rparr>"

definition rt_save :: "reset_token \<Rightarrow> database \<Rightarrow> app_error + database" where
  "rt_save t db = (case rt_by_id (rt_id t) db of
       None \<Rightarrow> Inl (Uncaught ValueError)
     | Some row \<Rightarrow> Inr (db\<lparr>reset_tokens := put_row rt_id (rt_id t) (rt_stored db t) (reset_tokens db)\<rparr>))"

interpretation rts: row_store rt_by_id rt_save rt_id rt_stored "\<lambda>_ _. True"
  by unfold_locales
    (auto simp: rt_by_id_def rt_save_def rt_stored_def row_simps split: option.splits)

definition outstanding_of :: "uuid \<Rightarrow> reset_token \<Rightarrow> bool" where
  "outstanding_of user_id t = (rt_user_id t = user_id \<and> rt_used_at t = None)"

definition consume_outstanding_for_user :: "uuid \<Rightarrow> timestamp \<Rightarrow> database \<Rightarrow> nat \<times> database" where
  "consume_outstanding_for_user user_id at db =
     (count_where (outstanding_of user_id) (reset_tokens db),
      db\<lparr>reset_tokens := update_where (outstanding_of user_id) (\<lambda>t. t\<lparr>rt_used_at := Some at\<rparr>) (reset_tokens db)\<rparr>)"

section \<open>Second factors\<close>

definition mc_by_user_id :: "uuid \<Rightarrow> database \<Rightarrow> mfa_credential option" where
  "mc_by_user_id user_id db = row_by mc_user_id user_id (mfa_credentials db)"

definition mc_by_id :: "uuid \<Rightarrow> database \<Rightarrow> mfa_credential option" where
  "mc_by_id i db = row_by mc_id i (mfa_credentials db)"

definition mc_add :: "uuid \<Rightarrow> mfa_method \<Rightarrow> bytes \<Rightarrow> database \<Rightarrow> app_error + database" where
  "mc_add user_id m secret_ciphertext db =
     (if mc_by_user_id user_id db \<noteq> None \<or> user_by_id user_id db = None \<or> mc_by_id (next_uuid db) db \<noteq> None
      then Inl IntegrityError
      else Inr ((drawn db)\<lparr>mfa_credentials := mfa_credentials db @ [\<lparr>mc_id = next_uuid db,
             mc_user_id = user_id, mc_method = m, mc_secret_ciphertext = secret_ciphertext,
             mc_enabled_at = None, mc_last_used_at = None, mc_last_totp_step = None,
             mc_created_at = tx_now db, mc_updated_at = tx_now db\<rparr>]\<rparr>))"

definition mc_stored :: "database \<Rightarrow> mfa_credential \<Rightarrow> mfa_credential \<Rightarrow> mfa_credential" where
  "mc_stored db c row = (let row' = row\<lparr>mc_secret_ciphertext := mc_secret_ciphertext c,
       mc_enabled_at := mc_enabled_at c, mc_last_used_at := mc_last_used_at c,
       mc_last_totp_step := mc_last_totp_step c\<rparr>
     in if row' = row then row else row'\<lparr>mc_updated_at := tx_now db\<rparr>)"

definition mc_save :: "mfa_credential \<Rightarrow> database \<Rightarrow> app_error + database" where
  "mc_save c db = (case mc_by_id (mc_id c) db of
       None \<Rightarrow> Inl (Uncaught ValueError)
     | Some row \<Rightarrow> Inr (db\<lparr>mfa_credentials := put_row mc_id (mc_id c) (mc_stored db c) (mfa_credentials db)\<rparr>))"

lemma mc_stored_fields [simp]:
  "mc_id (mc_stored db c row) = mc_id row" "mc_user_id (mc_stored db c row) = mc_user_id row"
  "mc_secret_ciphertext (mc_stored db c row) = mc_secret_ciphertext c"
  "mc_enabled_at (mc_stored db c row) = mc_enabled_at c"
  "mc_last_used_at (mc_stored db c row) = mc_last_used_at c"
  "mc_last_totp_step (mc_stored db c row) = mc_last_totp_step c"
  unfolding mc_stored_def Let_def by (subst touched_field; simp)+

interpretation mcs: row_store mc_by_id mc_save mc_id mc_stored "\<lambda>_ _. True"
  by unfold_locales
    (auto simp: mc_by_id_def mc_save_def row_simps split: option.splits)

definition unused_of :: "uuid \<Rightarrow> recovery_code \<Rightarrow> bool" where
  "unused_of mfa_credential_id c = (rc_mfa_credential_id c = mfa_credential_id \<and> rc_used_at c = None)"

definition rc_unused_by_hash :: "uuid \<Rightarrow> string \<Rightarrow> database \<Rightarrow> recovery_code option" where
  "rc_unused_by_hash mfa_credential_id code_hash db =
     find (\<lambda>c. unused_of mfa_credential_id c \<and> rc_code_hash c = code_hash) (recovery_codes db)"

definition rc_by_id :: "uuid \<Rightarrow> database \<Rightarrow> recovery_code option" where
  "rc_by_id i db = row_by rc_id i (recovery_codes db)"

text \<open>One row per hash; the first row that violates the schema aborts the flush.\<close>

fun rc_add_set :: "uuid \<Rightarrow> string list \<Rightarrow> database \<Rightarrow> app_error + database" where
  "rc_add_set mfa_credential_id [] db = Inr db"
| "rc_add_set mfa_credential_id (h # hs) db =
     (if (\<exists>c \<in> set (recovery_codes db). rc_code_hash c = h) \<or> mc_by_id mfa_credential_id db = None
         \<or> rc_by_id (next_uuid db) db \<noteq> None
      then Inl IntegrityError
      else rc_add_set mfa_credential_id hs ((drawn db)\<lparr>recovery_codes := recovery_codes db @
             [\<lparr>rc_id = next_uuid db, rc_mfa_credential_id = mfa_credential_id, rc_code_hash = h,
               rc_used_at = None, rc_created_at = tx_now db\<rparr>]\<rparr>))"

definition rc_count_unused :: "uuid \<Rightarrow> database \<Rightarrow> nat" where
  "rc_count_unused mfa_credential_id db = count_where (unused_of mfa_credential_id) (recovery_codes db)"

definition rc_delete_unused :: "uuid \<Rightarrow> database \<Rightarrow> nat \<times> database" where
  "rc_delete_unused mfa_credential_id db =
     (count_where (unused_of mfa_credential_id) (recovery_codes db),
      db\<lparr>recovery_codes := filter (\<lambda>c. \<not> unused_of mfa_credential_id c) (recovery_codes db)\<rparr>)"

definition rc_stored :: "database \<Rightarrow> recovery_code \<Rightarrow> recovery_code \<Rightarrow> recovery_code" where
  "rc_stored db c row = row\<lparr>rc_used_at := rc_used_at c\<rparr>"

definition rc_save :: "recovery_code \<Rightarrow> database \<Rightarrow> app_error + database" where
  "rc_save c db = (case rc_by_id (rc_id c) db of
       None \<Rightarrow> Inl (Uncaught ValueError)
     | Some row \<Rightarrow> Inr (db\<lparr>recovery_codes := put_row rc_id (rc_id c) (rc_stored db c) (recovery_codes db)\<rparr>))"

interpretation rcs: row_store rc_by_id rc_save rc_id rc_stored "\<lambda>_ _. True"
  by unfold_locales
    (auto simp: rc_by_id_def rc_save_def rc_stored_def row_simps split: option.splits)

section \<open>Outbox and audit log\<close>

definition ob_by_id :: "uuid \<Rightarrow> database \<Rightarrow> outbox_message option" where
  "ob_by_id i db = row_by ob_id i (email_outbox db)"

definition outbox_add ::
  "uuid option \<Rightarrow> string \<Rightarrow> string \<Rightarrow> (string \<times> pyval) list \<Rightarrow> database \<Rightarrow> app_error + database" where
  "outbox_add user_id recipient_email template payload db =
     (if (\<exists>i. user_id = Some i \<and> user_by_id i db = None) \<or> ob_by_id (next_uuid db) db \<noteq> None
      then Inl IntegrityError
      else Inr ((drawn db)\<lparr>email_outbox := email_outbox db @ [\<lparr>ob_id = next_uuid db,
             ob_user_id = user_id, ob_recipient_email = recipient_email, ob_template = template,
             ob_payload = payload, ob_status = PENDING, ob_send_after = tx_now db,
             ob_attempt_count = 0, ob_last_error = None, ob_sent_at = None,
             ob_created_at = tx_now db, ob_updated_at = tx_now db\<rparr>]\<rparr>))"

text \<open>\<open>FOR UPDATE SKIP LOCKED\<close>: \<open>locked\<close> says which rows another transaction holds.\<close>

definition due :: "timestamp \<Rightarrow> outbox_message \<Rightarrow> bool" where
  "due now m = (ob_status m = PENDING \<and> ob_send_after m \<le> now)"

definition claim_due :: "nat \<Rightarrow> timestamp \<Rightarrow> (uuid \<Rightarrow> bool) \<Rightarrow> database \<Rightarrow> outbox_message list" where
  "claim_due limit now locked db =
     take limit (sort_key ob_send_after (filter (\<lambda>m. due now m \<and> \<not> locked (ob_id m)) (email_outbox db)))"

definition ob_stored :: "database \<Rightarrow> outbox_message \<Rightarrow> outbox_message \<Rightarrow> outbox_message" where
  "ob_stored db m row = (let row' = row\<lparr>ob_status := ob_status m, ob_payload := ob_payload m,
       ob_send_after := ob_send_after m, ob_attempt_count := ob_attempt_count m,
       ob_last_error := ob_last_error m, ob_sent_at := ob_sent_at m\<rparr>
     in if row' = row then row else row'\<lparr>ob_updated_at := tx_now db\<rparr>)"

definition outbox_save :: "outbox_message \<Rightarrow> database \<Rightarrow> app_error + database" where
  "outbox_save m db = (case ob_by_id (ob_id m) db of
       None \<Rightarrow> Inl (Uncaught ValueError)
     | Some row \<Rightarrow> if ob_attempt_count m < 0 then Inl IntegrityError
         else Inr (db\<lparr>email_outbox := put_row ob_id (ob_id m) (ob_stored db m) (email_outbox db)\<rparr>))"

lemma ob_stored_fields [simp]:
  "ob_id (ob_stored db m row) = ob_id row" "ob_recipient_email (ob_stored db m row) = ob_recipient_email row"
  "ob_template (ob_stored db m row) = ob_template row"
  "ob_status (ob_stored db m row) = ob_status m" "ob_payload (ob_stored db m row) = ob_payload m"
  "ob_send_after (ob_stored db m row) = ob_send_after m"
  "ob_attempt_count (ob_stored db m row) = ob_attempt_count m"
  "ob_sent_at (ob_stored db m row) = ob_sent_at m"
  unfolding ob_stored_def Let_def by (subst touched_field; simp)+

interpretation obs: row_store ob_by_id outbox_save ob_id ob_stored "\<lambda>m _. 0 \<le> ob_attempt_count m"
  by unfold_locales
    (auto simp: ob_by_id_def outbox_save_def row_simps split: option.splits if_splits)

record audit_args =
  aa_actor_user_id :: "uuid option"
  aa_action :: string
  aa_entity_type :: string
  aa_entity_id :: "uuid option"
  aa_before_data :: "(string \<times> pyval) list option"
  aa_after_data :: "(string \<times> pyval) list option"
  aa_request_id :: "string option"
  aa_ip_hash :: "string option"

definition audit_add :: "audit_args \<Rightarrow> database \<Rightarrow> app_error + database" where
  "audit_add a db =
     (if (\<exists>i. aa_actor_user_id a = Some i \<and> user_by_id i db = None)
         \<or> row_by al_id (next_uuid db) (audit_logs db) \<noteq> None
      then Inl IntegrityError
      else Inr ((drawn db)\<lparr>audit_logs := audit_logs db @ [\<lparr>al_id = next_uuid db,
             al_actor_user_id = aa_actor_user_id a, al_action = aa_action a,
             al_entity_type = aa_entity_type a, al_entity_id = aa_entity_id a,
             al_before_data = aa_before_data a, al_after_data = aa_after_data a,
             al_request_id = aa_request_id a, al_ip_hash = aa_ip_hash a,
             al_created_at = tx_now db\<rparr>]\<rparr>))"

end
