(* ===== verification/Libraries.thy ===== *)
theory Libraries
  imports Identity_Entities
begin

text \<open>
  The third-party packages the identity context calls, as one record of functions: Argon2
  (argon2-cffi), JWT (PyJWT), Fernet (cryptography) and TOTP (pyotp).  Every definition that
  calls one takes the record as its argument \<open>L\<close>; what a property needs of a package is a
  hypothesis of that property about the call it makes.  Randomness is an argument: the salt of a
  hash, the nonce of an encryption.
\<close>

datatype argon2_outcome = Verified | VerificationError | InvalidHash

type_synonym payload = "(string \<times> pyval) list"

record libs =
  argon2_hash :: "string \<Rightarrow> string \<Rightarrow> string"
  argon2_verify :: "string \<Rightarrow> string \<Rightarrow> argon2_outcome"
  jwt_encode :: "payload \<Rightarrow> string \<Rightarrow> string"
  jwt_decode :: "string \<Rightarrow> string \<Rightarrow> timestamp \<Rightarrow> payload option"
  totp_at :: "string \<Rightarrow> int \<Rightarrow> string"
  totp_uri :: "string \<Rightarrow> string \<Rightarrow> string \<Rightarrow> string"
  fernet_encrypt :: "string \<Rightarrow> bytes \<Rightarrow> bytes \<Rightarrow> bytes"
  fernet_decrypt :: "string \<Rightarrow> bytes \<Rightarrow> bytes option"

text \<open>What a running process fixes: the packages, the settings, and the salt drawn when the
  module-level placeholder hashes were computed at import.\<close>

record app =
  app_lib :: libs
  app_cfg :: settings
  app_salt :: string

section \<open>Passwords\<close>

text \<open>identity/infrastructure/password_hasher.py.  A stored hash that is no Argon2 encoding
  raises \<open>InvalidHashError\<close>, a \<open>ValueError\<close> the program does not catch.\<close>

definition hash_password :: "libs \<Rightarrow> string \<Rightarrow> string \<Rightarrow> string" where
  "hash_password L salt password = argon2_hash L salt password"

definition verify_password :: "libs \<Rightarrow> string \<Rightarrow> string \<Rightarrow> app_error + bool" where
  "verify_password L password password_hash = (case argon2_verify L password_hash password of
       Verified \<Rightarrow> Inr True
     | VerificationError \<Rightarrow> Inr False
     | InvalidHash \<Rightarrow> Inl (Uncaught ValueError))"

end
