(* ===== verification/Settings_Registry.thy ===== *)
theory Settings_Registry
  imports Platform_Entities
begin

text \<open>
  The setting registry (platform/domain/settings_registry.py): which keys exist, their declared
  types, limits and defaults, and the validation every submitted and every stored value passes.
  The second half states the rules as a predicate on values and shows that the validator, which
  collects reasons imperatively, accepts exactly the values that satisfy it.
\<close>

section \<open>Definitions\<close>

definition FORMAT_FREE :: string where "FORMAT_FREE = ''free''"
definition FORMAT_E164 :: string where "FORMAT_E164 = ''e164''"
definition CURRENCY :: string where "CURRENCY = ''USD''"

record setting_definition =
  sd_key :: string
  sd_type :: setting_type
  sd_description :: string
  sd_default :: pyval
  sd_is_public :: bool
  sd_unit :: "string option"
  sd_minimum :: "int option"
  sd_maximum :: "int option"
  sd_nullable :: bool
  sd_max_length :: "nat option"
  sd_text_format :: string

text \<open>The dataclass with the defaults of its optional fields.\<close>

definition declare_setting :: "string \<Rightarrow> setting_type \<Rightarrow> string \<Rightarrow> pyval \<Rightarrow> setting_definition" where
  "declare_setting key type description default_value =
     \<lparr>sd_key = key, sd_type = type, sd_description = description, sd_default = default_value,
      sd_is_public = False, sd_unit = None, sd_minimum = None, sd_maximum = None,
      sd_nullable = False, sd_max_length = None, sd_text_format = FORMAT_FREE\<rparr>"

definition accepting_orders_definition :: setting_definition where
  "accepting_orders_definition = (declare_setting ''accepting_orders'' BOOLEAN
     ''Global kill switch. False blocks new checkout with 503 ORDERS_PAUSED; payments already in flight are unaffected.''
     (PBool False))
     \<lparr>sd_is_public := True\<rparr>"

definition offer_response_window_definition :: setting_definition where
  "offer_response_window_definition = (declare_setting ''offer_response_window'' DURATION
     ''How long the party whose turn it is has to respond before an offer expires.''
     (PInt 172800))
     \<lparr>sd_unit := Some ''seconds'', sd_minimum := Some 3600, sd_maximum := Some 604800\<rparr>"

definition offer_checkout_window_definition :: setting_definition where
  "offer_checkout_window_definition = (declare_setting ''offer_checkout_window'' DURATION
     ''How long an accepted offer stays purchasable at its frozen price.''
     (PInt 86400))
     \<lparr>sd_unit := Some ''seconds'', sd_minimum := Some 3600, sd_maximum := Some 604800\<rparr>"

definition offer_rejection_cooldown_definition :: setting_definition where
  "offer_rejection_cooldown_definition = (declare_setting ''offer_rejection_cooldown'' DURATION
     ''Wait after a rejection before the same customer may offer on that product again.''
     (PInt 604800))
     \<lparr>sd_unit := Some ''seconds'', sd_minimum := Some 0, sd_maximum := Some 2592000\<rparr>"

definition minimum_offer_percentage_definition :: setting_definition where
  "minimum_offer_percentage_definition = (declare_setting ''minimum_offer_percentage'' INTEGER
     ''Offer floor as a whole percentage of list price. Offers below it are rejected at submission with 422 OFFER_BELOW_MINIMUM.''
     (PInt 70))
     \<lparr>sd_unit := Some ''percent'', sd_minimum := Some 0, sd_maximum := Some 100\<rparr>"

definition checkout_hold_period_definition :: setting_definition where
  "checkout_hold_period_definition = (declare_setting ''checkout_hold_period'' DURATION
     ''How long an unpaid checkout is held before it is cancelled automatically.''
     (PInt 1800))
     \<lparr>sd_unit := Some ''seconds'', sd_minimum := Some 300, sd_maximum := Some 7200\<rparr>"

definition unverified_account_purge_period_definition :: setting_definition where
  "unverified_account_purge_period_definition = (declare_setting ''unverified_account_purge_period'' DURATION
     ''Age at which a never-verified account is physically deleted by the purge_unverified_accounts job.''
     (PInt 2592000))
     \<lparr>sd_unit := Some ''seconds'', sd_minimum := Some 604800, sd_maximum := Some 7776000\<rparr>"

definition daily_download_cap_definition :: setting_definition where
  "daily_download_cap_definition = (declare_setting ''daily_download_cap'' INTEGER
     ''Abuse limit on download attempts per authenticated customer per UTC calendar day.''
     (PInt 20))
     \<lparr>sd_unit := Some ''downloads per customer per UTC day'', sd_minimum := Some 1, sd_maximum := Some 1000\<rparr>"

definition free_shipping_threshold_definition :: setting_definition where
  "free_shipping_threshold_definition = (declare_setting ''free_shipping_threshold'' MONEY
     ''Order value at or above which delivery is free. JSON null disables free shipping.''
     (PNone))
     \<lparr>sd_is_public := True, sd_unit := Some ''cents'', sd_minimum := Some 0, sd_maximum := Some 1000000, sd_nullable := True\<rparr>"

definition pickup_address_definition :: setting_definition where
  "pickup_address_definition = (declare_setting ''pickup_address'' STRING
     ''Workshop address shown at checkout and in the ready-for-pickup notification.''
     (PNone))
     \<lparr>sd_is_public := True, sd_nullable := True, sd_max_length := Some 500\<rparr>"

definition pickup_hours_definition :: setting_definition where
  "pickup_hours_definition = (declare_setting ''pickup_hours'' STRING
     ''Workshop opening hours, shown alongside the pickup address.''
     (PNone))
     \<lparr>sd_is_public := True, sd_nullable := True, sd_max_length := Some 200\<rparr>"

definition whatsapp_number_definition :: setting_definition where
  "whatsapp_number_definition = (declare_setting ''whatsapp_number'' STRING
     ''Business WhatsApp number in canonical E.164, used by the floating button and product click-to-chat.''
     (PNone))
     \<lparr>sd_is_public := True, sd_nullable := True, sd_max_length := Some 16, sd_text_format := FORMAT_E164\<rparr>"

definition DEFINITIONS :: "setting_definition list" where
  "DEFINITIONS = [accepting_orders_definition, offer_response_window_definition, offer_checkout_window_definition, offer_rejection_cooldown_definition, minimum_offer_percentage_definition, checkout_hold_period_definition, unverified_account_purge_period_definition, daily_download_cap_definition, free_shipping_threshold_definition, pickup_address_definition, pickup_hours_definition, whatsapp_number_definition]"

text \<open>The dictionary comprehension keeps the last definition of a key.\<close>

definition REGISTRY :: "string \<rightharpoonup> setting_definition" where
  "REGISTRY = map_of (rev (map (\<lambda>d. (sd_key d, d)) DEFINITIONS))"

definition PUBLIC_KEYS :: "string list" where
  "PUBLIC_KEYS = map sd_key (filter sd_is_public DEFINITIONS)"

definition ALL_KEYS :: "string list" where
  "ALL_KEYS = map sd_key DEFINITIONS"

definition definition_for :: "string \<Rightarrow> platform_error + setting_definition" where
  "definition_for key = (case REGISTRY key of None \<Rightarrow> Inl (SettingNotFoundError key) | Some d \<Rightarrow> Inr d)"

section \<open>Validation\<close>

text \<open>Each check returns the reasons it appends.\<close>

definition validate_number :: "setting_definition \<Rightarrow> pyval \<Rightarrow> string \<Rightarrow> string list" where
  "validate_number d value label = (case value of
       PInt number \<Rightarrow>
         (case sd_minimum d of None \<Rightarrow> []
          | Some lo \<Rightarrow> if number < lo then [label @ '' must be at least '' @ py_str_int lo] else []) @
         (case sd_maximum d of None \<Rightarrow> []
          | Some hi \<Rightarrow> if number > hi then [label @ '' must be at most '' @ py_str_int hi] else [])
     | _ \<Rightarrow> [label @ '' must be a whole number, not '' @ py_type_name value
              @ '' (booleans, decimals and numeric strings are not accepted)''])"

definition validate_money :: "setting_definition \<Rightarrow> pyval \<Rightarrow> string list" where
  "validate_money d value = (case value of
       PDict entries \<Rightarrow>
         if fst ` set entries \<noteq> {''amount_cents'', ''currency''}
         then [''value must have exactly the keys amount_cents and currency'']
         else validate_number d (the (map_of entries ''amount_cents'')) ''amount_cents'' @
           (if the (map_of entries ''currency'') \<noteq> PStr CURRENCY
            then [''currency must be '' @ py_repr CURRENCY @ '' (ADR-008 fixes the V1 currency)''] else [])
     | _ \<Rightarrow> [''value must be an object with amount_cents and currency''])"

text \<open>\<open>^\+[1-9]\d{0,14}$\<close>: below code point 256 only the ASCII digits match \<open>\d\<close>.\<close>

definition e164 :: "string \<Rightarrow> bool" where
  "e164 s = (case s of c # d # ds \<Rightarrow> c = CHR ''+'' \<and> ascii_digit d \<and> d \<noteq> CHR ''0''
       \<and> length ds \<le> 14 \<and> list_all ascii_digit ds
     | _ \<Rightarrow> False)"

definition validate_string :: "setting_definition \<Rightarrow> pyval \<Rightarrow> string list \<times> string option" where
  "validate_string d value = (case value of
       PStr s \<Rightarrow> (let trimmed = py_strip s in
         if trimmed = [] then ([''value must not be empty or whitespace only''], None)
         else ((case sd_max_length d of None \<Rightarrow> []
            | Some n \<Rightarrow> if n < length trimmed
                then [''value must be at most '' @ py_str_int (int n) @ '' characters''] else []) @
          (if sd_text_format d = FORMAT_E164 \<and> \<not> re_whole e164 trimmed
           then [''value must be a canonical E.164 number: a leading '' @ quoted ''+'' @ '', then up to 15 digits, ''
                 @ ''with no spaces or separators''] else []), Some trimmed))
     | _ \<Rightarrow> ([''value must be a string, not '' @ py_type_name value], None))"

definition validate_value :: "string \<Rightarrow> pyval \<Rightarrow> platform_error + pyval" where
  "validate_value key value = (case definition_for key of Inl e \<Rightarrow> Inl e | Inr d \<Rightarrow>
     if value = PNone then
       (if sd_nullable d then Inr PNone
        else Inl (InvalidSettingValueError key [''value must not be null for this setting'']))
     else
       (let accept = (\<lambda>reasons result. if reasons \<noteq> [] then Inl (InvalidSettingValueError key reasons) else Inr result)
        in case sd_type d of
             BOOLEAN \<Rightarrow> accept (case value of PBool b \<Rightarrow> []
                 | _ \<Rightarrow> [''value must be true or false, not '' @ py_type_name value]) value
           | INTEGER \<Rightarrow> accept (validate_number d value ''value'') value
           | DURATION \<Rightarrow> accept (validate_number d value ''value'') value
           | MONEY \<Rightarrow> accept (validate_money d value) value
           | STRING \<Rightarrow> (case validate_string d value of (reasons, trimmed) \<Rightarrow>
               accept reasons (case trimmed of Some t \<Rightarrow> PStr t | None \<Rightarrow> value))
           | JSON \<Rightarrow> Inr value))"

section \<open>The rules as a predicate\<close>

definition in_range :: "setting_definition \<Rightarrow> int \<Rightarrow> bool" where
  "in_range d n = ((case sd_minimum d of None \<Rightarrow> True | Some lo \<Rightarrow> lo \<le> n)
     \<and> (case sd_maximum d of None \<Rightarrow> True | Some hi \<Rightarrow> n \<le> hi))"

definition text_allowed :: "setting_definition \<Rightarrow> string \<Rightarrow> bool" where
  "text_allowed d s = (s \<noteq> [] \<and> py_strip s = s
     \<and> (case sd_max_length d of None \<Rightarrow> True | Some n \<Rightarrow> length s \<le> n)
     \<and> (sd_text_format d = FORMAT_E164 \<longrightarrow> e164 s))"

definition money_allowed :: "setting_definition \<Rightarrow> (string \<times> pyval) list \<Rightarrow> bool" where
  "money_allowed d entries = (fst ` set entries = {''amount_cents'', ''currency''}
     \<and> (\<exists>n. map_of entries ''amount_cents'' = Some (PInt n) \<and> in_range d n)
     \<and> map_of entries ''currency'' = Some (PStr ''USD''))"

definition satisfies :: "setting_definition \<Rightarrow> pyval \<Rightarrow> bool" where
  "satisfies d v = (if v = PNone then sd_nullable d else case sd_type d of
       BOOLEAN \<Rightarrow> v \<in> {PBool True, PBool False}
     | INTEGER \<Rightarrow> (\<exists>n. v = PInt n \<and> in_range d n)
     | DURATION \<Rightarrow> (\<exists>n. v = PInt n \<and> in_range d n)
     | MONEY \<Rightarrow> (\<exists>entries. v = PDict entries \<and> money_allowed d entries)
     | STRING \<Rightarrow> (\<exists>s. v = PStr s \<and> text_allowed d s)
     | JSON \<Rightarrow> True)"

text \<open>The one normalisation: a text setting is stored trimmed.\<close>

definition stored_form :: "setting_definition \<Rightarrow> pyval \<Rightarrow> pyval" where
  "stored_form d v = (case v of PStr s \<Rightarrow> if sd_type d = STRING then PStr (py_strip s) else v | _ \<Rightarrow> v)"

lemma validate_number_ok: "validate_number d v label = [] \<longleftrightarrow> (\<exists>n. v = PInt n \<and> in_range d n)"
  by (cases v) (auto simp: validate_number_def in_range_def split: option.splits)

lemma validate_money_ok: "validate_money d v = [] \<longleftrightarrow> (\<exists>entries. v = PDict entries \<and> money_allowed d entries)"
proof (cases v)
  case (PDict entries)
  show ?thesis
  proof (cases "fst ` set entries = {''amount_cents'', ''currency''}")
    case True
    then have "map_of entries ''amount_cents'' \<noteq> None" "map_of entries ''currency'' \<noteq> None"
      by (simp_all add: map_of_eq_None_iff)
    then obtain a c where "map_of entries ''amount_cents'' = Some a" "map_of entries ''currency'' = Some c"
      by blast
    with True show ?thesis
      by (simp add: PDict validate_money_def money_allowed_def validate_number_ok CURRENCY_def)
  next
    case False
    then show ?thesis by (simp add: PDict validate_money_def money_allowed_def)
  qed
qed (simp_all add: validate_money_def)

lemma validate_string_ok:
  "validate_string d v = ([], Some t) \<longleftrightarrow> (\<exists>s. v = PStr s \<and> t = py_strip s \<and> text_allowed d t)"
proof (cases v)
  case (PStr s)
  define p where "p = py_strip s"
  have p: "py_strip p = p" "re_whole e164 p = e164 p" by (simp_all add: p_def re_whole_stripped)
  have "validate_string d v = ([], Some t) \<longleftrightarrow> t = p \<and> text_allowed d p"
    unfolding PStr validate_string_def pyval.case p_def [symmetric] Let_def text_allowed_def p
    by (cases "p = []"; cases "sd_max_length d") auto
  then show ?thesis by (simp add: PStr p_def) metis
qed (simp_all add: validate_string_def)

lemma validate_string_total: "validate_string d v = ([], r) \<Longrightarrow> r \<noteq> None"
  by (auto simp: validate_string_def Let_def split: pyval.splits if_splits)

lemma definition_for_Inr: "definition_for key = Inr d \<longleftrightarrow> REGISTRY key = Some d"
  by (simp add: definition_for_def split: option.split)

lemma definition_for_None: "REGISTRY key = None \<Longrightarrow> definition_for key = Inl (SettingNotFoundError key)"
  by (simp add: definition_for_def)

lemma validate_value_iff:
  "validate_value key v = Inr w \<longleftrightarrow> (\<exists>d. REGISTRY key = Some d \<and> w = stored_form d v \<and> satisfies d w)"
proof (cases "REGISTRY key")
  case None
  then show ?thesis by (simp add: validate_value_def definition_for_None)
next
  case (Some d)
  then have dd: "definition_for key = Inr d" by (simp add: definition_for_Inr)
  show ?thesis
  proof (cases "v = PNone")
    case True
    with dd Some show ?thesis by (auto simp: validate_value_def satisfies_def stored_form_def)
  next
    case False
    show ?thesis
    proof (cases "sd_type d = STRING")
      case True
      obtain reasons t where vs: "validate_string d v = (reasons, t)" by (rule prod.exhaust)
      have none: "stored_form d v \<noteq> PNone" using False by (simp add: stored_form_def split: pyval.split)
      show ?thesis
      proof (cases reasons)
        case Nil
        with validate_string_total vs obtain u where "t = Some u" by fastforce
        with Nil vs validate_string_ok [of d v u] True dd Some False none show ?thesis
          by (auto simp: validate_value_def satisfies_def stored_form_def)
      next
        case (Cons r rs)
        have "\<not> (\<exists>s. v = PStr s \<and> text_allowed d (py_strip s))"
          using vs Cons validate_string_ok [of d v] by auto
        with Cons vs True dd Some False none show ?thesis
          by (auto simp: validate_value_def satisfies_def stored_form_def split: pyval.splits)
      qed
    next
      case False
      with \<open>v \<noteq> PNone\<close> dd Some show ?thesis
        by (cases "sd_type d")
          (auto simp: validate_value_def satisfies_def stored_form_def validate_number_ok validate_money_ok
            split: pyval.splits if_splits)
    qed
  qed
qed

lemma stored_form_idem [simp]: "stored_form d (stored_form d v) = stored_form d v"
  by (simp add: stored_form_def split: pyval.split)

text \<open>C23: A value is accepted exactly when its stored form satisfies the rules of its key, and that form
  is what is returned.\<close>

theorem validate_value_exact:
  "validate_value key v = Inr w \<longleftrightarrow> (\<exists>d. REGISTRY key = Some d \<and> w = stored_form d v \<and> satisfies d w)"
  by (rule validate_value_iff)

text \<open>Validation is idempotent: what it returned is accepted unchanged by the reader.\<close>

theorem validate_value_stable: "validate_value key v = Inr w \<Longrightarrow> validate_value key w = Inr w"
  by (auto simp: validate_value_iff)

text \<open>A refusal names the key, and an unregistered key is told from a bad value, which comes with at
  least one reason.\<close>

theorem validate_value_refuses:
  "validate_value key v = Inl e \<longleftrightarrow>
     (REGISTRY key = None \<and> e = SettingNotFoundError key)
   \<or> (\<exists>d reasons. REGISTRY key = Some d \<and> \<not> satisfies d (stored_form d v)
        \<and> e = InvalidSettingValueError key reasons \<and> reasons \<noteq> [] \<and> validate_value key v = Inl e)"
proof (cases "REGISTRY key")
  case None
  then show ?thesis by (auto simp: validate_value_def definition_for_None)
next
  case (Some d)
  then have dd: "definition_for key = Inr d" by (simp add: definition_for_Inr)
  have "\<exists>reasons. e = InvalidSettingValueError key reasons \<and> reasons \<noteq> []" if "validate_value key v = Inl e"
    using that dd by (auto simp: validate_value_def Let_def split: if_splits setting_type.splits prod.splits)
  moreover have "\<not> satisfies d (stored_form d v)" if "validate_value key v = Inl e"
    using that Some validate_value_iff [of key v "stored_form d v"] by auto
  ultimately show ?thesis using Some by auto
qed

section \<open>The registry itself\<close>

lemmas setting_definitions = accepting_orders_definition_def offer_response_window_definition_def offer_checkout_window_definition_def
  offer_rejection_cooldown_definition_def minimum_offer_percentage_definition_def checkout_hold_period_definition_def
  unverified_account_purge_period_definition_def daily_download_cap_definition_def free_shipping_threshold_definition_def
  pickup_address_definition_def pickup_hours_definition_def whatsapp_number_definition_def
  declare_setting_def FORMAT_FREE_def FORMAT_E164_def

lemma keys_distinct: "distinct ALL_KEYS"
  by (simp add: ALL_KEYS_def DEFINITIONS_def setting_definitions)

lemma registry_iff: "REGISTRY key = Some d \<longleftrightarrow> d \<in> set DEFINITIONS \<and> sd_key d = key"
proof -
  have "distinct (map fst (rev (map (\<lambda>d. (sd_key d, d)) DEFINITIONS)))"
    using keys_distinct by (simp add: ALL_KEYS_def rev_map comp_def distinct_map flip: rev_map)
  then show ?thesis by (auto simp: REGISTRY_def map_of_eq_Some_iff)
qed

lemma registered_key: "REGISTRY key = Some d \<Longrightarrow> key \<in> set ALL_KEYS"
  by (auto simp: registry_iff ALL_KEYS_def)

text \<open>Every default is a value its own key accepts.\<close>

lemma default_accepted:
  assumes d: "d \<in> set DEFINITIONS"
  shows "validate_value (sd_key d) (sd_default d) = Inr (sd_default d)"
proof -
  from d have "satisfies d (sd_default d) \<and> stored_form d (sd_default d) = sd_default d"
    by (auto simp: DEFINITIONS_def setting_definitions satisfies_def stored_form_def in_range_def)
  with d show ?thesis
    by (auto simp: validate_value_iff registry_iff)
qed

section \<open>The stored table\<close>

text \<open>The rows migration de1d8a23512f writes out literally: key, type, value and description.\<close>

definition SEED :: "(string \<times> setting_type \<times> pyval \<times> string) list" where
  "SEED = [
     (''accepting_orders'', BOOLEAN, PBool False,
       ''Global kill switch. False blocks new checkout with 503 ORDERS_PAUSED; payments already in flight are unaffected.''),
     (''offer_response_window'', DURATION, PInt 172800,
       ''Seconds the party whose turn it is has to respond before an offer expires.''),
     (''offer_checkout_window'', DURATION, PInt 86400,
       ''Seconds an accepted offer stays purchasable at its frozen price.''),
     (''offer_rejection_cooldown'', DURATION, PInt 604800,
       ''Seconds after a rejection before the same customer may offer on that product again.''),
     (''minimum_offer_percentage'', INTEGER, PInt 70,
       ''Offer floor as a whole percentage of list price.''),
     (''checkout_hold_period'', DURATION, PInt 1800,
       ''Seconds an unpaid checkout is held before automatic cancellation.''),
     (''unverified_account_purge_period'', DURATION, PInt 2592000,
       ''Seconds after which a never-verified account is physically deleted.''),
     (''daily_download_cap'', INTEGER, PInt 20,
       ''Download attempts allowed per authenticated customer per UTC day.''),
     (''free_shipping_threshold'', MONEY, PNone,
       ''Order value at or above which delivery is free. JSON null disables free shipping.''),
     (''pickup_address'', STRING, PNone,
       ''Workshop address shown at checkout and in the ready-for-pickup notice.''),
     (''pickup_hours'', STRING, PNone,
       ''Workshop opening hours, shown alongside the pickup address.''),
     (''whatsapp_number'', STRING, PNone,
       ''Business WhatsApp number in canonical E.164 for click-to-chat.'')]"

definition row_valid :: "setting \<Rightarrow> bool" where
  "row_valid r = (case REGISTRY (st_key r) of None \<Rightarrow> False
     | Some d \<Rightarrow> st_type r = sd_type d \<and> satisfies d (st_value r))"

text \<open>Every registered key has exactly one row, of its declared type, with a value its rules allow.\<close>

definition settings_valid :: "setting list \<Rightarrow> bool" where
  "settings_valid rows \<longleftrightarrow> distinct (map st_id rows) \<and> distinct (map st_key rows)
     \<and> set (map st_key rows) = set ALL_KEYS \<and> list_all row_valid rows"

definition seeded :: "setting list \<Rightarrow> bool" where
  "seeded rows \<longleftrightarrow> distinct (map st_id rows)
     \<and> map (\<lambda>r. (st_key r, st_type r, st_value r, the (st_description r))) rows = SEED"

text \<open>The seed and the registry are one fact in two places: they agree on keys, types and values.\<close>

theorem seed_agrees_with_registry:
  "map (\<lambda>(k, t, v, _). (k, t, v)) SEED = map (\<lambda>d. (sd_key d, sd_type d, sd_default d)) DEFINITIONS"
  by (simp add: SEED_def DEFINITIONS_def setting_definitions)

lemma satisfies_stored: "satisfies d v \<Longrightarrow> stored_form d v = v"
  by (auto simp: satisfies_def stored_form_def text_allowed_def split: pyval.splits if_splits setting_type.splits)

lemma row_valid_value: "row_valid r \<longleftrightarrow> (\<exists>d. REGISTRY (st_key r) = Some d \<and> st_type r = sd_type d)
     \<and> validate_value (st_key r) (st_value r) = Inr (st_value r)"
  by (auto simp: row_valid_def validate_value_iff satisfies_stored split: option.splits)

lemma seeded_valid:
  assumes "seeded rows"
  shows "settings_valid rows"
proof -
  let ?f = "\<lambda>r. (st_key r, st_type r, st_value r)"
  from assms have seed: "SEED = map (\<lambda>r. (st_key r, st_type r, st_value r, the (st_description r))) rows"
    by (simp add: seeded_def)
  have "map ?f rows = map (\<lambda>(k, t, v, _). (k, t, v)) SEED" unfolding seed by simp
  then have eq: "map ?f rows = map (\<lambda>d. (sd_key d, sd_type d, sd_default d)) DEFINITIONS"
    by (simp add: seed_agrees_with_registry)
  then have "map fst (map ?f rows) = map fst (map (\<lambda>d. (sd_key d, sd_type d, sd_default d)) DEFINITIONS)"
    by simp
  then have keys: "map st_key rows = ALL_KEYS" by (simp add: comp_def ALL_KEYS_def)
  have "row_valid r" if "r \<in> set rows" for r
  proof -
    from that have "?f r \<in> set (map ?f rows)" by simp
    then obtain d where d: "d \<in> set DEFINITIONS" "st_key r = sd_key d" "st_type r = sd_type d" "st_value r = sd_default d"
      unfolding eq by auto
    with default_accepted [OF d(1)] show ?thesis by (auto simp: row_valid_value registry_iff)
  qed
  with keys keys_distinct assms show ?thesis by (simp add: settings_valid_def seeded_def list_all_iff)
qed

lemma public_keys: "PUBLIC_KEYS = [''accepting_orders'', ''free_shipping_threshold'', ''pickup_address'',
    ''pickup_hours'', ''whatsapp_number'']"
  by (simp add: PUBLIC_KEYS_def DEFINITIONS_def setting_definitions)

end
