(* ===== verification/Unit_Of_Work.thy ===== *)
theory Unit_Of_Work
  imports Database Libraries Settings_Registry
begin

text \<open>
  A use case as a computation over the transaction's database that returns a value or raises.
  An exception keeps the database as it was when it was raised: whether those writes survive is
  decided by the request (\<open>get_session\<close> of api/dependencies.py rolls back, unless the route
  commits first).  The second half holds the schema's invariants and shows that no repository
  statement breaks them.
\<close>

type_synonym 'a cmd = "database \<Rightarrow> (app_error + 'a) \<times> database"

definition ret :: "'a \<Rightarrow> 'a cmd" where
  "ret a db = (Inr a, db)"

definition raise :: "app_error \<Rightarrow> 'a cmd" where
  "raise e db = (Inl e, db)"

definition andthen :: "'a cmd \<Rightarrow> ('a \<Rightarrow> 'b cmd) \<Rightarrow> 'b cmd" where
  "andthen c f db = (case c db of (Inl e, db') \<Rightarrow> (Inl e, db') | (Inr a, db') \<Rightarrow> f a db')"

definition query :: "(database \<Rightarrow> 'a) \<Rightarrow> 'a cmd" where
  "query q db = (Inr (q db), db)"

definition exec :: "(database \<Rightarrow> app_error + database) \<Rightarrow> unit cmd" where
  "exec w db = (case w db of Inl e \<Rightarrow> (Inl e, db) | Inr db' \<Rightarrow> (Inr (), db'))"

definition bulk :: "(database \<Rightarrow> 'a \<times> database) \<Rightarrow> 'a cmd" where
  "bulk w db = (case w db of (a, db') \<Rightarrow> (Inr a, db'))"

definition insert_row :: "(database \<Rightarrow> app_error + 'a \<times> database) \<Rightarrow> 'a cmd" where
  "insert_row w db = (case w db of Inl e \<Rightarrow> (Inl e, db) | Inr (a, db') \<Rightarrow> (Inr a, db'))"

definition from_entity :: "app_error + 'a \<Rightarrow> 'a cmd" where
  "from_entity r db = (r, db)"

definition in_transaction :: "(app_error \<Rightarrow> bool) \<Rightarrow> 'a cmd \<Rightarrow> 'a cmd" where
  "in_transaction commits c db = (case c db of
       (Inr a, db') \<Rightarrow> (Inr a, db')
     | (Inl e, db') \<Rightarrow> (Inl e, if commits e then db' else db\<lparr>gen_ctr := gen_ctr db'\<rparr>))"

lemmas cmd_simps = ret_def raise_def andthen_def query_def exec_def bulk_def insert_row_def from_entity_def

lemma andthen_Inr:
  "andthen c f db = (Inr b, db'') \<longleftrightarrow> (\<exists>a db'. c db = (Inr a, db') \<and> f a db' = (Inr b, db''))"
  by (auto simp: andthen_def split: prod.splits sum.splits)

lemma ret_Inr: "ret a db = (Inr b, db') \<longleftrightarrow> b = a \<and> db' = db"
  by (auto simp: ret_def)

lemma raise_Inr [simp]: "raise e db \<noteq> (Inr b, db')"
  by (simp add: raise_def)

lemma query_Inr: "query q db = (Inr b, db') \<longleftrightarrow> b = q db \<and> db' = db"
  by (auto simp: query_def)

lemma exec_Inr: "exec w db = (Inr b, db') \<longleftrightarrow> w db = Inr db'"
  by (auto simp: exec_def split: sum.splits)

lemma bulk_Inr: "bulk w db = (Inr b, db') \<longleftrightarrow> w db = (b, db')"
  by (auto simp: bulk_def split: prod.splits)

lemma insert_row_Inr: "insert_row w db = (Inr b, db') \<longleftrightarrow> w db = Inr (b, db')"
  by (auto simp: insert_row_def split: sum.splits)

lemma from_entity_Inr: "from_entity r db = (Inr b, db') \<longleftrightarrow> r = Inr b \<and> db' = db"
  by (auto simp: from_entity_def)

lemma if_cmd_Inr: "(if P then c else d) db = (Inr b, db') \<longleftrightarrow> (if P then c db = (Inr b, db') else d db = (Inr b, db'))"
  by simp

lemmas succeeds = andthen_Inr ret_Inr query_Inr exec_Inr bulk_Inr insert_row_Inr from_entity_Inr if_cmd_Inr

lemma in_transaction_Inr [simp]: "in_transaction cm c db = (Inr a, db') \<longleftrightarrow> c db = (Inr a, db')"
  by (auto simp: in_transaction_def split: prod.splits sum.splits)

section \<open>Preserving an invariant\<close>

definition preserves :: "(database \<Rightarrow> bool) \<Rightarrow> 'a cmd \<Rightarrow> bool" where
  "preserves I c = (\<forall>db. I db \<longrightarrow> I (snd (c db)))"

lemma preservesD: "preserves I c \<Longrightarrow> c db = (x, db') \<Longrightarrow> I db \<Longrightarrow> I db'"
  by (auto simp: preserves_def dest!: spec [of _ db])

named_theorems keeps \<open>commands that preserve the schema\<close>

lemma preserves_ret [keeps]: "preserves I (ret a)"
  by (simp add: preserves_def ret_def)

lemma preserves_raise [keeps]: "preserves I (raise e)"
  by (simp add: preserves_def raise_def)

lemma preserves_query [keeps]: "preserves I (query q)"
  by (simp add: preserves_def query_def)

lemma preserves_from_entity [keeps]: "preserves I (from_entity r)"
  by (simp add: preserves_def from_entity_def)

lemma preserves_andthen [keeps]:
  "preserves I c \<Longrightarrow> (\<And>a. preserves I (f a)) \<Longrightarrow> preserves I (andthen c f)"
  by (force simp: preserves_def andthen_def split: prod.splits sum.splits)

lemma preserves_if [keeps]: "preserves I c \<Longrightarrow> preserves I d \<Longrightarrow> preserves I (if P then c else d)"
  by simp

lemma preserves_case_option [keeps]:
  "preserves I c \<Longrightarrow> (\<And>a. preserves I (f a)) \<Longrightarrow> preserves I (case x of None \<Rightarrow> c | Some a \<Rightarrow> f a)"
  by (cases x) auto

lemma preserves_case_prod [keeps]: "(\<And>a b. preserves I (f a b)) \<Longrightarrow> preserves I (case p of (a, b) \<Rightarrow> f a b)"
  by (cases p) simp

lemma preserves_exec: "(\<And>db db'. I db \<Longrightarrow> w db = Inr db' \<Longrightarrow> I db') \<Longrightarrow> preserves I (exec w)"
  by (auto simp: preserves_def exec_def split: sum.splits)

lemma preserves_bulk: "(\<And>db. I db \<Longrightarrow> I (snd (w db))) \<Longrightarrow> preserves I (bulk w)"
  by (auto simp: preserves_def bulk_def split: prod.splits) (metis snd_conv)

lemma preserves_insert: "(\<And>db a db'. I db \<Longrightarrow> w db = Inr (a, db') \<Longrightarrow> I db') \<Longrightarrow> preserves I (insert_row w)"
  by (auto simp: preserves_def insert_row_def split: sum.splits)

section \<open>The schema\<close>

text \<open>
  Primary keys are distinct, a session and a notification belong to an existing user, an account
  has at most one second factor, epochs are not negative, the settings are complete and valid, and
  no two live categories share a slug (\<open>ix_categories_live_slug\<close>).
\<close>

definition live_categories :: "category list \<Rightarrow> category list" where
  "live_categories cs = filter (\<lambda>c. rv_deleted_at c = None) cs"

definition wf_office :: "setting list \<Rightarrow> category list \<Rightarrow> reference_value list \<Rightarrow> reference_value list \<Rightarrow> bool" where
  "wf_office ss cs ms ls \<longleftrightarrow> settings_valid ss
     \<and> distinct (map rv_id cs) \<and> distinct (map cat_slug (live_categories cs))
     \<and> distinct (map rv_id ms) \<and> distinct (map rv_id ls)"

definition wf_db :: "database \<Rightarrow> bool" where
  "wf_db db \<longleftrightarrow>
     distinct (map u_id (users db)) \<and> distinct (map s_id (sessions db))
   \<and> distinct (map rt_token_hash (reset_tokens db)) \<and> distinct (map rt_id (reset_tokens db))
   \<and> distinct (map mc_user_id (mfa_credentials db)) \<and> distinct (map rc_id (recovery_codes db))
   \<and> distinct (map rc_code_hash (recovery_codes db))
   \<and> distinct (map nt_id (notifications db))
   \<and> wf_office (setting_rows db) (categories db) (materials db) (colours db)
   \<and> (\<forall>s \<in> set (sessions db). s_user_id s \<in> u_id ` set (users db))
   \<and> (\<forall>n \<in> set (notifications db). nt_user_id n \<in> u_id ` set (users db))
   \<and> (\<forall>u \<in> set (users db). 0 \<le> u_auth_epoch u)"

lemma wf_db_other_tables:
  assumes "wf_db db" and "users db' = users db" and "sessions db' = sessions db"
    and "map rt_token_hash (reset_tokens db') = map rt_token_hash (reset_tokens db)"
    and "map rt_id (reset_tokens db') = map rt_id (reset_tokens db)"
    and "map mc_user_id (mfa_credentials db') = map mc_user_id (mfa_credentials db)"
    and "map rc_id (recovery_codes db') = map rc_id (recovery_codes db)"
    and "map rc_code_hash (recovery_codes db') = map rc_code_hash (recovery_codes db)"
    and "notifications db' = notifications db"
    and "setting_rows db' = setting_rows db" and "categories db' = categories db"
    and "materials db' = materials db" and "colours db' = colours db"
  shows "wf_db db'"
  using assms by (simp add: wf_db_def)

lemma wf_db_counters [simp]: "wf_db (db\<lparr>gen_ctr := n\<rparr>) = wf_db db" "wf_db (db\<lparr>tx_now := t\<rparr>) = wf_db db"
  by (simp_all add: wf_db_def)

lemma set_map_fst_put: "(\<And>r. key (f r) = key r) \<Longrightarrow> key ` set (put_row k i f rows) = key ` set rows"
  by (metis map_key_put set_map)

lemma keeps_user_add [keeps]: "preserves wf_db (insert_row (user_add email h))"
  by (rule preserves_insert)
    (auto simp: user_add_def wf_db_def user_by_id_def row_by_None_iff Let_def split: if_splits)

lemma keeps_user_save:
  assumes "wf_db db" and "user_save u db = Inr db'" and "0 \<le> u_auth_epoch u"
  shows "wf_db db'"
proof -
  from assms(2) have db': "db' = db\<lparr>users := put_row u_id (u_id u) (user_stored db u) (users db)\<rparr>"
    by (auto simp: user_save_def split: option.splits)
  have "0 \<le> u_auth_epoch x" if "x \<in> set (put_row u_id (u_id u) (user_stored db u) (users db))" for x
    using that assms(1,3)
    by (auto elim!: set_put_rowE simp: user_stored_def Let_def wf_db_def)
  with assms(1) show ?thesis
    by (auto simp: db' wf_db_def set_map_fst_put)
qed

lemma keeps_session_add [keeps]: "preserves wf_db (exec (session_add sid uid h e ip ua))"
  by (rule preserves_exec)
    (auto simp: session_add_def wf_db_def session_by_id_def user_by_id_def row_by_None_iff
      dest!: row_by_SomeD split: if_splits)

lemma keeps_session_save [keeps]: "preserves wf_db (exec (session_save s))"
proof (rule preserves_exec)
  fix db db'
  assume wf: "wf_db db" and sv: "session_save s db = Inr db'"
  from sv have db': "db' = db\<lparr>sessions := put_row s_id (s_id s) (session_stored db s) (sessions db)\<rparr>"
    by (auto simp: session_save_def split: option.splits if_splits)
  have "s_user_id x \<in> u_id ` set (users db)" if "x \<in> set (put_row s_id (s_id s) (session_stored db s) (sessions db))" for x
    using that wf by (auto elim!: set_put_rowE simp: session_stored_def wf_db_def)
  with wf show "wf_db db'" by (simp add: db' wf_db_def)
qed

lemma keeps_revoke_all [keeps]: "preserves wf_db (bulk (revoke_all_for_user uid now))"
  by (rule preserves_bulk)
    (auto simp: revoke_all_for_user_def wf_db_def elim!: set_update_whereE)

lemma keeps_consume_outstanding [keeps]: "preserves wf_db (bulk (consume_outstanding_for_user uid now))"
  by (rule preserves_bulk) (auto simp: consume_outstanding_for_user_def elim: wf_db_other_tables)

lemma keeps_vt [keeps]:
  "preserves wf_db (exec (vt_add uid h e))" "preserves wf_db (exec (vt_save t))"
  by (rule preserves_exec, auto simp: vt_add_def vt_save_def elim: wf_db_other_tables split: if_splits option.splits)+

lemma keeps_rt_add [keeps]: "preserves wf_db (exec (rt_add uid h e))"
  by (rule preserves_exec)
    (auto simp: rt_add_def wf_db_def rt_by_hash_def row_by_None_iff split: if_splits)

lemma keeps_rt_save [keeps]: "preserves wf_db (exec (rt_save t))"
  by (rule preserves_exec)
    (auto simp: rt_save_def rt_stored_def elim!: wf_db_other_tables split: option.splits)

lemma keeps_mc_add [keeps]: "preserves wf_db (exec (mc_add uid m ct))"
  by (rule preserves_exec)
    (auto simp: mc_add_def wf_db_def mc_by_user_id_def row_by_None_iff split: if_splits)

lemma keeps_mc_save [keeps]: "preserves wf_db (exec (mc_save c))"
  by (rule preserves_exec)
    (auto simp: mc_save_def elim!: wf_db_other_tables split: option.splits)

lemma rc_add_set_tables:
  "rc_add_set i hs db = Inr db' \<Longrightarrow> users db' = users db \<and> sessions db' = sessions db
     \<and> reset_tokens db' = reset_tokens db \<and> mfa_credentials db' = mfa_credentials db
     \<and> notifications db' = notifications db"
  by (induction i hs db rule: rc_add_set.induct) (auto split: if_splits)

lemma rc_add_set_wf: "rc_add_set i hs db = Inr db' \<Longrightarrow> wf_db db \<Longrightarrow> wf_db db'"
proof (induction i hs db rule: rc_add_set.induct)
  case (2 i h hs db)
  from 2(2) have ok: "h \<notin> rc_code_hash ` set (recovery_codes db)" "next_uuid db \<notin> rc_id ` set (recovery_codes db)"
    by (auto simp: rc_by_id_def row_by_None_iff split: if_splits)
  from 2(2) show ?case
    by (auto split: if_splits intro!: 2(1)) (use ok 2(3) in \<open>auto simp: wf_db_def\<close>)
qed simp

lemma distinct_map_filter_rows: "distinct (map f xs) \<Longrightarrow> distinct (map f (filter P xs))"
  by (induction xs) auto

lemma keeps_rc [keeps]:
  "preserves wf_db (exec (rc_add_set i hs))" "preserves wf_db (exec (rc_save c))"
  "preserves wf_db (bulk (rc_delete_unused i))"
proof -
  show "preserves wf_db (exec (rc_add_set i hs))"
    by (rule preserves_exec) (rule rc_add_set_wf)
  show "preserves wf_db (exec (rc_save c))"
    by (rule preserves_exec) (auto simp: rc_save_def rc_stored_def elim!: wf_db_other_tables split: option.splits)
  show "preserves wf_db (bulk (rc_delete_unused i))"
    by (rule preserves_bulk) (auto simp: rc_delete_unused_def wf_db_def distinct_map_filter_rows)
qed

lemma keeps_outbox_audit [keeps]:
  "preserves wf_db (exec (outbox_add uid rcpt tmpl pl))" "preserves wf_db (exec (outbox_save m))"
  "preserves wf_db (exec (audit_add a))"
  by (rule preserves_exec, auto simp: outbox_add_def outbox_save_def audit_add_def
      elim: wf_db_other_tables split: if_splits option.splits)+

lemma user_found: "user_by_id i db = Some u \<Longrightarrow> u_id u = i \<and> u \<in> set (users db)"
  by (auto simp: user_by_id_def dest: row_by_SomeD(1,2))

text \<open>A command that saves a user it has read: the epoch it writes is the stored one or more.\<close>

lemma keeps_exec_user_save: "0 \<le> u_auth_epoch u \<Longrightarrow> preserves wf_db (exec (user_save u))"
  by (rule preserves_exec) (rule keeps_user_save)

lemma keeps_query_user:
  assumes "preserves wf_db c" and "\<And>u. 0 \<le> u_auth_epoch u \<Longrightarrow> preserves wf_db (f u)"
  shows "preserves wf_db (andthen (query (user_by_id i)) (\<lambda>found. case found of None \<Rightarrow> c | Some u \<Rightarrow> f u))"
  unfolding preserves_def
proof (intro allI impI)
  fix db
  assume wf: "wf_db db"
  show "wf_db (snd (andthen (query (user_by_id i)) (\<lambda>found. case found of None \<Rightarrow> c | Some u \<Rightarrow> f u) db))"
  proof (cases "user_by_id i db")
    case None
    with assms(1) wf show ?thesis by (simp add: andthen_def query_def preserves_def)
  next
    case (Some u)
    then have "0 \<le> u_auth_epoch u"
      using wf user_found [OF Some] by (auto simp: wf_db_def)
    with assms(2) wf Some show ?thesis by (simp add: andthen_def query_def preserves_def)
  qed
qed

lemma keeps_entity: "(\<And>a. r = Inr a \<Longrightarrow> preserves I (f a)) \<Longrightarrow> preserves I (andthen (from_entity r) f)"
  by (cases r) (auto simp: preserves_def andthen_def from_entity_def)

lemma user_by_email_in: "user_by_email e db = Some u \<Longrightarrow> u \<in> set (users db)"
  by (auto simp: user_by_email_def find_Some_iff)

lemma user_by_own_id: "wf_db db \<Longrightarrow> u \<in> set (users db) \<Longrightarrow> user_by_id (u_id u) db = Some u"
  by (auto simp: user_by_id_def wf_db_def intro: row_by_unique)

section \<open>The tables a statement leaves alone\<close>

lemma audit_tables:
  assumes "audit_add a db = Inr db'"
  shows "users db' = users db" "sessions db' = sessions db" "verification_tokens db' = verification_tokens db"
    "reset_tokens db' = reset_tokens db" "mfa_credentials db' = mfa_credentials db"
    "recovery_codes db' = recovery_codes db" "email_outbox db' = email_outbox db"
  using assms by (auto simp: audit_add_def split: if_splits)

lemma us_tables:
  assumes "user_save u db = Inr db'"
  shows "sessions db' = sessions db" "verification_tokens db' = verification_tokens db"
    "reset_tokens db' = reset_tokens db" "mfa_credentials db' = mfa_credentials db"
    "recovery_codes db' = recovery_codes db" "email_outbox db' = email_outbox db"
    "audit_logs db' = audit_logs db" "next_uuid db' = next_uuid db"
  using assms by (auto simp: user_save_def next_uuid_def split: option.splits)

lemma rts_tables:
  assumes "rt_save t db = Inr db'"
  shows "users db' = users db" "sessions db' = sessions db" "verification_tokens db' = verification_tokens db"
    "mfa_credentials db' = mfa_credentials db" "recovery_codes db' = recovery_codes db"
    "email_outbox db' = email_outbox db" "audit_logs db' = audit_logs db" "next_uuid db' = next_uuid db"
  using assms by (auto simp: rt_save_def next_uuid_def split: option.splits)

lemma mcs_tables:
  assumes "mc_save c db = Inr db'"
  shows "users db' = users db" "sessions db' = sessions db" "verification_tokens db' = verification_tokens db"
    "reset_tokens db' = reset_tokens db" "recovery_codes db' = recovery_codes db"
    "email_outbox db' = email_outbox db" "audit_logs db' = audit_logs db" "next_uuid db' = next_uuid db"
  using assms by (auto simp: mc_save_def next_uuid_def split: option.splits)

lemma rcs_tables:
  assumes "rc_save c db = Inr db'"
  shows "users db' = users db" "sessions db' = sessions db" "verification_tokens db' = verification_tokens db"
    "reset_tokens db' = reset_tokens db" "mfa_credentials db' = mfa_credentials db"
    "email_outbox db' = email_outbox db" "audit_logs db' = audit_logs db" "next_uuid db' = next_uuid db"
  using assms by (auto simp: rc_save_def next_uuid_def split: option.splits)

text \<open>The row the audit writer adds.\<close>

definition logged :: "audit_args \<Rightarrow> audit_entry \<Rightarrow> bool" where
  "logged a e \<longleftrightarrow> al_actor_user_id e = aa_actor_user_id a \<and> al_action e = aa_action a
     \<and> al_entity_type e = aa_entity_type a \<and> al_entity_id e = aa_entity_id a
     \<and> al_before_data e = aa_before_data a \<and> al_after_data e = aa_after_data a
     \<and> al_request_id e = aa_request_id a \<and> al_ip_hash e = aa_ip_hash a"

lemma audit_logged: "audit_add a db = Inr db' \<Longrightarrow> \<exists>e. audit_logs db' = audit_logs db @ [e] \<and> logged a e"
  by (auto simp: audit_add_def logged_def split: if_splits)

lemma audit_keeps_wf: "audit_add a db = Inr db' \<Longrightarrow> wf_db db \<Longrightarrow> wf_db db'"
  by (auto simp: audit_add_def elim!: wf_db_other_tables split: if_splits)

end
