(* ===== verification/Session_Tokens.thy ===== *)
theory Session_Tokens
  imports Libraries
begin

text \<open>
  identity/infrastructure/session_tokens.py: the signed access and refresh tokens.  PyJWT
  signs and checks the payload; it turns the \<open>datetime\<close> claims into whole seconds
  (\<open>wire\<close>).  Reading a token follows the source's order of checks, so that each malformed
  claim raises what Python raises for it.
\<close>

fun wire_value :: "pyval \<Rightarrow> pyval" where
  "wire_value (PTime t) = PInt (t div 1000000)"
| "wire_value v = v"

definition wire :: "payload \<Rightarrow> payload" where
  "wire p = map (\<lambda>(k, v). (k, wire_value v)) p"

lemma map_of_wire: "map_of (wire p) k = map_option wire_value (map_of p k)"
  by (induction p) (auto simp: wire_def)

record access_claims =
  ac_user_id :: uuid
  ac_session_id :: uuid
  ac_role :: user_role
  ac_email_verified :: bool
  ac_mfa_completed :: bool
  ac_auth_epoch :: int

record refresh_claims =
  rf_session_id :: uuid
  rf_token_version :: int

definition access_payload :: "settings \<Rightarrow> access_claims \<Rightarrow> timestamp \<Rightarrow> payload" where
  "access_payload cfg c now =
     [(''typ'', PStr ''access''), (''sub'', PStr (str_uuid (ac_user_id c))),
      (''sid'', PStr (str_uuid (ac_session_id c))), (''role'', PStr (role_value (ac_role c))),
      (''ver'', PBool (ac_email_verified c)), (''mfa'', PBool (ac_mfa_completed c)),
      (''auth_epoch'', PInt (ac_auth_epoch c)), (''iat'', PTime now),
      (''exp'', PTime (now + minutes (access_token_minutes cfg)))]"

definition issue_access_token :: "libs \<Rightarrow> settings \<Rightarrow> access_claims \<Rightarrow> timestamp \<Rightarrow> string" where
  "issue_access_token L cfg c now = jwt_encode L (access_payload cfg c now) (jwt_signing_key cfg)"

definition refresh_payload :: "uuid \<Rightarrow> int \<Rightarrow> timestamp \<Rightarrow> timestamp \<Rightarrow> payload" where
  "refresh_payload session_id token_version expires_at now =
     [(''typ'', PStr ''refresh''), (''sid'', PStr (str_uuid session_id)),
      (''tv'', PInt token_version), (''iat'', PTime now), (''exp'', PTime expires_at)]"

definition issue_refresh_token ::
  "libs \<Rightarrow> settings \<Rightarrow> uuid \<Rightarrow> int \<Rightarrow> timestamp \<Rightarrow> timestamp \<Rightarrow> string" where
  "issue_refresh_token L cfg session_id token_version expires_at now =
     jwt_encode L (refresh_payload session_id token_version expires_at now) (jwt_signing_key cfg)"

definition decode_token :: "libs \<Rightarrow> settings \<Rightarrow> string \<Rightarrow> timestamp \<Rightarrow> string \<Rightarrow> app_error + payload" where
  "decode_token L cfg expected_type now token =
     (case jwt_decode L token (jwt_signing_key cfg) now of
        None \<Rightarrow> Inl InvalidSessionError
      | Some p \<Rightarrow> if map_of p ''typ'' \<noteq> Some (PStr expected_type) then Inl InvalidSessionError else Inr p)"

section \<open>Reading claims\<close>

text \<open>\<open>payload[k]\<close>, \<open>UUID(v)\<close>, \<open>UserRole(v)\<close> and \<open>int(v)\<close> on a decoded value.\<close>

definition get_claim :: "payload \<Rightarrow> string \<Rightarrow> py_exc + pyval" where
  "get_claim p k = (case map_of p k of None \<Rightarrow> Inl KeyError | Some v \<Rightarrow> Inr v)"

definition uuid_of :: "pyval \<Rightarrow> py_exc + uuid" where
  "uuid_of v = (case v of
       PStr s \<Rightarrow> (case parse_uuid s of None \<Rightarrow> Inl ValueError | Some u \<Rightarrow> Inr u)
     | PNone \<Rightarrow> Inl TypeError
     | _ \<Rightarrow> Inl AttributeError)"

definition role_of :: "pyval \<Rightarrow> py_exc + user_role" where
  "role_of v = (case parse_role v of None \<Rightarrow> Inl ValueError | Some r \<Rightarrow> Inr r)"

definition trunc_float :: "int \<Rightarrow> int \<Rightarrow> int" where
  "trunc_float m e = (if 0 \<le> e then m * 2 ^ nat e else sgn m * (\<bar>m\<bar> div 2 ^ nat (- e)))"

definition int_of :: "pyval \<Rightarrow> py_exc + int" where
  "int_of v = (case v of
       PInt i \<Rightarrow> Inr i
     | PBool b \<Rightarrow> Inr (if b then 1 else 0)
     | PFloat m e \<Rightarrow> Inr (trunc_float m e)
     | PStr s \<Rightarrow> (case py_int s of None \<Rightarrow> Inl ValueError | Some i \<Rightarrow> Inr i)
     | _ \<Rightarrow> Inl TypeError)"

definition then_claim :: "py_exc + 'a \<Rightarrow> ('a \<Rightarrow> py_exc + 'b) \<Rightarrow> py_exc + 'b" where
  "then_claim m f = (case m of Inl e \<Rightarrow> Inl e | Inr a \<Rightarrow> f a)"

lemma then_claim_simps [simp]: "then_claim (Inl e) f = Inl e" "then_claim (Inr a) f = f a"
  by (simp_all add: then_claim_def)

text \<open>The dataclass constructor call: the arguments are evaluated left to right.\<close>

definition read_access_claims :: "payload \<Rightarrow> int \<Rightarrow> py_exc + access_claims" where
  "read_access_claims p raw_epoch =
     then_claim (then_claim (get_claim p ''sub'') uuid_of) (\<lambda>uid.
     then_claim (then_claim (get_claim p ''sid'') uuid_of) (\<lambda>sid.
     then_claim (then_claim (get_claim p ''role'') role_of) (\<lambda>role.
     then_claim (get_claim p ''ver'') (\<lambda>ver.
       Inr \<lparr>ac_user_id = uid, ac_session_id = sid, ac_role = role, ac_email_verified = py_truth ver,
            ac_mfa_completed = (case map_of p ''mfa'' of None \<Rightarrow> False | Some v \<Rightarrow> py_truth v),
            ac_auth_epoch = raw_epoch\<rparr>))))"

text \<open>An absent epoch reads as 0; a value that is no plain non-negative \<open>int\<close> is refused.\<close>

definition epoch_claim :: "payload \<Rightarrow> int option" where
  "epoch_claim p = (case map_of p ''auth_epoch'' of
       None \<Rightarrow> Some 0
     | Some (PInt i) \<Rightarrow> if i < 0 then None else Some i
     | Some _ \<Rightarrow> None)"

definition decode_access_token :: "libs \<Rightarrow> settings \<Rightarrow> timestamp \<Rightarrow> string \<Rightarrow> app_error + access_claims" where
  "decode_access_token L cfg now token = (case decode_token L cfg ''access'' now token of
       Inl e \<Rightarrow> Inl e
     | Inr p \<Rightarrow> (case epoch_claim p of
           None \<Rightarrow> Inl InvalidSessionError
         | Some ep \<Rightarrow> (case read_access_claims p ep of
               Inr c \<Rightarrow> Inr c
             | Inl e \<Rightarrow> if e \<in> {KeyError, ValueError} then Inl InvalidSessionError else Inl (Uncaught e))))"

definition decode_refresh_token :: "libs \<Rightarrow> settings \<Rightarrow> timestamp \<Rightarrow> string \<Rightarrow> app_error + refresh_claims" where
  "decode_refresh_token L cfg now token = (case decode_token L cfg ''refresh'' now token of
       Inl e \<Rightarrow> Inl e
     | Inr p \<Rightarrow> (case then_claim (then_claim (get_claim p ''sid'') uuid_of) (\<lambda>sid.
                     then_claim (then_claim (get_claim p ''tv'') int_of) (\<lambda>tv.
                       Inr \<lparr>rf_session_id = sid, rf_token_version = tv\<rparr>)) of
           Inr c \<Rightarrow> Inr c
         | Inl e \<Rightarrow> if e \<in> {KeyError, TypeError, ValueError} then Inl InvalidSessionError
                   else Inl (Uncaught e)))"

section \<open>Round trips and separation of the two token types\<close>

lemmas claim_reading = read_access_claims_def get_claim_def uuid_of_def role_of_def int_of_def
  epoch_claim_def decode_token_def map_of_wire parse_str_uuid

lemma parse_role_value [simp]: "parse_role (PStr (role_value r)) = Some r"
  by (cases r) (simp_all add: parse_role_def role_value_def)

lemma access_payload_claims:
  "map_of (access_payload cfg c now) ''typ'' = Some (PStr ''access'')"
  "map_of (access_payload cfg c now) ''sub'' = Some (PStr (str_uuid (ac_user_id c)))"
  "map_of (access_payload cfg c now) ''sid'' = Some (PStr (str_uuid (ac_session_id c)))"
  "map_of (access_payload cfg c now) ''role'' = Some (PStr (role_value (ac_role c)))"
  "map_of (access_payload cfg c now) ''ver'' = Some (PBool (ac_email_verified c))"
  "map_of (access_payload cfg c now) ''mfa'' = Some (PBool (ac_mfa_completed c))"
  "map_of (access_payload cfg c now) ''auth_epoch'' = Some (PInt (ac_auth_epoch c))"
  by (simp_all add: access_payload_def)

lemma refresh_payload_claims:
  "map_of (refresh_payload sid v e now) ''typ'' = Some (PStr ''refresh'')"
  "map_of (refresh_payload sid v e now) ''sid'' = Some (PStr (str_uuid sid))"
  "map_of (refresh_payload sid v e now) ''tv'' = Some (PInt v)"
  by (simp_all add: refresh_payload_def)

text \<open>C40: a token that PyJWT reads back as it was signed yields exactly the claims it was
  issued with, for every non-negative epoch.\<close>

theorem access_token_roundtrip:
  assumes "jwt_decode L (issue_access_token L cfg c iss) (jwt_signing_key cfg) now
      = Some (wire (access_payload cfg c iss))"
    and "0 \<le> ac_auth_epoch c"
  shows "decode_access_token L cfg now (issue_access_token L cfg c iss) = Inr c"
  using assms
  by (simp add: decode_access_token_def claim_reading access_payload_claims)

text \<open>The same for refresh tokens.\<close>

theorem refresh_token_roundtrip:
  assumes "jwt_decode L (issue_refresh_token L cfg sid v e iss) (jwt_signing_key cfg) now
      = Some (wire (refresh_payload sid v e iss))"
  shows "decode_refresh_token L cfg now (issue_refresh_token L cfg sid v e iss)
     = Inr \<lparr>rf_session_id = sid, rf_token_version = v\<rparr>"
  using assms
  by (simp add: decode_refresh_token_def claim_reading refresh_payload_claims)

text \<open>Although both are signed with one key, an access token is refused where a refresh
  token is expected, and the other way round.\<close>

theorem token_types_separated:
  assumes "jwt_decode L ta (jwt_signing_key cfg) now = Some (wire (access_payload cfg c iss))"
    and "jwt_decode L tr (jwt_signing_key cfg) now = Some (wire (refresh_payload sid v e iss))"
  shows "decode_refresh_token L cfg now ta = Inl InvalidSessionError
    \<and> decode_access_token L cfg now tr = Inl InvalidSessionError"
  using assms
  by (simp add: decode_refresh_token_def decode_access_token_def claim_reading
      access_payload_claims refresh_payload_claims)

text \<open>A signed access token never fails open on a malformed epoch: if it is accepted, its
  epoch claim was absent (and reads 0) or a non-negative integer (and reads as itself).\<close>

theorem epoch_claim_strict:
  assumes "decode_access_token L cfg now token = Inr c"
  shows "\<exists>p. jwt_decode L token (jwt_signing_key cfg) now = Some p \<and> 0 \<le> ac_auth_epoch c
    \<and> (map_of p ''auth_epoch'' = None \<and> ac_auth_epoch c = 0
       \<or> map_of p ''auth_epoch'' = Some (PInt (ac_auth_epoch c)))"
proof -
  from assms obtain p ep where p: "jwt_decode L token (jwt_signing_key cfg) now = Some p"
    and ep: "epoch_claim p = Some ep" and c: "read_access_claims p ep = Inr c"
    by (auto simp: decode_access_token_def decode_token_def split: option.splits sum.splits if_splits)
  from c have "ac_auth_epoch c = ep"
    by (auto simp: read_access_claims_def then_claim_def split: sum.splits)
  with p ep show ?thesis
    by (auto simp: epoch_claim_def split: option.splits pyval.splits if_splits)
qed

end
