(* ===== verification/Auth_Redis.thy ===== *)
theory Auth_Redis
  imports Session_Tokens
begin

text \<open>
  The two Redis-backed services of identity/application/services: the login throttle
  (login_throttle.py) and the MFA session store with its login challenges (mfa_session.py).
\<close>

section \<open>Login throttle\<close>

definition FREE_ATTEMPTS :: int where "FREE_ATTEMPTS = 3"
definition MAX_DELAY_SECONDS :: int where "MAX_DELAY_SECONDS = 8"
definition LOCKOUT_AT_ATTEMPT :: int where "LOCKOUT_AT_ATTEMPT = 10"
definition LOCKOUT_SECONDS :: int where "LOCKOUT_SECONDS = 15 * 60"

text \<open>Whole seconds; the floats of the source are the same integers.\<close>

definition delay_for :: "int \<Rightarrow> int" where
  "delay_for attempt = (if attempt \<le> FREE_ATTEMPTS then 0
     else min (2 ^ nat (attempt - FREE_ATTEMPTS - 1)) MAX_DELAY_SECONDS)"

definition throttle_key :: "string \<Rightarrow> string option \<Rightarrow> string" where
  "throttle_key email ip = ''login-throttle:'' @ take 32 (sha256_hex (py_lower email)) @ '':''
     @ (case ip of None \<Rightarrow> ''unknown'' | Some i \<Rightarrow> if i = [] then ''unknown'' else i)"

text \<open>\<open>Inr\<close> carries the seconds the request sleeps.\<close>

definition throttle_check :: "timestamp \<Rightarrow> string \<Rightarrow> string option \<Rightarrow> redis \<Rightarrow> app_error + int" where
  "throttle_check now email ip r =
     (case (case r_get now (throttle_key email ip) r of None \<Rightarrow> Some 0
            | Some raw \<Rightarrow> if raw = [] then Some 0 else py_int raw) of
        None \<Rightarrow> Inl (Uncaught ValueError)
      | Some failures \<Rightarrow>
          (let attempt = failures + 1 in
           if attempt \<ge> LOCKOUT_AT_ATTEMPT then Inl (AccountLockedError LOCKOUT_SECONDS)
           else Inr (delay_for attempt)))"

definition record_failure :: "timestamp \<Rightarrow> string \<Rightarrow> string option \<Rightarrow> redis \<Rightarrow> redis" where
  "record_failure now email ip r = (let key = throttle_key email ip in
     (case r_incr now key r of None \<Rightarrow> r | Some (n, r1) \<Rightarrow> r_expire now key LOCKOUT_SECONDS r1))"

definition throttle_reset :: "string \<Rightarrow> string option \<Rightarrow> redis \<Rightarrow> redis" where
  "throttle_reset email ip r = r_delete (throttle_key email ip) r"

lemmas throttle_numbers = FREE_ATTEMPTS_def MAX_DELAY_SECONDS_def LOCKOUT_AT_ATTEMPT_def LOCKOUT_SECONDS_def

text \<open>Failures at the given times, each within the lockout period of the one before.\<close>

fun failures_at :: "string \<Rightarrow> string option \<Rightarrow> redis \<Rightarrow> timestamp list \<Rightarrow> redis" where
  "failures_at email ip r [] = r"
| "failures_at email ip r (t # ts) = failures_at email ip (record_failure t email ip r) ts"

fun close_together :: "timestamp \<Rightarrow> timestamp list \<Rightarrow> bool" where
  "close_together t [] = True"
| "close_together t (u # us) = (u < t + seconds LOCKOUT_SECONDS \<and> close_together u us)"

lemma py_str_int_nonempty [simp]: "py_str_int i \<noteq> []"
  by (simp add: py_str_int_def)

lemma record_failure_first:
  "r_get t (throttle_key email ip) r = None
    \<Longrightarrow> counter_at (throttle_key email ip) 1 (Some (t + seconds LOCKOUT_SECONDS)) (record_failure t email ip r)"
  by (simp add: record_failure_def r_incr_fresh r_expire_def r_get_def counter_at_def)

lemma record_failure_next:
  "counter_at (throttle_key email ip) n (Some d) r \<Longrightarrow> t < d
    \<Longrightarrow> counter_at (throttle_key email ip) (n + 1) (Some (t + seconds LOCKOUT_SECONDS)) (record_failure t email ip r)"
  by (simp add: record_failure_def r_incr_live r_expire_def r_get_def) (simp add: counter_at_def)

lemma failures_at_counter:
  assumes "counter_at (throttle_key email ip) n (Some (t + seconds LOCKOUT_SECONDS)) r"
    and "close_together t ts"
  shows "counter_at (throttle_key email ip) (n + int (length ts))
    (Some (last (t # ts) + seconds LOCKOUT_SECONDS)) (failures_at email ip r ts)"
  using assms
proof (induction ts arbitrary: n t r)
  case (Cons u us)
  then have "counter_at (throttle_key email ip) (n + 1) (Some (u + seconds LOCKOUT_SECONDS)) (record_failure u email ip r)"
    using record_failure_next by simp
  from Cons.IH [OF this] Cons.prems(2) show ?case by (simp add: algebra_simps)
qed simp

lemma throttle_check_counter:
  "counter_at (throttle_key email ip) n (Some d) r \<Longrightarrow>
     throttle_check now email ip r =
       (if now < d then (if n + 1 \<ge> LOCKOUT_AT_ATTEMPT then Inl (AccountLockedError LOCKOUT_SECONDS)
                         else Inr (delay_for (n + 1)))
        else Inr (delay_for 1))"
  by (simp add: throttle_check_def r_get_def counter_at_def py_int_str_int throttle_numbers Let_def)

text \<open>C36: after \<open>n\<close> consecutive failures, the next attempt within the period waits
  0, 0, 0, 1, 2, 4, 8, 8, 8 seconds for \<open>n = 0 \<dots> 8\<close> and is refused for 15 minutes from
  \<open>n = 9\<close> on; once 15 minutes have passed since the last failure, it is free again.\<close>

theorem throttle_schedule:
  assumes "r_get t (throttle_key email ip) r = None" and "close_together t ts"
    and "n = 1 + int (length ts)" and "final = last (t # ts)"
  shows "throttle_check now email ip (failures_at email ip r (t # ts)) =
    (if now < final + seconds (15 * 60)
     then (if n \<ge> 9 then Inl (AccountLockedError 900)
           else Inr (if n \<le> 2 then 0 else if n = 3 then 1 else if n = 4 then 2 else if n = 5 then 4 else 8))
     else Inr 0)"
proof -
  have cnt: "counter_at (throttle_key email ip) n (Some (final + seconds LOCKOUT_SECONDS))
      (failures_at email ip r (t # ts))"
    using failures_at_counter [OF record_failure_first [OF assms(1)] assms(2)] assms(3,4) by simp
  have eight: "(2::int) ^ nat (n - 3) \<ge> 8" if "6 \<le> n"
    using that power_increasing [of 3 "nat (n - 3)" "2::int"] by simp
  have "1 \<le> n" using assms(3) by simp
  then have "n = 1 \<or> n = 2 \<or> n = 3 \<or> n = 4 \<or> n = 5 \<or> 6 \<le> n" by arith
  with cnt eight show ?thesis
    by (auto simp: throttle_check_counter delay_for_def throttle_numbers)
qed

section \<open>MFA session store\<close>

definition CHALLENGE_TTL_SECONDS :: int where "CHALLENGE_TTL_SECONDS = 5 * 60"

record pending_challenge =
  pc_user_id :: uuid
  pc_epoch :: int

definition completed_key :: "uuid \<Rightarrow> string" where
  "completed_key session_id = ''mfa:completed:'' @ str_uuid session_id"

definition challenge_key :: "string \<Rightarrow> string" where
  "challenge_key challenge_id = ''mfa:challenge:'' @ challenge_id"

definition mark_completed :: "timestamp \<Rightarrow> uuid \<Rightarrow> int \<Rightarrow> redis \<Rightarrow> redis" where
  "mark_completed now session_id ttl_seconds r =
     r_set now (completed_key session_id) ''1'' (max ttl_seconds 1) r"

definition is_completed :: "timestamp \<Rightarrow> uuid \<Rightarrow> redis \<Rightarrow> bool" where
  "is_completed now session_id r = (r_get now (completed_key session_id) r \<noteq> None)"

definition clear_completed :: "uuid \<Rightarrow> redis \<Rightarrow> redis" where
  "clear_completed session_id r = r_delete (completed_key session_id) r"

text \<open>\<open>challenge_id\<close> is the value \<open>secrets.token_urlsafe(24)\<close> returned.\<close>

definition create_login_challenge :: "timestamp \<Rightarrow> string \<Rightarrow> uuid \<Rightarrow> int \<Rightarrow> redis \<Rightarrow> redis" where
  "create_login_challenge now challenge_id user_id auth_epoch r =
     r_set now (challenge_key challenge_id) (str_uuid user_id @ '':'' @ py_str_int auth_epoch)
       CHALLENGE_TTL_SECONDS r"

definition parse_challenge :: "string \<Rightarrow> pending_challenge option" where
  "parse_challenge value = (case py_partition CHR '':'' value of (user_part, _, epoch_part) \<Rightarrow>
     (case parse_uuid user_part of
        None \<Rightarrow> None
      | Some user_id \<Rightarrow>
          (let epoch = (if epoch_part = [] then -1
                        else case py_int epoch_part of None \<Rightarrow> -1 | Some i \<Rightarrow> i)
           in Some \<lparr>pc_user_id = user_id, pc_epoch = epoch\<rparr>)))"

definition resolve_login_challenge :: "timestamp \<Rightarrow> string \<Rightarrow> redis \<Rightarrow> pending_challenge option" where
  "resolve_login_challenge now challenge_id r = (case r_get now (challenge_key challenge_id) r of
       None \<Rightarrow> None
     | Some value \<Rightarrow> parse_challenge value)"

definition consume_login_challenge :: "string \<Rightarrow> redis \<Rightarrow> redis" where
  "consume_login_challenge challenge_id r = r_delete (challenge_key challenge_id) r"

lemma parse_challenge_format:
  "parse_challenge (str_uuid u @ '':'' @ py_str_int e) = Some \<lparr>pc_user_id = u, pc_epoch = e\<rparr>"
proof -
  have "CHR '':'' \<notin> set (str_uuid u)"
    by (auto dest!: str_uuid_chars dest: hex_char_plain)
  from py_partition_app [OF this, of "py_str_int e"] show ?thesis
    by (simp add: parse_challenge_def parse_str_uuid py_int_str_int)
qed

text \<open>A challenge resolves to the account and the epoch it was created for during exactly
  its five minutes, unless it is consumed, and other challenges are unaffected.\<close>

theorem challenge_roundtrip:
  assumes "created = create_login_challenge t cid u e r"
  shows "resolve_login_challenge now cid created
      = (if now < t + seconds 300 then Some \<lparr>pc_user_id = u, pc_epoch = e\<rparr> else None)
    \<and> resolve_login_challenge now cid (consume_login_challenge cid created) = None
    \<and> (\<forall>other. other \<noteq> cid \<longrightarrow>
         resolve_login_challenge now other created = resolve_login_challenge now other r)"
  unfolding assms
  by (auto simp: resolve_login_challenge_def create_login_challenge_def consume_login_challenge_def
      r_get_def r_set_def r_delete_def CHALLENGE_TTL_SECONDS_def challenge_key_def
      parse_challenge_format [simplified])

end
