(* ===== verification/Session_Commands.thy ===== *)
theory Session_Commands
  imports Unit_Of_Work Auth_Redis
begin

text \<open>
  Login, refresh and logout (commands/login.py, refresh_session.py, logout.py) with the MFA gate
  of services/admin_mfa_gate.py.  Login is two definitions: \<open>login_unlocked\<close> runs before the
  user row is locked, \<open>login_locked\<close> from the lock to the end of the transaction; other
  requests may commit between them.  \<open>login\<close> is their sequence.
\<close>

section \<open>Results\<close>

record login_result =
  lr_user_id :: uuid
  lr_email :: string
  lr_session_id :: uuid
  lr_session_expires_at :: timestamp
  lr_role :: user_role
  lr_email_verified :: bool
  lr_access_token :: string
  lr_refresh_token :: string
  lr_csrf_token :: string

datatype login_outcome = LoggedIn login_result | MfaChallengeRequired uuid int

record login_args =
  la_email :: string
  la_password :: string
  la_ip :: "string option"
  la_ip_hash :: "string option"
  la_user_agent :: "string option"
  la_request_id :: "string option"

definition challenge_required :: "user \<Rightarrow> database \<Rightarrow> bool" where
  "challenge_required u db = (if u_role u \<noteq> ADMIN then False
     else case mc_by_user_id (u_id u) db of None \<Rightarrow> False | Some c \<Rightarrow> is_enabled c)"

definition claims_of :: "user \<Rightarrow> uuid \<Rightarrow> bool \<Rightarrow> access_claims" where
  "claims_of u session_id mfa = \<lparr>ac_user_id = u_id u, ac_session_id = session_id, ac_role = u_role u,
     ac_email_verified = is_verified u, ac_mfa_completed = mfa, ac_auth_epoch = u_auth_epoch u\<rparr>"

section \<open>Creating a session\<close>

text \<open>The tail of \<open>Login.execute\<close>, which \<open>CompleteMfaLogin.execute\<close> repeats with
  \<open>mfa_completed=True\<close>.\<close>

definition open_session ::
  "app \<Rightarrow> timestamp \<Rightarrow> uuid \<Rightarrow> bool \<Rightarrow> user \<Rightarrow> string option \<Rightarrow> string option \<Rightarrow> string option
     \<Rightarrow> login_result cmd" where
  "open_session A now session_id mfa u ip_hash user_agent request_id =
     (let expires_at = now + days (refresh_token_days (app_cfg A));
          refresh_token = issue_refresh_token (app_lib A) (app_cfg A) session_id 1 expires_at now
      in andthen (exec (session_add session_id (u_id u) (hash_token refresh_token) expires_at ip_hash user_agent)) (\<lambda>_.
         andthen (exec (audit_add \<lparr>aa_actor_user_id = Some (u_id u), aa_action = ''user.logged_in'',
           aa_entity_type = ''Session'', aa_entity_id = Some session_id, aa_before_data = None,
           aa_after_data = None, aa_request_id = request_id, aa_ip_hash = ip_hash\<rparr>)) (\<lambda>_.
         ret \<lparr>lr_user_id = u_id u, lr_email = u_email u, lr_session_id = session_id,
           lr_session_expires_at = expires_at, lr_role = u_role u, lr_email_verified = is_verified u,
           lr_access_token = issue_access_token (app_lib A) (app_cfg A) (claims_of u session_id mfa) now,
           lr_refresh_token = refresh_token,
           lr_csrf_token = csrf_token_for_session (app_cfg A) session_id\<rparr>)))"

section \<open>Login\<close>

definition DUMMY_PASSWORD_HASH :: "app \<Rightarrow> string" where
  "DUMMY_PASSWORD_HASH A = hash_password (app_lib A) (app_salt A) ''timing-equalisation-placeholder''"

text \<open>Up to the lock: the user row as read unlocked, whose hash Argon2 has authenticated.\<close>

definition login_unlocked ::
  "app \<Rightarrow> timestamp \<Rightarrow> login_args \<Rightarrow> database \<Rightarrow> redis \<Rightarrow> (app_error + user) \<times> redis" where
  "login_unlocked A now a db r =
     (case throttle_check now (la_email a) (la_ip a) r of
        Inl e \<Rightarrow> (Inl e, r)
      | Inr slept \<Rightarrow>
          (let failed = record_failure now (la_email a) (la_ip a) r in
           case user_by_email (la_email a) db of
             None \<Rightarrow> (case verify_password (app_lib A) (la_password a) (DUMMY_PASSWORD_HASH A) of
                 Inl e \<Rightarrow> (Inl e, r) | Inr _ \<Rightarrow> (Inl InvalidCredentialsError, failed))
           | Some u \<Rightarrow> (case verify_password (app_lib A) (la_password a) (u_password_hash u) of
                 Inl e \<Rightarrow> (Inl e, r)
               | Inr False \<Rightarrow> (Inl InvalidCredentialsError, failed)
               | Inr True \<Rightarrow> if \<not> can_authenticate u then (Inl (AccountDisabledError (u_id u)), r)
                   else (Inr u, throttle_reset (la_email a) (la_ip a) r))))"

text \<open>From the lock on: \<open>user_id\<close> and \<open>verified_hash\<close> are what the unlocked read gave.\<close>

definition login_locked ::
  "app \<Rightarrow> timestamp \<Rightarrow> uuid \<Rightarrow> login_args \<Rightarrow> uuid \<Rightarrow> string \<Rightarrow> login_outcome cmd" where
  "login_locked A now session_id a user_id verified_hash =
     andthen (query (user_by_id user_id)) (\<lambda>found. case found of
       None \<Rightarrow> raise InvalidCredentialsError
     | Some u \<Rightarrow>
         if \<not> can_authenticate u then raise (AccountDisabledError (u_id u))
         else if u_password_hash u \<noteq> verified_hash then raise InvalidCredentialsError
         else andthen (query (challenge_required u)) (\<lambda>challenge.
           if challenge then
             andthen (exec (audit_add \<lparr>aa_actor_user_id = Some (u_id u),
               aa_action = ''user.mfa_challenge_issued'', aa_entity_type = ''User'',
               aa_entity_id = Some (u_id u), aa_before_data = None, aa_after_data = None,
               aa_request_id = la_request_id a, aa_ip_hash = la_ip_hash a\<rparr>)) (\<lambda>_.
             ret (MfaChallengeRequired (u_id u) (u_auth_epoch u)))
           else
             andthen (open_session A now session_id False u (la_ip_hash a) (la_user_agent a) (la_request_id a))
               (\<lambda>res. ret (LoggedIn res))))"

definition login ::
  "app \<Rightarrow> timestamp \<Rightarrow> uuid \<Rightarrow> login_args \<Rightarrow> database \<Rightarrow> redis
     \<Rightarrow> (app_error + login_outcome) \<times> database \<times> redis" where
  "login A now session_id a db r = (case login_unlocked A now a db r of
       (Inl e, r') \<Rightarrow> (Inl e, db, r')
     | (Inr u, r') \<Rightarrow> (case login_locked A now session_id a (u_id u) (u_password_hash u) db of
           (res, db') \<Rightarrow> (res, db', r')))"

section \<open>Refresh\<close>

record refresh_result =
  rr_session_id :: uuid
  rr_access_token :: string
  rr_refresh_token :: string
  rr_csrf_token :: string

definition audit_session :: "session \<Rightarrow> string \<Rightarrow> string option \<Rightarrow> string option \<Rightarrow> audit_args" where
  "audit_session s action request_id ip_hash =
     \<lparr>aa_actor_user_id = Some (s_user_id s), aa_action = action, aa_entity_type = ''Session'',
      aa_entity_id = Some (s_id s), aa_before_data = None, aa_after_data = None,
      aa_request_id = request_id, aa_ip_hash = ip_hash\<rparr>"

definition refresh_session ::
  "app \<Rightarrow> timestamp \<Rightarrow> string \<Rightarrow> string option \<Rightarrow> string option \<Rightarrow> bool \<Rightarrow> refresh_result cmd" where
  "refresh_session A now raw request_id ip_hash mfa_completed =
     andthen (from_entity (decode_refresh_token (app_lib A) (app_cfg A) now raw)) (\<lambda>claims.
     andthen (query (session_owner_id (rf_session_id claims))) (\<lambda>owner_id. case owner_id of
       None \<Rightarrow> raise InvalidSessionError
     | Some owner \<Rightarrow>
         andthen (query (user_by_id owner)) (\<lambda>found_user.
         andthen (query (session_by_id (rf_session_id claims))) (\<lambda>found_session. case found_session of
           None \<Rightarrow> raise InvalidSessionError
         | Some s \<Rightarrow> (case authorize_rotation (hash_token raw) (rf_token_version claims) now s of
               Some (RefreshTokenReuseError i) \<Rightarrow>
                 andthen (exec (session_save (mark_reuse_detected now s))) (\<lambda>_.
                 andthen (exec (audit_add (audit_session s ''session.reuse_detected'' request_id ip_hash))) (\<lambda>_.
                 raise (RefreshTokenReuseError i)))
             | Some e \<Rightarrow> raise e
             | None \<Rightarrow> (case (case found_user of None \<Rightarrow> None
                            | Some u \<Rightarrow> if can_authenticate u then Some u else None) of
                   None \<Rightarrow>
                     andthen (exec (session_save (revoke now s))) (\<lambda>_.
                     raise (SessionOwnerRevokedError (s_id s)))
                 | Some u \<Rightarrow>
                     (let refresh_token = issue_refresh_token (app_lib A) (app_cfg A) (s_id s)
                            (s_token_version s + 1) (s_expires_at s) now
                      in andthen (exec (session_save (rotate_session (hash_token refresh_token) now s))) (\<lambda>_.
                         ret \<lparr>rr_session_id = s_id s,
                           rr_access_token = issue_access_token (app_lib A) (app_cfg A)
                             (claims_of u (s_id s) mfa_completed) now,
                           rr_refresh_token = refresh_token,
                           rr_csrf_token = csrf_token_for_session (app_cfg A) (s_id s)\<rparr>))))))))"

section \<open>Logout\<close>

definition logout :: "timestamp \<Rightarrow> uuid \<Rightarrow> string option \<Rightarrow> string option \<Rightarrow> unit cmd" where
  "logout now session_id request_id ip_hash =
     andthen (query (session_by_id session_id)) (\<lambda>found. case found of
       None \<Rightarrow> ret ()
     | Some s \<Rightarrow> if is_revoked s then ret ()
         else andthen (exec (session_save (revoke now s))) (\<lambda>_.
              exec (audit_add (audit_session s ''user.logged_out'' request_id ip_hash))))"

section \<open>The schema is preserved\<close>

lemma keeps_open_session [keeps]: "preserves wf_db (open_session A now sid mfa u ih ua rid)"
  unfolding open_session_def Let_def by (intro keeps)

lemma keeps_login_locked [keeps]: "preserves wf_db (login_locked A now sid a i h)"
  unfolding login_locked_def Let_def by (intro keeps)

lemma keeps_logout [keeps]: "preserves wf_db (logout now sid rid ih)"
  unfolding logout_def by (intro keeps)

lemma preserves_case_rotation [keeps]:
  assumes "\<And>i. preserves I (reuse i)" "\<And>e. preserves I (other e)" "preserves I ok"
  shows "preserves I (case x of Some (RefreshTokenReuseError i) \<Rightarrow> reuse i | Some e \<Rightarrow> other e | None \<Rightarrow> ok)"
  using assms by (auto split: option.splits app_error.splits)

lemma keeps_refresh [keeps]: "preserves wf_db (refresh_session A now raw rid ih mfa)"
  unfolding refresh_session_def Let_def by (intro keeps)

section \<open>Login\<close>

lemma open_session_effect:
  assumes "open_session A now sid mfa u ih ua rid db = (Inr res, db')"
  shows "users db' = users db"
    and "sessions db' = sessions db @ [\<lparr>s_id = sid, s_user_id = u_id u,
      s_refresh_token_hash = hash_token (lr_refresh_token res), s_token_version = 1,
      s_expires_at = now + days (refresh_token_days (app_cfg A)), s_last_used_at = None,
      s_rotated_at = None, s_revoked_at = None, s_reuse_detected_at = None, s_ip_hash = ih,
      s_user_agent = ua, s_created_at = tx_now db\<rparr>]"
    and "session_by_id sid db = None"
    and "lr_session_id res = sid" and "lr_user_id res = u_id u"
    and "lr_refresh_token res = issue_refresh_token (app_lib A) (app_cfg A) sid 1
           (now + days (refresh_token_days (app_cfg A))) now"
    and "lr_access_token res = issue_access_token (app_lib A) (app_cfg A) (claims_of u sid mfa) now"
    and "reset_tokens db' = reset_tokens db" and "mfa_credentials db' = mfa_credentials db"
  using assms
  by (auto simp: open_session_def Let_def succeeds session_add_def audit_add_def split: if_splits)

text \<open>What a session minted by login proves about the account.\<close>

lemma login_locked_LoggedIn:
  assumes "login_locked A now sid a i h db = (Inr (LoggedIn res), db')"
  obtains u where "user_by_id i db = Some u" and "can_authenticate u" and "u_password_hash u = h"
    and "\<not> challenge_required u db"
    and "open_session A now sid False u (la_ip_hash a) (la_user_agent a) (la_request_id a) db = (Inr res, db')"
  using assms
  by (auto simp: login_locked_def succeeds split: option.splits if_splits)

lemma login_locked_challenge:
  assumes "login_locked A now sid a i h db = (Inr (MfaChallengeRequired uid ep), db')"
  obtains u where "user_by_id i db = Some u" and "can_authenticate u" and "u_password_hash u = h"
    and "challenge_required u db" and "uid = u_id u" and "ep = u_auth_epoch u"
    and "sessions db' = sessions db" and "users db' = users db"
  using assms
  by (auto simp: login_locked_def succeeds audit_add_def split: option.splits if_splits)

lemma login_unlocked_Inr:
  assumes "login_unlocked A now a db r = (Inr u, r')"
  shows "user_by_email (la_email a) db = Some u" and "can_authenticate u"
    and "argon2_verify (app_lib A) (u_password_hash u) (la_password a) = Verified"
    and "r' = throttle_reset (la_email a) (la_ip a) r"
  using assms
  by (auto simp: login_unlocked_def Let_def verify_password_def
      split: sum.splits option.splits if_splits bool.splits argon2_outcome.splits)

lemma login_Inr:
  "login A now sid a db r = (Inr out, db', r') \<longleftrightarrow>
     (\<exists>u. login_unlocked A now a db r = (Inr u, r')
        \<and> login_locked A now sid a (u_id u) (u_password_hash u) db = (Inr out, db'))"
  by (auto simp: login_def split: prod.splits sum.splits)

text \<open>C12: whenever login opens a session, the address belongs to a live account, Argon2 accepted
  the password against the stored hash, the account is not an administrator with an enabled
  second factor, and exactly one session is added: unrevoked, of version 1, owned by that
  account, living for the configured number of days.\<close>

theorem login_opens_session_only_if:
  assumes "login A now sid a db r = (Inr (LoggedIn res), db', r')" and "wf_db db"
  shows "\<exists>u. user_by_email (la_email a) db = Some u \<and> can_authenticate u
      \<and> argon2_verify (app_lib A) (u_password_hash u) (la_password a) = Verified
      \<and> \<not> (u_role u = ADMIN \<and> (\<exists>c. mc_by_user_id (u_id u) db = Some c \<and> is_enabled c))
      \<and> users db' = users db
      \<and> (\<exists>s. sessions db' = sessions db @ [s] \<and> s_id s = lr_session_id res \<and> s_user_id s = u_id u
           \<and> s_token_version s = 1 \<and> \<not> is_revoked s
           \<and> s_expires_at s = now + days (refresh_token_days (app_cfg A)))"
proof -
  from assms(1) obtain u where un: "login_unlocked A now a db r = (Inr u, r')"
    and lo: "login_locked A now sid a (u_id u) (u_password_hash u) db = (Inr (LoggedIn res), db')"
    by (auto simp: login_Inr)
  note pre = login_unlocked_Inr [OF un]
  have here: "user_by_id (u_id u) db = Some u"
    using pre(1) assms(2) by (auto intro: user_by_own_id user_by_email_in)
  from login_locked_LoggedIn [OF lo] here have nc: "\<not> challenge_required u db"
    and op: "open_session A now sid False u (la_ip_hash a) (la_user_agent a) (la_request_id a) db = (Inr res, db')"
    by auto
  note eff = open_session_effect [OF op]
  show ?thesis
    using pre(1-3) nc eff(1,2,4)
    by (intro exI [of _ u]) (auto simp: challenge_required_def is_revoked_def split: if_splits)
qed

text \<open>C13: an administrator with an enabled second factor never gets a session from a password:
  login answers with a challenge stamped with the account's current epoch and adds no
  session.\<close>

theorem login_mfa_admin_gets_challenge:
  assumes "login A now sid a db r = (Inr out, db', r')" and "wf_db db"
    and "user_by_email (la_email a) db = Some u" and "u_role u = ADMIN"
    and "mc_by_user_id (u_id u) db = Some c" and "is_enabled c"
  shows "out = MfaChallengeRequired (u_id u) (u_auth_epoch u) \<and> sessions db' = sessions db"
proof -
  from assms(1) obtain u' where un: "login_unlocked A now a db r = (Inr u', r')"
    and lo: "login_locked A now sid a (u_id u') (u_password_hash u') db = (Inr out, db')"
    by (auto simp: login_Inr)
  from login_unlocked_Inr(1) [OF un] assms(3) have [simp]: "u' = u" by simp
  have here: "user_by_id (u_id u) db = Some u"
    using assms(3) assms(2) by (auto intro: user_by_own_id user_by_email_in)
  show ?thesis
  proof (cases out)
    case (LoggedIn res)
    with lo login_locked_LoggedIn [of A now sid a "u_id u" "u_password_hash u" db res db'] here assms(4-6)
    show ?thesis by (auto simp: challenge_required_def)
  next
    case (MfaChallengeRequired i e)
    with lo login_locked_challenge [of A now sid a "u_id u" "u_password_hash u" db i e db'] here
    show ?thesis by auto
  qed
qed

text \<open>C14: an unknown address and a wrong password get the same answer and leave the same
  state behind: the error, the database and the throttle counters are equal.\<close>

theorem login_enumeration_safe:
  assumes "user_by_email (la_email a) db = None"
    and "user_by_email (la_email a) db2 = Some u"
    and "argon2_verify (app_lib A) (u_password_hash u) (la_password a) = VerificationError"
    and "argon2_verify (app_lib A) (DUMMY_PASSWORD_HASH A) (la_password a) \<noteq> InvalidHash"
  shows "fst (login A now sid a db r) = fst (login A now sid2 a db2 r)
    \<and> snd (snd (login A now sid a db r)) = snd (snd (login A now sid2 a db2 r))
    \<and> fst (snd (login A now sid a db r)) = db \<and> fst (snd (login A now sid2 a db2 r)) = db2"
  using assms
  by (auto simp: login_def login_unlocked_def Let_def verify_password_def
      split: sum.splits argon2_outcome.splits)

text \<open>An attempt made while locked out is refused before anything is read or counted, so it
  does not prolong the lockout: the throttle state is exactly what it was.\<close>

theorem locked_attempt_changes_nothing:
  assumes "throttle_check now (la_email a) (la_ip a) r = Inl e"
  shows "login A now sid a db r = (Inl e, db, r)"
  using assms by (simp add: login_def login_unlocked_def)

text \<open>If the account's stored hash changes, or the account is disabled or removed, between
  the password check and the lock, login refuses and writes nothing.\<close>

theorem login_rechecks_under_lock:
  assumes "\<And>u. user_by_id i db = Some u \<Longrightarrow> u_password_hash u \<noteq> verified_hash \<or> \<not> can_authenticate u"
  shows "\<exists>e. login_locked A now sid a i verified_hash db = (Inl e, db)
    \<and> (e = InvalidCredentialsError \<or> (\<exists>j. e = AccountDisabledError j))"
  using assms by (cases "user_by_id i db") (auto simp: login_locked_def cmd_simps)

section \<open>Refresh\<close>

lemma refresh_session_eq:
  assumes "decode_refresh_token (app_lib A) (app_cfg A) now raw = Inr claims"
    and "session_by_id (rf_session_id claims) db = Some s"
  shows "refresh_session A now raw rid ih mfa db =
    (case authorize_rotation (hash_token raw) (rf_token_version claims) now s of
       Some (RefreshTokenReuseError i) \<Rightarrow>
         andthen (exec (session_save (mark_reuse_detected now s))) (\<lambda>_.
         andthen (exec (audit_add (audit_session s ''session.reuse_detected'' rid ih))) (\<lambda>_.
         raise (RefreshTokenReuseError i))) db
     | Some e \<Rightarrow> (Inl e, db)
     | None \<Rightarrow> (case (case user_by_id (s_user_id s) db of None \<Rightarrow> None
                    | Some u \<Rightarrow> if can_authenticate u then Some u else None) of
           None \<Rightarrow> andthen (exec (session_save (revoke now s))) (\<lambda>_. raise (SessionOwnerRevokedError (s_id s))) db
         | Some u \<Rightarrow>
             (let refresh_token = issue_refresh_token (app_lib A) (app_cfg A) (s_id s)
                    (s_token_version s + 1) (s_expires_at s) now
              in andthen (exec (session_save (rotate_session (hash_token refresh_token) now s))) (\<lambda>_.
                 ret \<lparr>rr_session_id = s_id s,
                   rr_access_token = issue_access_token (app_lib A) (app_cfg A) (claims_of u (s_id s) mfa) now,
                   rr_refresh_token = refresh_token,
                   rr_csrf_token = csrf_token_for_session (app_cfg A) (s_id s)\<rparr>) db)))"
proof -
  have "session_owner_id (rf_session_id claims) db = Some (s_user_id s)"
    using assms(2) by (simp add: session_owner_id_def session_by_id_def)
  with assms show ?thesis
    by (simp add: refresh_session_def andthen_def query_def from_entity_def raise_def Let_def
        split: option.split app_error.split)
qed

lemma refresh_session_needs:
  assumes "refresh_session A now raw rid ih mfa db = (Inr res, db')"
  obtains claims s where "decode_refresh_token (app_lib A) (app_cfg A) now raw = Inr claims"
    and "session_by_id (rf_session_id claims) db = Some s"
proof (cases "decode_refresh_token (app_lib A) (app_cfg A) now raw")
  case (Inl e)
  with assms show thesis by (simp add: refresh_session_def cmd_simps)
next
  case (Inr claims)
  show thesis
  proof (cases "session_by_id (rf_session_id claims) db")
    case None
    with Inr assms show thesis
      by (simp add: refresh_session_def cmd_simps session_owner_id_def session_by_id_def)
  next
    case (Some s)
    with Inr that show thesis by blast
  qed
qed

lemma session_id_found: "session_by_id i db = Some s \<Longrightarrow> s_id s = i"
  by (auto simp: session_by_id_def dest: row_by_SomeD)

lemma session_saved:
  assumes "session_save e db = Inr db'" and "session_by_id (s_id e) db = Some row"
  shows "session_by_id (s_id e) db' = Some (session_stored db e row)" and "session_hash_free e db'"
    and "users db' = users db" and "audit_logs db' = audit_logs db" and "gen_ctr db' = gen_ctr db"
    and "next_uuid db' = next_uuid db"
proof -
  show "session_by_id (s_id e) db' = Some (session_stored db e row)"
    by (rule ss.get_saved [OF assms])
  from assms have db': "db' = db\<lparr>sessions := put_row s_id (s_id e) (session_stored db e) (sessions db)\<rparr>"
    and free: "session_hash_free e db"
    by (auto simp: session_save_def split: if_splits)
  from free show "session_hash_free e db'"
    by (auto simp: db' session_hash_free_def elim!: set_put_rowE)
  show "users db' = users db" "audit_logs db' = audit_logs db" "gen_ctr db' = gen_ctr db"
    "next_uuid db' = next_uuid db"
    by (simp_all add: db' next_uuid_def)
qed

lemma refresh_success:
  assumes "refresh_session A now raw rid ih mfa db = (Inr res, db')"
  obtains claims s u where "decode_refresh_token (app_lib A) (app_cfg A) now raw = Inr claims"
    and "session_by_id (rf_session_id claims) db = Some s" and "s_id s = rf_session_id claims"
    and "authorize_rotation (hash_token raw) (rf_token_version claims) now s = None"
    and "user_by_id (s_user_id s) db = Some u" and "can_authenticate u"
    and "session_save (rotate_session (hash_token (rr_refresh_token res)) now s) db = Inr db'"
    and "rr_session_id res = s_id s"
    and "rr_access_token res = issue_access_token (app_lib A) (app_cfg A) (claims_of u (s_id s) mfa) now"
proof -
  from assms obtain claims s where dec: "decode_refresh_token (app_lib A) (app_cfg A) now raw = Inr claims"
    and s: "session_by_id (rf_session_id claims) db = Some s"
    by (rule refresh_session_needs)
  note eq = assms [unfolded refresh_session_eq [OF dec s]]
  from eq have ok: "authorize_rotation (hash_token raw) (rf_token_version claims) now s = None"
    by (auto simp: andthen_Inr split: option.splits app_error.splits)
  with eq show thesis
    by (auto simp: andthen_Inr exec_Inr ret_Inr Let_def split: option.splits if_splits
        intro!: that [OF dec s session_id_found [OF s]])
qed

lemma rotated_stored:
  "session_stored db (rotate_session h now s) s = s\<lparr>s_refresh_token_hash := h,
     s_token_version := s_token_version s + 1, s_rotated_at := Some now, s_last_used_at := Some now\<rparr>"
  by (simp add: session_stored_def rotate_session_def)

text \<open>C11: a refresh succeeds only for the current token of a live session whose owner may still
  sign in.  It then replaces the stored hash by the hash of the new token, raises the version by
  one, leaves the deadline alone, and signs the new access token with the account's current epoch
  and role.\<close>

theorem refresh_rotates:
  assumes "refresh_session A now raw rid ih mfa db = (Inr res, db')"
  shows "\<exists>claims s u. decode_refresh_token (app_lib A) (app_cfg A) now raw = Inr claims
    \<and> session_by_id (rf_session_id claims) db = Some s \<and> is_live now s
    \<and> rf_token_version claims = s_token_version s \<and> hash_token raw = s_refresh_token_hash s
    \<and> user_by_id (s_user_id s) db = Some u \<and> can_authenticate u
    \<and> session_by_id (rf_session_id claims) db' = Some (s\<lparr>s_refresh_token_hash := hash_token (rr_refresh_token res),
         s_token_version := s_token_version s + 1, s_rotated_at := Some now, s_last_used_at := Some now\<rparr>)
    \<and> users db' = users db
    \<and> rr_access_token res = issue_access_token (app_lib A) (app_cfg A) (claims_of u (s_id s) mfa) now"
  using assms
proof (rule refresh_success)
  fix claims s u
  assume dec: "decode_refresh_token (app_lib A) (app_cfg A) now raw = Inr claims"
    and s: "session_by_id (rf_session_id claims) db = Some s" "s_id s = rf_session_id claims"
    and ok: "authorize_rotation (hash_token raw) (rf_token_version claims) now s = None"
    and u: "user_by_id (s_user_id s) db = Some u" "can_authenticate u"
    and sv: "session_save (rotate_session (hash_token (rr_refresh_token res)) now s) db = Inr db'"
    and acc: "rr_access_token res = issue_access_token (app_lib A) (app_cfg A) (claims_of u (s_id s) mfa) now"
  note after = session_saved [OF sv, simplified s(2) methods_keep_id, OF s(1)]
  from ok have cur: "is_live now s" "rf_token_version claims = s_token_version s" "hash_token raw = s_refresh_token_hash s"
    by (simp_all add: authorize_rotation_accepts_iff)
  from dec s(1) cur u acc after(1,3) show ?thesis unfolding rotated_stored by blast
qed

text \<open>A dead session answers every token with the same refusal and is not written to.\<close>

lemma refresh_revoked_session:
  assumes "decode_refresh_token (app_lib A) (app_cfg A) t raw = Inr c" and "rf_session_id c = sid"
    and "session_by_id sid db = Some s" and "is_revoked s"
  shows "refresh_session A t raw rid ih mfa db = (Inl (SessionRevokedError sid), db)"
  using assms session_id_found [OF assms(3)]
  by (simp add: refresh_session_eq [of A t raw c db s] authorize_rotation_def)

lemma mark_reuse_effect:
  assumes "session_by_id sid db = Some s" and "session_save (mark_reuse_detected t s) db = Inr db'"
  shows "\<exists>s'. session_by_id sid db' = Some s' \<and> is_revoked s' \<and> s_reuse_detected_at s' = Some t"
  using ss.get_after_save [OF assms(2), of sid] assms(1) session_id_found [OF assms(1)]
  by (auto simp: session_stored_def session_methods)

text \<open>C10: replaying a token that a refresh has already exchanged is detected while the session
  lives: the request answers with reuse, and the revocation is kept although the command raised.
  From then on every token of the session, the thief's and the owner's, is refused for good.\<close>

theorem refresh_replay_ends_session:
  assumes "refresh_session A now raw rid ih mfa db = (Inr res, db')"
    and "decode_refresh_token (app_lib A) (app_cfg A) later raw = decode_refresh_token (app_lib A) (app_cfg A) now raw"
    and "session_by_id (rr_session_id res) db' = Some s'" and "later < s_expires_at s'"
    and "row_by al_id (next_uuid db') (audit_logs db') = None"
  shows "\<exists>db''. in_transaction is_session_terminated (refresh_session A later raw rid2 ih2 mfa2) db'
       = (Inl (RefreshTokenReuseError (rr_session_id res)), db'')
     \<and> (\<exists>s''. session_by_id (rr_session_id res) db'' = Some s'' \<and> s_reuse_detected_at s'' = Some later)
     \<and> (\<forall>t raw' c r i m. decode_refresh_token (app_lib A) (app_cfg A) t raw' = Inr c
          \<and> rf_session_id c = rr_session_id res
          \<longrightarrow> refresh_session A t raw' r i m db'' = (Inl (SessionRevokedError (rr_session_id res)), db''))"
  using assms(1)
proof (rule refresh_success)
  fix claims s u
  assume dec: "decode_refresh_token (app_lib A) (app_cfg A) now raw = Inr claims"
    and s: "session_by_id (rf_session_id claims) db = Some s" "s_id s = rf_session_id claims"
    and ok: "authorize_rotation (hash_token raw) (rf_token_version claims) now s = None"
    and u: "user_by_id (s_user_id s) db = Some u"
    and sv: "session_save (rotate_session (hash_token (rr_refresh_token res)) now s) db = Inr db'"
    and sid: "rr_session_id res = s_id s"
  note after = session_saved [OF sv, simplified s(2) methods_keep_id, OF s(1), unfolded rotated_stored]
  from after(1) assms(3) sid s(2) have s': "s' = s\<lparr>s_refresh_token_hash := hash_token (rr_refresh_token res),
     s_token_version := s_token_version s + 1, s_rotated_at := Some now, s_last_used_at := Some now\<rparr>" by simp
  from ok assms(4) s' have old: "authorize_rotation (hash_token raw) (rf_token_version claims) later s'
      = Some (RefreshTokenReuseError (rr_session_id res))"
    by (auto simp: authorize_rotation_accepts_iff authorize_rotation_reuse_iff is_live_def is_revoked_def is_expired_def sid)
  have "session_hash_free (mark_reuse_detected later s') db'"
    using after(2) by (auto simp: session_hash_free_def session_methods s')
  then obtain d where d: "session_save (mark_reuse_detected later s') db' = Inr d"
    using ss.save_present [of "mark_reuse_detected later s'" db' s'] assms(3) sid s' by auto
  note d' = session_saved [OF d, simplified methods_keep_id session_id_found [OF assms(3)], OF assms(3)]
  from d'(3) after(3) u have "user_by_id (s_user_id s') d = Some u" by (simp add: user_by_id_def s')
  with d' assms(5) obtain db'' where aud: "audit_add (audit_session s' ''session.reuse_detected'' rid2 ih2) d = Inr db''"
    by (auto simp: audit_add_def audit_session_def)
  from mark_reuse_effect [OF assms(3) d] aud obtain s'' where s'':
    "session_by_id (rr_session_id res) db'' = Some s''" "is_revoked s''" "s_reuse_detected_at s'' = Some later"
    by (auto simp: audit_add_def session_by_id_def split: if_splits)
  have "in_transaction is_session_terminated (refresh_session A later raw rid2 ih2 mfa2) db'
       = (Inl (RefreshTokenReuseError (rr_session_id res)), db'')"
    using assms(2,3) dec sid s(2) old d aud
    by (simp add: in_transaction_def refresh_session_eq [of A later raw claims db' s'] cmd_simps is_session_terminated_def)
  with s'' refresh_revoked_session show ?thesis by blast
qed

text \<open>When the owner of a session may no longer sign in, presenting its current token revokes
  the session, and the request keeps that revocation although it answers with an error.\<close>

theorem refresh_disabled_owner_revokes:
  assumes "decode_refresh_token (app_lib A) (app_cfg A) now raw = Inr claims"
    and "session_by_id (rf_session_id claims) db = Some s"
    and "authorize_rotation (hash_token raw) (rf_token_version claims) now s = None"
    and "session_hash_free s db"
    and "user_by_id (s_user_id s) db = Some u" and "\<not> can_authenticate u"
  shows "\<exists>db'. in_transaction is_session_terminated (refresh_session A now raw rid ih mfa) db
       = (Inl (SessionOwnerRevokedError (rf_session_id claims)), db')
     \<and> (\<exists>s'. session_by_id (rf_session_id claims) db' = Some s' \<and> s_revoked_at s' = Some now)"
proof -
  note id = session_id_found [OF assms(2)]
  from assms(3) have live: "\<not> is_revoked s" by (simp add: authorize_rotation_accepts_iff is_live_def)
  have "session_hash_free (revoke now s) db"
    using assms(4) by (simp add: session_hash_free_def revoke_def)
  then obtain db' where sv: "session_save (revoke now s) db = Inr db'"
    using ss.save_present [of "revoke now s" db s] assms(2) id by auto
  have "session_by_id (rf_session_id claims) db' = Some (session_stored db (revoke now s) s)"
    using ss.get_saved [OF sv, of s] assms(2) id by simp
  moreover have "in_transaction is_session_terminated (refresh_session A now raw rid ih mfa) db
       = (Inl (SessionOwnerRevokedError (rf_session_id claims)), db')"
    using assms sv id
    by (simp add: in_transaction_def refresh_session_eq [of A now raw claims db s] cmd_simps is_session_terminated_def)
  ultimately show ?thesis
    using live by (simp add: session_stored_def revoke_def)
qed

section \<open>Logout\<close>

text \<open>Logout succeeds and leaves the session revoked, or absent as it was; a second logout
  changes nothing.\<close>

theorem logout_idempotent:
  assumes "logout now sid rid ih db = (Inr (), db')"
  shows "(\<forall>s. session_by_id sid db' = Some s \<longrightarrow> is_revoked s)
    \<and> logout later sid rid2 ih2 db' = (Inr (), db') \<and> users db' = users db"
proof (cases "session_by_id sid db")
  case None
  with assms show ?thesis by (simp add: logout_def cmd_simps)
next
  case (Some s)
  show ?thesis
  proof (cases "is_revoked s")
    case True
    with Some assms show ?thesis by (simp add: logout_def cmd_simps)
  next
    case False
    note id = session_id_found [OF Some]
    from assms Some False obtain d where d: "session_save (revoke now s) db = Inr d"
      and aud: "audit_add (audit_session s ''user.logged_out'' rid ih) d = Inr db'"
      by (auto simp: logout_def succeeds)
    note after = session_saved [OF d, simplified methods_keep_id id, OF Some]
    from aud after(1,3) have "session_by_id sid db' = Some (session_stored db (revoke now s) s)" "users db' = users db"
      by (auto simp: audit_add_def session_by_id_def split: if_splits)
    with False show ?thesis
      by (simp add: logout_def cmd_simps session_stored_def session_methods)
  qed
qed

end
