(* ===== verification/Api_Boundary.thy ===== *)
theory Api_Boundary
  imports Session_Commands
begin

text \<open>
  What every route of the identity API shares: the request and response, the transaction of
  api/dependencies.py, the rate limit declared on a route, and the authentication dependencies
  of identity/api/dependencies.py.  FastAPI resolves the dependencies of a route in their
  declared order, then validates the body, then calls the handler.
\<close>

record request =
  rq_cookies :: "string \<rightharpoonup> string"
  rq_headers :: "string \<rightharpoonup> string"
  rq_client :: "string option"
  rq_request_id :: "string option"

text \<open>A request fails with a problem document or, for an exception no handler expects, as 500.\<close>

datatype failure = Problem api_error | Unhandled

record 'a answer =
  an_status :: int
  an_headers :: "(string \<times> string) list"
  an_cookies :: "cookie list"
  an_body :: 'a

record world =
  w_db :: database
  w_redis :: redis

type_synonym 'a route = "world \<Rightarrow> (failure + 'a answer) \<times> world"

definition problem :: "int \<Rightarrow> string \<Rightarrow> string \<Rightarrow> string \<Rightarrow> failure" where
  "problem status code title detail = Problem \<lparr>ae_status_code = status, ae_code = code,
     ae_title = title, ae_detail = detail, ae_headers = []\<rparr>"

text \<open>\<open>validation_exception_handler\<close>: a body whose fields are wrong.\<close>

definition validation_error :: failure where
  "validation_error = problem 422 ''VALIDATION_ERROR'' ''Request body failed validation''
     ''One or more fields failed validation.''"

definition client_ip_hash :: "settings \<Rightarrow> request \<Rightarrow> string option" where
  "client_ip_hash cfg rq = (case rq_client rq of None \<Rightarrow> None
     | Some ip \<Rightarrow> if ip = [] then None else Some (hash_ip cfg ip))"

section \<open>Transactions and limits\<close>

text \<open>\<open>get_session\<close>: the command's writes survive if it returns, or if the route commits
  before it answers with the error (\<open>commits\<close>).\<close>

definition settle ::
  "(app_error \<Rightarrow> bool) \<Rightarrow> (app_error \<Rightarrow> failure) \<Rightarrow> 'a cmd \<Rightarrow> world \<Rightarrow> (failure + 'a) \<times> world" where
  "settle commits answer_to c w = (case in_transaction commits c (w_db w) of
       (Inl e, db') \<Rightarrow> (Inl (answer_to e), w\<lparr>w_db := db'\<rparr>)
     | (Inr a, db') \<Rightarrow> (Inr a, w\<lparr>w_db := db'\<rparr>))"

definition and_answer ::
  "(failure + 'a) \<times> world \<Rightarrow> ('a \<Rightarrow> world \<Rightarrow> 'b answer \<times> world) \<Rightarrow> (failure + 'b answer) \<times> world" where
  "and_answer r f = (case r of (Inl x, w) \<Rightarrow> (Inl x, w)
     | (Inr a, w) \<Rightarrow> (case f a w of (ans, w') \<Rightarrow> (Inr ans, w')))"

text \<open>\<open>dependencies=[Depends(rate_limiter(...))]\<close>; the handler gets the headers it set.\<close>

definition limited ::
  "string \<Rightarrow> int \<Rightarrow> int \<Rightarrow> timestamp \<Rightarrow> request \<Rightarrow> ((string \<times> string) list \<Rightarrow> 'a route) \<Rightarrow> 'a route" where
  "limited key_prefix limit window now rq handler w =
     (case rate_limiter key_prefix limit window now (rq_client rq) (w_redis w) of
        None \<Rightarrow> (Inl Unhandled, w)
      | Some (Inl e, r') \<Rightarrow> (Inl (Problem e), w\<lparr>w_redis := r'\<rparr>)
      | Some (Inr hs, r') \<Rightarrow> handler hs (w\<lparr>w_redis := r'\<rparr>))"

definition depends :: "(world \<Rightarrow> failure + 'c) \<Rightarrow> ('c \<Rightarrow> 'a route) \<Rightarrow> 'a route" where
  "depends dep handler w = (case dep w of Inl f \<Rightarrow> (Inl f, w) | Inr c \<Rightarrow> handler c w)"

definition valid_body :: "bool \<Rightarrow> 'a route \<Rightarrow> 'a route" where
  "valid_body ok handler w = (if ok then handler w else (Inl validation_error, w))"

section \<open>Authentication\<close>

definition CSRF_HEADER :: string where "CSRF_HEADER = ''X-CSRF-Token''"

definition unauthenticated_error :: failure where
  "unauthenticated_error = problem 401 ''AUTH_REQUIRED'' ''Authentication required''
     ''A valid session is required for this request.''"

definition not_found_error :: failure where
  "not_found_error = problem 404 ''NOT_FOUND'' ''Request cannot be completed'' ''Not Found''"

definition csrf_invalid_error :: failure where
  "csrf_invalid_error = problem 403 ''CSRF_INVALID'' ''CSRF token missing or invalid''
     (''Send this session'' @ [CHR 0x27] @ ''s CSRF cookie value in the '' @ CSRF_HEADER @ '' header.'')"

definition current_claims :: "app \<Rightarrow> timestamp \<Rightarrow> request \<Rightarrow> database \<Rightarrow> failure + access_claims" where
  "current_claims A now rq db = (case rq_cookies rq ACCESS_COOKIE of
       None \<Rightarrow> Inl unauthenticated_error
     | Some raw \<Rightarrow>
         if raw = [] then Inl unauthenticated_error
         else (case decode_access_token (app_lib A) (app_cfg A) now raw of
             Inl e \<Rightarrow> Inl (if is_invalid_session e then unauthenticated_error else Unhandled)
           | Inr claims \<Rightarrow> (case get_auth_epoch (ac_user_id claims) db of
                 None \<Rightarrow> Inl unauthenticated_error
               | Some current_epoch \<Rightarrow>
                   if ac_auth_epoch claims \<noteq> current_epoch then Inl unauthenticated_error
                   else Inr claims)))"

definition current_user :: "app \<Rightarrow> timestamp \<Rightarrow> request \<Rightarrow> database \<Rightarrow> failure + user" where
  "current_user A now rq db = (case current_claims A now rq db of
       Inl f \<Rightarrow> Inl f
     | Inr claims \<Rightarrow> (case user_by_id (ac_user_id claims) db of
           None \<Rightarrow> Inl unauthenticated_error
         | Some u \<Rightarrow> if \<not> can_authenticate u then Inl unauthenticated_error else Inr u))"

definition current_verified_user :: "app \<Rightarrow> timestamp \<Rightarrow> request \<Rightarrow> database \<Rightarrow> failure + user" where
  "current_verified_user A now rq db = (case current_user A now rq db of
       Inl f \<Rightarrow> Inl f
     | Inr u \<Rightarrow> if \<not> is_verified u
         then Inl (problem 403 ''EMAIL_VERIFICATION_REQUIRED'' ''Email verification required''
                ''Verify your email address before making this change.'')
         else Inr u)"

definition require_csrf :: "app \<Rightarrow> timestamp \<Rightarrow> request \<Rightarrow> database \<Rightarrow> failure + access_claims" where
  "require_csrf A now rq db = (case current_claims A now rq db of
       Inl f \<Rightarrow> Inl f
     | Inr claims \<Rightarrow>
         if \<not> verify_csrf_token (app_cfg A) (ac_session_id claims) (rq_headers rq CSRF_HEADER)
         then Inl csrf_invalid_error else Inr claims)"

definition require_admin :: "app \<Rightarrow> timestamp \<Rightarrow> request \<Rightarrow> database \<Rightarrow> failure + access_claims" where
  "require_admin A now rq db = (case current_claims A now rq db of
       Inl f \<Rightarrow> Inl f
     | Inr claims \<Rightarrow>
         if ac_role claims \<noteq> ADMIN then Inl not_found_error
         else if \<not> ac_mfa_completed claims
         then Inl (problem 401 ''MFA_REQUIRED'' ''Second factor required''
                ''This session has not completed MFA. Sign in again to be challenged.'')
         else Inr claims)"

text \<open>\<open>require_admin_enrollment\<close> of identity/api/mfa.py: an administrator whose second factor
  is not required yet.\<close>

definition require_admin_enrollment :: "app \<Rightarrow> timestamp \<Rightarrow> request \<Rightarrow> database \<Rightarrow> failure + access_claims" where
  "require_admin_enrollment A now rq db = (case require_csrf A now rq db of
       Inl f \<Rightarrow> Inl f
     | Inr claims \<Rightarrow> if ac_role claims \<noteq> ADMIN then Inl not_found_error else Inr claims)"

definition user_agent :: "request \<Rightarrow> string option" where
  "user_agent rq = (case rq_headers rq ''User-Agent'' of None \<Rightarrow> None
     | Some v \<Rightarrow> if v = [] then None else Some (take 512 v))"

section \<open>What the boundary lets through\<close>

lemma current_claims_Inr:
  "current_claims A now rq db = Inr c \<longleftrightarrow>
     (\<exists>raw u. rq_cookies rq ACCESS_COOKIE = Some raw \<and> raw \<noteq> []
        \<and> decode_access_token (app_lib A) (app_cfg A) now raw = Inr c
        \<and> user_by_id (ac_user_id c) db = Some u \<and> u_auth_epoch u = ac_auth_epoch c)"
  by (auto simp: current_claims_def get_auth_epoch_def user_by_id_def split: option.splits if_splits sum.splits)

lemmas boundary_defs = current_user_def current_verified_user_def require_csrf_def require_admin_def
  require_admin_enrollment_def

text \<open>C19: the administrator boundary admits exactly the requests whose access token verifies,
  carries the account's current epoch, the administrator role and a completed second factor; an
  authenticated customer gets the 404 of a missing route, whatever the rest of the request.\<close>

theorem require_admin_exact:
  shows "(require_admin A now rq db = Inr c \<longleftrightarrow>
      (\<exists>raw u. rq_cookies rq ACCESS_COOKIE = Some raw \<and> raw \<noteq> []
         \<and> decode_access_token (app_lib A) (app_cfg A) now raw = Inr c
         \<and> user_by_id (ac_user_id c) db = Some u \<and> u_auth_epoch u = ac_auth_epoch c
         \<and> ac_role c = ADMIN \<and> ac_mfa_completed c))
    \<and> (\<forall>c'. current_claims A now rq db = Inr c' \<and> ac_role c' = CUSTOMER
         \<longrightarrow> require_admin A now rq db = Inl not_found_error)"
proof -
  have "require_admin A now rq db = Inr c \<longleftrightarrow>
      current_claims A now rq db = Inr c \<and> ac_role c = ADMIN \<and> ac_mfa_completed c"
    by (auto simp: require_admin_def split: sum.splits)
  moreover have "require_admin A now rq db = Inl not_found_error"
    if "current_claims A now rq db = Inr c'" and "ac_role c' = CUSTOMER" for c'
    using that by (simp add: require_admin_def)
  ultimately show ?thesis
    unfolding current_claims_Inr [of A now rq db c] by blast
qed

lemma settle_failed:
  assumes "settle cm f c w = (Inl x, w')"
  shows "\<exists>e db'. in_transaction cm c (w_db w) = (Inl e, db') \<and> x = f e \<and> w' = w\<lparr>w_db := db'\<rparr>"
  using assms by (auto simp: settle_def split: prod.splits sum.splits)

lemma settle_ok:
  "settle cm f c w = (Inr a, w') \<longleftrightarrow> (\<exists>db'. c (w_db w) = (Inr a, db') \<and> w' = w\<lparr>w_db := db'\<rparr>)"
  by (auto simp: settle_def in_transaction_def split: prod.splits sum.splits)

lemma settle_redis [simp]: "w_redis (snd (settle cm f c w)) = w_redis w"
  by (simp add: settle_def split: prod.splits sum.splits)

lemma and_answer_ok:
  "and_answer r f = (Inr ans, w') \<longleftrightarrow> (\<exists>a w. r = (Inr a, w) \<and> f a w = (ans, w'))"
  by (auto simp: and_answer_def split: prod.splits sum.splits)

lemma limited_ok:
  "limited p n win now rq h w = (Inr ans, w') \<longleftrightarrow>
     (\<exists>hs r'. rate_limiter p n win now (rq_client rq) (w_redis w) = Some (Inr hs, r')
        \<and> h hs (w\<lparr>w_redis := r'\<rparr>) = (Inr ans, w'))"
  by (auto simp: limited_def split: option.splits prod.splits sum.splits)

lemma depends_ok: "depends d h w = (Inr ans, w') \<longleftrightarrow> (\<exists>c. d w = Inr c \<and> h c w = (Inr ans, w'))"
  by (auto simp: depends_def split: sum.splits)

lemma valid_body_ok: "valid_body ok h w = (Inr ans, w') \<longleftrightarrow> ok \<and> h w = (Inr ans, w')"
  by (simp add: valid_body_def)

lemmas route_ok = settle_ok and_answer_ok limited_ok depends_ok valid_body_ok

end
