(* ===== verification/Verification_Flow.thy ===== *)
theory Verification_Flow
  imports Unit_Of_Work
begin

text \<open>
  Registration and email verification: services/verification.py and the commands
  register_user.py, resend_verification.py and verify_email.py.  \<open>now\<close> is the request's clock
  reading, \<open>raw_token\<close> the value \<open>secrets.token_urlsafe(32)\<close> returned, and \<open>salt\<close> the
  salt Argon2 drew.
\<close>

definition VERIFICATION_TOKEN_TTL :: int where "VERIFICATION_TOKEN_TTL = minutes (24 * 60)"
definition RESEND_COOLDOWN :: int where "RESEND_COOLDOWN = minutes 2"

definition audit_user :: "user \<Rightarrow> string \<Rightarrow> string option \<Rightarrow> string option \<Rightarrow> audit_args" where
  "audit_user u action request_id ip_hash =
     \<lparr>aa_actor_user_id = Some (u_id u), aa_action = action, aa_entity_type = ''User'',
      aa_entity_id = Some (u_id u), aa_before_data = None, aa_after_data = None,
      aa_request_id = request_id, aa_ip_hash = ip_hash\<rparr>"

definition issue_verification_email :: "app \<Rightarrow> timestamp \<Rightarrow> string \<Rightarrow> user \<Rightarrow> unit cmd" where
  "issue_verification_email A now raw_token u =
     (let expires_at = now + VERIFICATION_TOKEN_TTL in
      andthen (exec (vt_add (u_id u) (hash_token raw_token) expires_at)) (\<lambda>_.
      exec (outbox_add (Some (u_id u)) (u_email u) ''verification_email''
        [(''token'', PStr raw_token),
         (''verification_url'', PStr (base_url (app_cfg A) @ ''/api/v1/auth/verify-email?token='' @ raw_token)),
         (''expires_at'', PStr (isoformat expires_at))])))"

definition resend_eligible :: "timestamp \<Rightarrow> user \<Rightarrow> database \<Rightarrow> bool" where
  "resend_eligible now u db =
     (if is_verified u then False
      else case vt_latest (u_id u) db of
          None \<Rightarrow> True
        | Some latest \<Rightarrow> now - vt_created_at latest \<ge> RESEND_COOLDOWN)"

definition register_user ::
  "app \<Rightarrow> timestamp \<Rightarrow> string \<Rightarrow> string \<Rightarrow> string \<Rightarrow> string \<Rightarrow> string option \<Rightarrow> string option \<Rightarrow> unit cmd" where
  "register_user A now salt raw_token email password request_id ip_hash =
     (let password_hash = hash_password (app_lib A) salt password in
      andthen (query (user_by_email email)) (\<lambda>existing. case existing of
        None \<Rightarrow>
          andthen (insert_row (user_add email password_hash)) (\<lambda>u.
          andthen (issue_verification_email A now raw_token u) (\<lambda>_.
          exec (audit_add (audit_user u ''user.registered'' request_id ip_hash))))
      | Some u \<Rightarrow>
          andthen (query (\<lambda>db. \<not> is_verified u \<and> resend_eligible now u db)) (\<lambda>send.
          if send then issue_verification_email A now raw_token u else ret ())))"

text \<open>\<open>perform_dummy_hash\<close> verifies the placeholder against its own hash and drops the
  outcome; only a package fault would surface.\<close>

definition perform_dummy_hash :: "app \<Rightarrow> unit cmd" where
  "perform_dummy_hash A =
     (let pw = ''bekaa3d-constant-work-placeholder'' in
      case argon2_verify (app_lib A) (argon2_hash (app_lib A) (app_salt A) pw) pw of
        Verified \<Rightarrow> ret ()
      | VerificationError \<Rightarrow> raise (Uncaught ValueError)
      | InvalidHash \<Rightarrow> raise (Uncaught ValueError))"

definition resend_verification ::
  "app \<Rightarrow> timestamp \<Rightarrow> string \<Rightarrow> string \<Rightarrow> string option \<Rightarrow> string option \<Rightarrow> unit cmd" where
  "resend_verification A now raw_token email request_id ip_hash =
     andthen (query (user_by_email email)) (\<lambda>found.
     andthen (query (\<lambda>db. case found of None \<Rightarrow> False
                        | Some u \<Rightarrow> \<not> is_verified u \<and> resend_eligible now u db)) (\<lambda>send.
     case found of
       None \<Rightarrow> perform_dummy_hash A
     | Some u \<Rightarrow> if \<not> send then perform_dummy_hash A
         else andthen (issue_verification_email A now raw_token u) (\<lambda>_.
              exec (audit_add (audit_user u ''user.verification_resent'' request_id ip_hash)))))"

definition verify_email :: "timestamp \<Rightarrow> string \<Rightarrow> string option \<Rightarrow> string option \<Rightarrow> unit cmd" where
  "verify_email now raw_token request_id ip_hash =
     andthen (query (vt_by_hash (hash_token raw_token))) (\<lambda>found. case found of
       None \<Rightarrow> raise InvalidVerificationTokenError
     | Some token \<Rightarrow>
         andthen (query (user_by_id (vt_user_id token))) (\<lambda>owner. case owner of
           None \<Rightarrow> raise InvalidVerificationTokenError
         | Some u \<Rightarrow>
             andthen (from_entity (vt_mark_used now token)) (\<lambda>token'.
             andthen (from_entity (mark_verified now u)) (\<lambda>u'.
             andthen (exec (user_save u')) (\<lambda>_.
             andthen (exec (vt_save token')) (\<lambda>_.
             exec (audit_add (audit_user u' ''user.email_verified'' request_id ip_hash))))))))"

section \<open>What the commands do\<close>

lemma keeps_issue_verification [keeps]: "preserves wf_db (issue_verification_email A now t u)"
  by (auto simp: issue_verification_email_def Let_def intro!: keeps)

lemma keeps_register [keeps]: "preserves wf_db (register_user A now salt t email pw rid ih)"
  unfolding register_user_def Let_def by (intro keeps)

lemma keeps_verify_email [keeps]: "preserves wf_db (verify_email now t rid ih)"
  unfolding verify_email_def
  by (intro keeps_entity keeps_query_user keeps keeps_exec_user_save) (auto simp: mark_verified_def split: if_splits)

lemma issue_verification_email_effect:
  assumes "issue_verification_email A now raw u db = (Inr (), db')"
  shows "users db' = users db" and "sessions db' = sessions db"
    and "vt_by_hash (hash_token raw) db' = Some \<lparr>vt_id = next_uuid db, vt_user_id = u_id u,
           vt_token_hash = hash_token raw, vt_expires_at = now + VERIFICATION_TOKEN_TTL,
           vt_used_at = None, vt_created_at = tx_now db\<rparr>"
    and "\<And>h. h \<noteq> hash_token raw \<Longrightarrow> vt_by_hash h db' = vt_by_hash h db"
    and "\<exists>m. email_outbox db' = email_outbox db @ [m] \<and> ob_recipient_email m = u_email u
           \<and> map_of (ob_payload m) ''token'' = Some (PStr raw)"
  using assms
  by (auto simp: issue_verification_email_def Let_def succeeds vt_add_def outbox_add_def
      vt_by_hash_def row_by_append split: if_splits option.splits)

lemma register_new_account:
  assumes "register_user A now salt raw email pw rid ih db = (Inr (), db')"
    and "user_by_email email db = None"
  obtains u where "user_by_id (u_id u) db' = Some u" and "u_email u = email"
    and "\<not> is_verified u" and "can_authenticate u" and "u_role u = CUSTOMER" and "u_auth_epoch u = 0"
    and "u_password_hash u = hash_password (app_lib A) salt pw"
    and "\<exists>t. vt_by_hash (hash_token raw) db' = Some t \<and> vt_user_id t = u_id u \<and> \<not> vt_is_used t
           \<and> vt_expires_at t = now + VERIFICATION_TOKEN_TTL"
    and "\<And>i. i \<noteq> u_id u \<Longrightarrow> user_by_id i db' = user_by_id i db"
proof -
  from assms obtain u d1 d2 where add: "user_add email (hash_password (app_lib A) salt pw) db = Inr (u, d1)"
    and iss: "issue_verification_email A now raw u d1 = (Inr (), d2)"
    and aud: "audit_add (audit_user u ''user.registered'' rid ih) d2 = Inr db'"
    by (auto simp: register_user_def Let_def succeeds)
  from aud have same: "users db' = users d2" "verification_tokens db' = verification_tokens d2"
    by (auto simp: audit_add_def split: if_splits)
  note eff = issue_verification_email_effect [OF iss]
  from add have u: "u_id u = next_uuid db" "users d1 = users db @ [u]" "user_by_id (u_id u) db = None"
    "u_email u = email" "\<not> is_verified u" "can_authenticate u" "u_role u = CUSTOMER" "u_auth_epoch u = 0"
    "u_password_hash u = hash_password (app_lib A) salt pw"
    by (auto simp: user_add_def Let_def is_verified_def can_authenticate_def split: if_splits)
  show thesis
  proof (rule that [of u])
    show "user_by_id (u_id u) db' = Some u"
      using u by (simp add: user_by_id_def same eff(1) row_by_append)
    show "\<And>i. i \<noteq> u_id u \<Longrightarrow> user_by_id i db' = user_by_id i db"
      using u by (simp add: user_by_id_def same eff(1) row_by_append split: option.splits)
    show "\<exists>t. vt_by_hash (hash_token raw) db' = Some t \<and> vt_user_id t = u_id u \<and> \<not> vt_is_used t
           \<and> vt_expires_at t = now + VERIFICATION_TOKEN_TTL"
      using eff(3) by (simp add: vt_by_hash_def same vt_is_used_def)
  qed (use u in auto)
qed

text \<open>When \<open>verify_email\<close> succeeds, and what it leaves behind.\<close>

lemma verify_email_success:
  assumes "verify_email now raw rid ih db = (Inr (), db')"
  obtains t u where "vt_by_hash (hash_token raw) db = Some t" and "\<not> vt_is_used t" and "now < vt_expires_at t"
    and "user_by_id (vt_user_id t) db = Some u" and "\<not> is_verified u"
    and "\<exists>u'. user_by_id (vt_user_id t) db' = Some u' \<and> u_email_verified_at u' = Some now"
    and "\<exists>t'. vt_by_id (vt_id t) db' = Some t' \<and> vt_is_used t'"
proof -
  from assms obtain t u t' u' d1 d2 where t: "vt_by_hash (hash_token raw) db = Some t"
    and u: "user_by_id (vt_user_id t) db = Some u" and t': "vt_mark_used now t = Inr t'"
    and u': "mark_verified now u = Inr u'" and d1: "user_save u' db = Inr d1"
    and d2: "vt_save t' d1 = Inr d2" and aud: "audit_add (audit_user u' ''user.email_verified'' rid ih) d2 = Inr db'"
    by (auto simp: verify_email_def succeeds split: option.splits)
  from aud have same: "users db' = users d2" "verification_tokens db' = verification_tokens d2"
    by (auto simp: audit_add_def split: if_splits)
  have uid: "u_id u' = vt_user_id t"
    using u u' row_by_SomeD(2) by (fastforce simp: user_by_id_def mark_verified_def split: if_splits)
  have tid: "vt_id t' = vt_id t" "vt_is_used t'" "\<not> vt_is_used t" "now < vt_expires_at t"
    using t' by (auto simp: vt_mark_used_def vt_is_used_def split: if_splits)
  have "users d2 = users d1"
    using d2 by (auto simp: vt_save_def split: option.splits)
  moreover have "user_by_id (vt_user_id t) d1 = Some (user_stored db u' u)"
    using us.get_saved [OF d1, of u] u uid by simp
  moreover have "u_email_verified_at (user_stored db u' u) = Some now"
    using u' by (auto simp: mark_verified_def split: if_splits)
  moreover have "\<exists>x. vt_by_id (vt_id t) d2 = Some x \<and> vt_is_used x"
    using vts.get_after_save [OF d2, of "vt_id t"] d2 tid
    by (auto simp: vt_save_def vt_stored_def vt_is_used_def split: option.splits)
  ultimately show thesis
    using t u u' tid by (intro that)
      (auto simp: user_by_id_def vt_by_id_def same mark_verified_def split: if_splits)
qed

lemma verify_email_keeps_email:
  assumes "verify_email now raw rid ih db = (Inr (), db')" and "user_by_id i db = Some u" and "user_by_id i db' = Some v"
  shows "u_email v = u_email u"
proof -
  from assms(1) obtain t t' :: verification_token and w w' d1 d2 where w': "mark_verified now w = Inr w'"
    and d1: "user_save w' db = Inr d1" and d2: "vt_save t' d1 = Inr d2"
    and aud: "audit_add (audit_user w' ''user.email_verified'' rid ih) d2 = Inr db'"
    by (auto simp: verify_email_def succeeds split: option.splits)
  have "users db' = users d1"
    using audit_tables(1) [OF aud] d2 by (auto simp: vt_save_def split: option.splits)
  then show ?thesis
    using us.get_after_save [OF d1, of i] assms(2,3) by (auto simp: user_by_id_def split: if_splits)
qed

text \<open>The exact outcome of \<open>verify_email\<close> on each way a token can fail, in the order of the
  checks.\<close>

lemma verify_email_unknown:
  "vt_by_hash (hash_token raw) db = None
    \<Longrightarrow> verify_email now raw rid ih db = (Inl InvalidVerificationTokenError, db)"
  by (simp add: verify_email_def cmd_simps)

lemma verify_email_refused:
  assumes "vt_by_hash (hash_token raw) db = Some t" and "user_by_id (vt_user_id t) db = Some u"
  shows "vt_is_used t \<Longrightarrow> verify_email now raw rid ih db = (Inl InvalidVerificationTokenError, db)"
    and "\<not> vt_is_used t \<Longrightarrow> vt_expires_at t \<le> now
      \<Longrightarrow> verify_email now raw rid ih db = (Inl (VerificationTokenExpiredError (vt_id t)), db)"
    and "\<not> vt_is_used t \<Longrightarrow> now < vt_expires_at t \<Longrightarrow> is_verified u
      \<Longrightarrow> verify_email now raw rid ih db = (Inl (AlreadyVerifiedError (u_id u)), db)"
  using assms by (simp_all add: verify_email_def cmd_simps vt_mark_used_def mark_verified_def)

section \<open>Registration to verification\<close>

lemma verify_email_accepted:
  assumes "vt_by_hash (hash_token raw) db = Some t" and "\<not> vt_is_used t" and "now < vt_expires_at t"
    and "user_by_id (vt_user_id t) db = Some u" and "\<not> is_verified u"
    and "row_by al_id (next_uuid db) (audit_logs db) = None"
  shows "\<exists>db'. verify_email now raw rid ih db = (Inr (), db')
    \<and> (\<exists>t'. vt_by_hash (hash_token raw) db' = Some t' \<and> vt_is_used t')"
proof -
  let ?u = "u\<lparr>u_email_verified_at := Some now, u_updated_at := now\<rparr>" and ?t = "t\<lparr>vt_used_at := Some now\<rparr>"
  note f = user_found [OF assms(4)]
  have "vt_by_id (vt_id t) db \<noteq> None"
    using assms(1) by (auto simp: vt_by_hash_def vt_by_id_def row_by_None_iff dest: row_by_SomeD(1))
  moreover obtain d1 where d1: "user_save ?u db = Inr d1" using assms(4) f by (simp add: user_save_def)
  note s1 = us_tables [OF d1]
  ultimately obtain d2 where d2: "vt_save ?t d1 = Inr d2"
    using s1 by (fastforce simp: vt_save_def vt_by_id_def)
  then have d2': "d2 = d1\<lparr>verification_tokens := put_row vt_id (vt_id t) (vt_stored d1 ?t) (verification_tokens d1)\<rparr>"
    by (auto simp: vt_save_def split: option.splits)
  have "user_by_id (vt_user_id t) d2 \<noteq> None"
    using us.save_keeps_present [OF d1, of "vt_user_id t"] assms(4) by (simp add: d2' user_by_id_def)
  then obtain db' where aud: "audit_add (audit_user ?u ''user.email_verified'' rid ih) d2 = Inr db'"
    using s1 assms(6) f by (auto simp: audit_add_def audit_user_def d2' next_uuid_def)
  have "verify_email now raw rid ih db = (Inr (), db')"
    using assms d1 d2 aud by (simp add: verify_email_def cmd_simps vt_mark_used_def mark_verified_def)
  moreover have "vt_by_hash (hash_token raw) db' = map_option (\<lambda>r. if vt_id r = vt_id t then vt_stored d1 ?t r else r)
      (vt_by_hash (hash_token raw) db)"
    using audit_tables(3) [OF aud] s1 by (simp add: vt_by_hash_def d2' row_by_put_any vt_stored_def)
  ultimately show ?thesis using assms(1) by (simp add: vt_stored_def vt_is_used_def)
qed

text \<open>C32: the link mailed at registration verifies the account until 24 hours have passed, exactly
  once: redeeming it in time succeeds and marks the account verified at that moment, a second
  redemption is refused whenever it comes, and an unredeemed link is refused from the deadline
  on.\<close>

theorem registration_link_verifies_once:
  assumes "register_user A t0 salt raw email pw rid ih db = (Inr (), db')" and "user_by_email email db = None"
    and "row_by al_id (next_uuid db') (audit_logs db') = None" and "now < t0 + days 1"
  shows "(\<exists>db'' u. verify_email now raw rid2 ih2 db' = (Inr (), db'')
       \<and> user_by_id (u_id u) db'' = Some u \<and> u_email u = email \<and> u_email_verified_at u = Some now
       \<and> verify_email later raw rid3 ih3 db'' = (Inl InvalidVerificationTokenError, db''))
    \<and> (\<forall>expired \<ge> t0 + days 1. \<exists>i. verify_email expired raw rid2 ih2 db' = (Inl (VerificationTokenExpiredError i), db'))"
  using assms(1,2)
proof (rule register_new_account)
  fix u
  assume u: "user_by_id (u_id u) db' = Some u" "u_email u = email" "\<not> is_verified u"
    and "\<exists>t. vt_by_hash (hash_token raw) db' = Some t \<and> vt_user_id t = u_id u \<and> \<not> vt_is_used t
           \<and> vt_expires_at t = t0 + VERIFICATION_TOKEN_TTL"
  then obtain t where t: "vt_by_hash (hash_token raw) db' = Some t" "vt_user_id t = u_id u" "\<not> vt_is_used t"
    "vt_expires_at t = t0 + days 1" by (auto simp: VERIFICATION_TOKEN_TTL_def)
  with u assms(4) have live: "now < vt_expires_at t" "user_by_id (vt_user_id t) db' = Some u" by simp_all
  from verify_email_accepted [OF t(1,3) live u(3) assms(3)] obtain db'' t' where
    ok: "verify_email now raw rid2 ih2 db' = (Inr (), db'')" and t': "vt_by_hash (hash_token raw) db'' = Some t'" "vt_is_used t'"
    by blast
  from ok have "\<exists>v. user_by_id (u_id u) db'' = Some v \<and> u_email_verified_at v = Some now"
    by (rule verify_email_success) (use t(1,2) in auto)
  then obtain v where v: "user_by_id (u_id u) db'' = Some v" "u_email_verified_at v = Some now" by blast
  have "u_email v = email"
    using verify_email_keeps_email [OF ok u(1) v(1)] u(2) by simp
  moreover have "verify_email later raw rid3 ih3 db'' = (Inl InvalidVerificationTokenError, db'')"
    using t' by (auto simp: verify_email_def cmd_simps vt_mark_used_def split: option.split)
  moreover have "verify_email expired raw rid2 ih2 db' = (Inl (VerificationTokenExpiredError (vt_id t)), db')"
    if "t0 + days 1 \<le> expired" for expired
    using verify_email_refused(2) [OF t(1) live(2) t(3)] that t(4) by simp
  moreover have "user_by_id (u_id v) db'' = Some v" using v(1) user_found [OF v(1)] by simp
  ultimately have "verify_email now raw rid2 ih2 db' = (Inr (), db'')
      \<and> user_by_id (u_id v) db'' = Some v \<and> u_email v = email \<and> u_email_verified_at v = Some now
      \<and> verify_email later raw rid3 ih3 db'' = (Inl InvalidVerificationTokenError, db'')"
    and "\<forall>expired \<ge> t0 + days 1. \<exists>i. verify_email expired raw rid2 ih2 db' = (Inl (VerificationTokenExpiredError i), db')"
    using ok v(2) by blast+
  then show ?thesis by blast
qed

text \<open>Registering an address that already has an account neither fails nor touches any
  account, session or second factor; for a verified account, or within two minutes of the last
  mail, it writes nothing at all.\<close>

theorem register_existing_silent:
  assumes "user_by_email email db = Some u"
  shows "(\<forall>db'. register_user A now salt raw email pw rid ih db = (Inr (), db') \<longrightarrow>
       users db' = users db \<and> sessions db' = sessions db \<and> mfa_credentials db' = mfa_credentials db)
    \<and> ((is_verified u \<or> (\<exists>t. vt_latest (u_id u) db = Some t \<and> now < vt_created_at t + minutes 2)) \<longrightarrow>
       register_user A now salt raw email pw rid ih db = (Inr (), db))"
  using assms
  by (auto simp: register_user_def Let_def succeeds cmd_simps resend_eligible_def RESEND_COOLDOWN_def
      issue_verification_email_def vt_add_def outbox_add_def split: if_splits sum.splits option.splits)

end
