(* ===== verification/Account_View.thy ===== *)
theory Account_View
  imports Unit_Of_Work
begin

text \<open>
  What the identity context promises about an account, apart from its tables: whether it may
  sign in, its password hash, its epoch, the sessions that are still good and the reset links
  that are still open.  \<open>account_of\<close> reads it off the database; the operations \<open>a_reset\<close>,
  \<open>a_set_active\<close>, \<open>a_open\<close> and \<open>a_close\<close> are what the commands must amount to.
\<close>

record account =
  acc_enabled :: bool
  acc_hash :: string
  acc_epoch :: int
  acc_live :: "uuid list"
  acc_open :: "uuid list"

definition live_sessions :: "uuid \<Rightarrow> database \<Rightarrow> uuid list" where
  "live_sessions i db = map s_id (filter (live_of i) (sessions db))"

definition open_resets :: "uuid \<Rightarrow> database \<Rightarrow> uuid list" where
  "open_resets i db = map rt_id (filter (outstanding_of i) (reset_tokens db))"

definition account_of :: "uuid \<Rightarrow> database \<Rightarrow> account option" where
  "account_of i db = map_option (\<lambda>u. \<lparr>acc_enabled = can_authenticate u, acc_hash = u_password_hash u,
     acc_epoch = u_auth_epoch u, acc_live = live_sessions i db, acc_open = open_resets i db\<rparr>) (user_by_id i db)"

text \<open>Everything issued before is cut off: the epoch moves on and no session is left.\<close>

definition cut_off :: "account \<Rightarrow> account" where
  "cut_off a = a\<lparr>acc_epoch := acc_epoch a + 1, acc_live := []\<rparr>"

definition a_reset :: "string \<Rightarrow> account \<Rightarrow> account" where
  "a_reset h a = (cut_off a)\<lparr>acc_hash := h, acc_open := []\<rparr>"

definition a_set_active :: "bool \<Rightarrow> account \<Rightarrow> account" where
  "a_set_active b a = (if b = acc_enabled a then a
     else if b then a\<lparr>acc_enabled := True\<rparr> else (cut_off a)\<lparr>acc_enabled := False\<rparr>)"

definition a_open :: "uuid \<Rightarrow> account \<Rightarrow> account" where
  "a_open sid a = a\<lparr>acc_live := acc_live a @ [sid]\<rparr>"

definition a_close :: "uuid \<Rightarrow> account \<Rightarrow> account" where
  "a_close sid a = a\<lparr>acc_live := removeAll sid (acc_live a)\<rparr>"

lemmas account_spec = cut_off_def a_reset_def a_set_active_def a_open_def a_close_def

section \<open>Reading the view after each statement\<close>

lemma account_of_same:
  assumes "users db' = users db" and "sessions db' = sessions db" and "reset_tokens db' = reset_tokens db"
  shows "account_of i db' = account_of i db"
  using assms by (simp add: account_of_def user_by_id_def live_sessions_def open_resets_def)

lemma account_of_eqI:
  assumes "user_by_id i db' = user_by_id i db" and "live_sessions i db' = live_sessions i db"
    and "open_resets i db' = open_resets i db"
  shows "account_of i db' = account_of i db"
  using assms by (simp add: account_of_def)

lemma live_sessions_revoke_all:
  "live_sessions j (snd (revoke_all_for_user i now db)) = (if j = i then [] else live_sessions j db)"
proof -
  have "filter (live_of j) (update_where (live_of i) (\<lambda>s. s\<lparr>s_revoked_at := Some now\<rparr>) ss) = filter (live_of j) ss"
    if "j \<noteq> i" for ss
    by (rule filter_update_where_other) (use that in \<open>auto simp: live_of_def\<close>)
  moreover have "filter (live_of i) (update_where (live_of i) (\<lambda>s. s\<lparr>s_revoked_at := Some now\<rparr>) ss) = []" for ss
    by (rule filter_update_where_none) (simp add: live_of_def)
  ultimately show ?thesis by (simp add: live_sessions_def revoke_all_for_user_def)
qed

lemma open_resets_consume:
  "open_resets j (snd (consume_outstanding_for_user i now db)) = (if j = i then [] else open_resets j db)"
proof -
  have "filter (outstanding_of j) (update_where (outstanding_of i) (\<lambda>t. t\<lparr>rt_used_at := Some now\<rparr>) ts)
      = filter (outstanding_of j) ts" if "j \<noteq> i" for ts
    by (rule filter_update_where_other) (use that in \<open>auto simp: outstanding_of_def\<close>)
  moreover have "filter (outstanding_of i) (update_where (outstanding_of i) (\<lambda>t. t\<lparr>rt_used_at := Some now\<rparr>) ts) = []" for ts
    by (rule filter_update_where_none) (simp add: outstanding_of_def)
  ultimately show ?thesis by (simp add: open_resets_def consume_outstanding_for_user_def)
qed

lemma open_resets_save:
  assumes "rt_save t' db = Inr db'" and "wf_db db" and "t \<in> set (reset_tokens db)" and "rt_id t' = rt_id t"
    and "j \<noteq> rt_user_id t"
  shows "open_resets j db' = open_resets j db"
proof -
  from assms(1) have db': "reset_tokens db' = put_row rt_id (rt_id t') (rt_stored db t') (reset_tokens db)"
    by (auto simp: rt_save_def split: option.splits)
  have "x = t" if "x \<in> set (reset_tokens db)" "rt_id x = rt_id t'" for x
    using assms(2,3,4) that by (auto simp: wf_db_def distinct_map inj_on_def)
  then have "filter (outstanding_of j) (put_row rt_id (rt_id t') (rt_stored db t') (reset_tokens db))
      = filter (outstanding_of j) (reset_tokens db)"
    using assms(5) by (intro filter_put_row) (auto simp: outstanding_of_def rt_stored_def)
  then show ?thesis by (simp add: open_resets_def db')
qed

lemma live_sessions_close:
  assumes "session_save s' db = Inr db'" and "wf_db db" and "session_by_id (s_id s') db = Some s"
    and "is_revoked s'" and "s_user_id s' = s_user_id s"
  shows "live_sessions j db' = (if j = s_user_id s then removeAll (s_id s') (live_sessions j db) else live_sessions j db)"
proof -
  from assms(1) have db': "sessions db' = put_row s_id (s_id s') (session_stored db s') (sessions db)"
    by (auto simp: session_save_def split: option.splits if_splits)
  from assms(3) have s: "s \<in> set (sessions db)" "s_id s = s_id s'"
    by (auto simp: session_by_id_def dest: row_by_SomeD)
  have one: "x = s" if "x \<in> set (sessions db)" "s_id x = s_id s'" for x
    using assms(2) s that by (auto simp: wf_db_def distinct_map inj_on_def)
  have dead: "\<not> live_of j (session_stored db s' x)" for x
    using assms(4) by (simp add: live_of_def session_stored_def is_revoked_def)
  have "map s_id (filter (live_of j) (put_row s_id (s_id s') (session_stored db s') ss))
      = removeAll (s_id s') (map s_id (filter (live_of j) ss))" for ss
    by (induction ss) (auto simp: put_row_def dead)
  moreover have "s_id s' \<notin> set (live_sessions j db)" if "j \<noteq> s_user_id s"
    using that one by (auto simp: live_sessions_def live_of_def)
  ultimately show ?thesis by (simp add: live_sessions_def db')
qed

end
