(* ===== verification/Password_Reset.thy ===== *)
theory Password_Reset
  imports Account_View
begin

text \<open>
  Password reset: services/password_reset.py and the commands request_password_reset.py and
  confirm_password_reset.py.
\<close>

definition PASSWORD_RESET_TOKEN_TTL :: int where "PASSWORD_RESET_TOKEN_TTL = minutes 60"
definition RESET_REQUEST_COOLDOWN :: int where "RESET_REQUEST_COOLDOWN = minutes 2"

definition issue_password_reset_email :: "app \<Rightarrow> timestamp \<Rightarrow> string \<Rightarrow> user \<Rightarrow> unit cmd" where
  "issue_password_reset_email A now raw_token u =
     (let expires_at = now + PASSWORD_RESET_TOKEN_TTL in
      andthen (exec (rt_add (u_id u) (hash_token raw_token) expires_at)) (\<lambda>_.
      exec (outbox_add (Some (u_id u)) (u_email u) ''password_reset_email''
        [(''token'', PStr raw_token),
         (''reset_url'', PStr (base_url (app_cfg A) @ ''/api/v1/auth/password-reset/confirm?token='' @ raw_token)),
         (''expires_at'', PStr (isoformat expires_at))])))"

definition reset_request_eligible :: "timestamp \<Rightarrow> user \<Rightarrow> database \<Rightarrow> bool" where
  "reset_request_eligible now u db =
     (if \<not> can_authenticate u then False
      else case rt_latest (u_id u) db of
          None \<Rightarrow> True
        | Some latest \<Rightarrow> now - rt_created_at latest \<ge> RESET_REQUEST_COOLDOWN)"

definition request_password_reset ::
  "app \<Rightarrow> timestamp \<Rightarrow> string \<Rightarrow> string \<Rightarrow> string option \<Rightarrow> string option \<Rightarrow> unit cmd" where
  "request_password_reset A now raw_token email request_id ip_hash =
     andthen (query (user_by_email email)) (\<lambda>found. case found of
       None \<Rightarrow> ret ()
     | Some u \<Rightarrow>
         andthen (query (reset_request_eligible now u)) (\<lambda>eligible.
         if \<not> eligible then ret ()
         else andthen (issue_password_reset_email A now raw_token u) (\<lambda>_.
              exec (audit_add \<lparr>aa_actor_user_id = Some (u_id u), aa_action = ''user.password_reset_requested'',
                aa_entity_type = ''User'', aa_entity_id = Some (u_id u), aa_before_data = None,
                aa_after_data = None, aa_request_id = request_id, aa_ip_hash = ip_hash\<rparr>))))"

definition confirm_password_reset ::
  "app \<Rightarrow> timestamp \<Rightarrow> string \<Rightarrow> string \<Rightarrow> string \<Rightarrow> string option \<Rightarrow> string option \<Rightarrow> unit cmd" where
  "confirm_password_reset A now salt raw_token new_password request_id ip_hash =
     andthen (query (rt_by_hash (hash_token raw_token))) (\<lambda>found. case found of
       None \<Rightarrow> raise InvalidPasswordResetTokenError
     | Some token \<Rightarrow>
         andthen (query (user_by_id (rt_user_id token))) (\<lambda>owner. case owner of
           None \<Rightarrow> raise InvalidPasswordResetTokenError
         | Some u \<Rightarrow>
             if \<not> can_authenticate u then raise InvalidPasswordResetTokenError
             else
               andthen (from_entity (rt_mark_used now token)) (\<lambda>token'.
               (let u' = invalidate_credentials now
                      (change_password (hash_password (app_lib A) salt new_password) now u) in
                andthen (exec (rt_save token')) (\<lambda>_.
                andthen (exec (user_save u')) (\<lambda>_.
                andthen (bulk (consume_outstanding_for_user (u_id u') now)) (\<lambda>_.
                andthen (bulk (revoke_all_for_user (u_id u') now)) (\<lambda>revoked.
                exec (audit_add \<lparr>aa_actor_user_id = Some (u_id u'), aa_action = ''user.password_reset'',
                  aa_entity_type = ''User'', aa_entity_id = Some (u_id u'), aa_before_data = None,
                  aa_after_data = Some [(''sessions_revoked'', PInt (int revoked))],
                  aa_request_id = request_id, aa_ip_hash = ip_hash\<rparr>)))))))))"

lemma keeps_confirm_password_reset [keeps]:
  "preserves wf_db (confirm_password_reset A now salt raw pw rid ih)"
  unfolding confirm_password_reset_def Let_def
  by (intro keeps_query_user keeps keeps_exec_user_save) (simp add: user_methods)

lemma keeps_request_password_reset [keeps]:
  "preserves wf_db (request_password_reset A now raw email rid ih)"
  unfolding request_password_reset_def issue_password_reset_email_def Let_def by (intro keeps)

section \<open>What a redeemed link does\<close>

lemma confirm_success:
  assumes "confirm_password_reset A now salt raw pw rid ih db = (Inr (), db')"
  obtains t u t' d1 d2 n where "rt_by_hash (hash_token raw) db = Some t" and "user_by_id (rt_user_id t) db = Some u"
    and "can_authenticate u" and "rt_mark_used now t = Inr t'" and "rt_save t' db = Inr d1"
    and "user_save (invalidate_credentials now (change_password (hash_password (app_lib A) salt pw) now u)) d1 = Inr d2"
    and "audit_add \<lparr>aa_actor_user_id = Some (rt_user_id t), aa_action = ''user.password_reset'',
            aa_entity_type = ''User'', aa_entity_id = Some (rt_user_id t), aa_before_data = None,
            aa_after_data = Some [(''sessions_revoked'', PInt (int n))], aa_request_id = rid, aa_ip_hash = ih\<rparr>
          (snd (revoke_all_for_user (rt_user_id t) now (snd (consume_outstanding_for_user (rt_user_id t) now d2)))) = Inr db'"
    and "n = length (live_sessions (rt_user_id t) db)"
proof -
  from assms obtain t u t' d1 d2 d3 d4 a b where t: "rt_by_hash (hash_token raw) db = Some t"
    and u: "user_by_id (rt_user_id t) db = Some u" "can_authenticate u" and t': "rt_mark_used now t = Inr t'"
    and d1: "rt_save t' db = Inr d1"
    and d2: "user_save (invalidate_credentials now (change_password (hash_password (app_lib A) salt pw) now u)) d1 = Inr d2"
    and d3: "consume_outstanding_for_user (u_id u) now d2 = (a, d3)" and d4: "revoke_all_for_user (u_id u) now d3 = (b, d4)"
    and aud: "audit_add \<lparr>aa_actor_user_id = Some (u_id u), aa_action = ''user.password_reset'',
            aa_entity_type = ''User'', aa_entity_id = Some (u_id u), aa_before_data = None,
            aa_after_data = Some [(''sessions_revoked'', PInt (int b))], aa_request_id = rid, aa_ip_hash = ih\<rparr> d4 = Inr db'"
    by (auto simp: confirm_password_reset_def succeeds Let_def split: option.splits if_splits)
  have uid: "u_id u = rt_user_id t" using user_found [OF u(1)] by simp
  have "sessions d3 = sessions db"
    using d1 d2 d3 by (auto simp: rt_save_def user_save_def consume_outstanding_for_user_def split: option.splits)
  with d4 uid have "b = length (live_sessions (rt_user_id t) db)"
    by (auto simp: revoke_all_for_user_def live_sessions_def count_where_def)
  with t u t' d1 d2 d3 d4 aud uid show thesis by (intro that) auto
qed

lemma confirm_view:
  assumes "confirm_password_reset A now salt raw pw rid ih db = (Inr (), db')" and "wf_db db"
  obtains t where "rt_by_hash (hash_token raw) db = Some t" and "\<not> rt_is_used t" and "now < rt_expires_at t"
    and "account_of (rt_user_id t) db \<noteq> None"
    and "\<And>a. account_of (rt_user_id t) db = Some a \<Longrightarrow> acc_enabled a"
    and "account_of (rt_user_id t) db'
           = map_option (a_reset (hash_password (app_lib A) salt pw)) (account_of (rt_user_id t) db)"
    and "\<And>j. j \<noteq> rt_user_id t \<Longrightarrow> account_of j db' = account_of j db"
    and "mfa_credentials db' = mfa_credentials db" and "recovery_codes db' = recovery_codes db"
    and "\<And>x. x \<in> set (reset_tokens db') \<Longrightarrow> rt_user_id x = rt_user_id t \<Longrightarrow> rt_is_used x"
    and "map rt_token_hash (reset_tokens db') = map rt_token_hash (reset_tokens db)"
    and "map rt_user_id (reset_tokens db') = map rt_user_id (reset_tokens db)"
  using assms(1)
proof (rule confirm_success)
  fix t t' :: reset_token and u :: user and d1 d2 :: database and n :: nat
  let ?i = "rt_user_id t"
  let ?u = "invalidate_credentials now (change_password (hash_password (app_lib A) salt pw) now u)"
  let ?d3 = "snd (consume_outstanding_for_user ?i now d2)"
  let ?d4 = "snd (revoke_all_for_user ?i now ?d3)"
  assume t: "rt_by_hash (hash_token raw) db = Some t" and u: "user_by_id ?i db = Some u" "can_authenticate u"
    and t': "rt_mark_used now t = Inr t'" and d1: "rt_save t' db = Inr d1" and d2: "user_save ?u d1 = Inr d2"
    and aud: "audit_add \<lparr>aa_actor_user_id = Some ?i, aa_action = ''user.password_reset'',
            aa_entity_type = ''User'', aa_entity_id = Some ?i, aa_before_data = None,
            aa_after_data = Some [(''sessions_revoked'', PInt (int n))], aa_request_id = rid, aa_ip_hash = ih\<rparr> ?d4 = Inr db'"
  from t have tin: "t \<in> set (reset_tokens db)" by (auto simp: rt_by_hash_def dest: row_by_SomeD(1))
  have tt: "rt_id t' = rt_id t" "\<not> rt_is_used t" "now < rt_expires_at t"
    using t' by (auto simp: rt_mark_used_def split: if_splits)
  note same1 = rts_tables [OF d1] and same2 = us_tables [OF d2] and same4 = audit_tables [OF aud]
  have uid: "u_id ?u = ?i" using user_found [OF u(1)] by simp
  have us: "user_by_id ?i d1 = Some u" using u(1) same1 by (simp add: user_by_id_def)
  have new: "user_by_id ?i d2 = Some (user_stored d1 ?u u)"
    using us.get_saved [OF d2, of u] us uid by simp
  have owner: "user_by_id ?i db' = Some (user_stored d1 ?u u)"
    using new same4 by (simp add: user_by_id_def revoke_all_for_user_def consume_outstanding_for_user_def)
  have others: "user_by_id j db' = user_by_id j db" if "j \<noteq> ?i" for j
    using us.get_other [OF d2, of j] that uid same1 same4
    by (simp add: user_by_id_def revoke_all_for_user_def consume_outstanding_for_user_def)
  have live: "live_sessions j db' = (if j = ?i then [] else live_sessions j db)" for j
  proof -
    have "live_sessions j db' = live_sessions j ?d4" using same4 by (simp add: live_sessions_def)
    moreover have "live_sessions j ?d3 = live_sessions j db"
      using same1 same2 by (simp add: live_sessions_def consume_outstanding_for_user_def)
    ultimately show ?thesis by (simp add: live_sessions_revoke_all)
  qed
  have opens: "open_resets j db' = (if j = ?i then [] else open_resets j db)" for j
  proof -
    have "open_resets j db' = open_resets j ?d3" using same4 by (simp add: open_resets_def revoke_all_for_user_def)
    moreover have "open_resets j d2 = open_resets j d1" using same2 by (simp add: open_resets_def)
    moreover have "open_resets j d1 = open_resets j db" if "j \<noteq> ?i"
      by (rule open_resets_save [OF d1 assms(2) tin tt(1) that])
    ultimately show ?thesis by (simp add: open_resets_consume)
  qed
  have acc: "account_of ?i db' = map_option (a_reset (hash_password (app_lib A) salt pw)) (account_of ?i db)"
    by (simp add: account_of_def owner u(1) live opens account_spec can_authenticate_def
        change_password_def invalidate_credentials_def)
  have used: "rt_is_used x" if "x \<in> set (reset_tokens db')" "rt_user_id x = ?i" for x
    using that opens [of ?i] by (auto simp: open_resets_def filter_empty_conv outstanding_of_def rt_is_used_def)
  have keys: "map rt_token_hash (reset_tokens db') = map rt_token_hash (reset_tokens db)"
    "map rt_user_id (reset_tokens db') = map rt_user_id (reset_tokens db)"
    using d1 same2 same4
    by (auto simp: rt_save_def rt_stored_def revoke_all_for_user_def consume_outstanding_for_user_def
        split: option.splits)
  have rest: "mfa_credentials db' = mfa_credentials db" "recovery_codes db' = recovery_codes db"
    using same1 same2 same4 by (simp_all add: revoke_all_for_user_def consume_outstanding_for_user_def)
  have before: "account_of ?i db = Some \<lparr>acc_enabled = can_authenticate u, acc_hash = u_password_hash u,
     acc_epoch = u_auth_epoch u, acc_live = live_sessions ?i db, acc_open = open_resets ?i db\<rparr>"
    by (simp add: account_of_def u)
  have frame: "account_of j db' = account_of j db" if "j \<noteq> ?i" for j
    using that by (simp add: account_of_def others live opens)
  show thesis
    using before u(2) by (intro that [OF t tt(2,3) _ _ acc frame rest used keys]) auto
qed

text \<open>C9: a password reset implements the abstract reset of the account it was issued for: the
  new hash, the epoch one higher, no live session, no open reset link.  Every other account is
  untouched, and so are all second factors and recovery codes.  It only happens for an unused,
  unexpired token of an account that may sign in.\<close>

theorem confirm_reset_refines_spec:
  assumes "confirm_password_reset A now salt raw pw rid ih db = (Inr (), db')" and "wf_db db"
  shows "\<exists>t a. rt_by_hash (hash_token raw) db = Some t \<and> \<not> rt_is_used t \<and> now < rt_expires_at t
    \<and> account_of (rt_user_id t) db = Some a \<and> acc_enabled a
    \<and> account_of (rt_user_id t) db' = Some (a_reset (hash_password (app_lib A) salt pw) a)
    \<and> (\<forall>j. j \<noteq> rt_user_id t \<longrightarrow> account_of j db' = account_of j db)
    \<and> mfa_credentials db' = mfa_credentials db \<and> recovery_codes db' = recovery_codes db"
  using assms by (rule confirm_view) auto

lemma confirm_refused:
  assumes "\<forall>t. rt_by_hash (hash_token raw) db = Some t \<longrightarrow> rt_is_used t"
  shows "confirm_password_reset A now salt raw pw rid ih db = (Inl InvalidPasswordResetTokenError, db)"
  using assms
  by (auto simp: confirm_password_reset_def cmd_simps rt_mark_used_def split: option.split)

lemma token_with_user:
  assumes "map f xs = map f ys" and "map g xs = map g ys" and "x \<in> set xs"
  shows "\<exists>y \<in> set ys. f y = f x \<and> g y = g x"
proof -
  from assms(3) obtain n where n: "n < length xs" "xs ! n = x" by (auto simp: in_set_conv_nth)
  moreover have "length ys = length xs" using map_eq_imp_length_eq [OF assms(1)] by simp
  ultimately have "f (ys ! n) = f x" "g (ys ! n) = g x"
    using assms(1,2) by (metis nth_map)+
  with n \<open>length ys = length xs\<close> show ?thesis by (metis nth_mem)
qed

text \<open>A reset closes every link into the account: neither the redeemed link nor any other
  that had been issued for the same account can be redeemed afterwards, at any time, with any
  password, and the attempt changes nothing.\<close>

theorem reset_closes_every_link:
  assumes "confirm_password_reset A now salt raw pw rid ih db = (Inr (), db')" and "wf_db db"
    and "rt_by_hash (hash_token raw) db = Some t" and "rt_by_hash (hash_token raw2) db = Some t2"
    and "rt_user_id t2 = rt_user_id t"
  shows "confirm_password_reset A later salt2 raw2 pw2 rid2 ih2 db' = (Inl InvalidPasswordResetTokenError, db')
    \<and> confirm_password_reset A later salt2 raw pw2 rid2 ih2 db' = (Inl InvalidPasswordResetTokenError, db')"
  using assms(1,2)
proof (rule confirm_view)
  fix t0
  assume t0: "rt_by_hash (hash_token raw) db = Some t0"
    and used: "\<And>x. x \<in> set (reset_tokens db') \<Longrightarrow> rt_user_id x = rt_user_id t0 \<Longrightarrow> rt_is_used x"
    and keys: "map rt_token_hash (reset_tokens db') = map rt_token_hash (reset_tokens db)"
      "map rt_user_id (reset_tokens db') = map rt_user_id (reset_tokens db)"
  have spent: "rt_is_used x" if x: "rt_by_hash h db' = Some x" and y: "rt_by_hash h db = Some y"
    and same: "rt_user_id y = rt_user_id t" for h x y
  proof -
    from x have xin: "x \<in> set (reset_tokens db')" "rt_token_hash x = h"
      by (auto simp: rt_by_hash_def dest: row_by_SomeD)
    from token_with_user [OF keys xin(1)] obtain z where z: "z \<in> set (reset_tokens db)"
      "rt_token_hash z = h" "rt_user_id z = rt_user_id x" using xin(2) by auto
    from y have "y \<in> set (reset_tokens db)" "rt_token_hash y = h"
      by (auto simp: rt_by_hash_def dest: row_by_SomeD)
    with z assms(2) have "z = y" by (auto simp: wf_db_def distinct_map inj_on_def)
    with z(3) same used [OF xin(1)] t0 assms(3) show ?thesis by simp
  qed
  have refused: "confirm_password_reset A later salt2 r pw2 rid2 ih2 db' = (Inl InvalidPasswordResetTokenError, db')"
    if "rt_by_hash (hash_token r) db = Some y" and "rt_user_id y = rt_user_id t" for r y
    using that spent by (intro confirm_refused) blast
  from refused assms(3,4,5) show ?thesis by blast
qed

text \<open>A request for a reset answers the same, nothing at all, for an unknown address, for an
  account that may not sign in and within two minutes of the last request, and writes nothing
  in these cases.\<close>

theorem reset_request_silent:
  assumes "\<And>u. user_by_email email db = Some u \<Longrightarrow>
      \<not> can_authenticate u \<or> (\<exists>t. rt_latest (u_id u) db = Some t \<and> now < rt_created_at t + minutes 2)"
  shows "request_password_reset A now raw email rid ih db = (Inr (), db)"
proof (cases "user_by_email email db")
  case (Some u)
  with assms [OF Some] show ?thesis
    by (auto simp: request_password_reset_def cmd_simps reset_request_eligible_def RESET_REQUEST_COOLDOWN_def)
qed (simp add: request_password_reset_def cmd_simps)

end
