(* ===== verification/Auth_Routes.thy ===== *)
theory Auth_Routes
  imports Api_Boundary Verification_Flow Password_Reset
begin

text \<open>
  The routes of identity/api/auth.py with the body checks of identity/api/schemas.py.  The mail
  address of a body has passed \<open>EmailStr\<close>.  Random values a handler draws are arguments.
\<close>

section \<open>Registration and verification\<close>

definition password_ok :: "string \<Rightarrow> bool" where
  "password_ok p = (8 \<le> length p \<and> length p \<le> 256)"

definition registration_accepted :: string where
  "registration_accepted = ''If eligible, a verification email has been sent.''"

definition register_route ::
  "app \<Rightarrow> timestamp \<Rightarrow> string \<Rightarrow> string \<Rightarrow> request \<Rightarrow> string \<Rightarrow> string \<Rightarrow> string route" where
  "register_route A now salt raw rq email password =
     limited ''auth:register'' 5 3600 now rq (\<lambda>hs. valid_body (password_ok password) (\<lambda>w.
     and_answer (settle (\<lambda>_. False) (\<lambda>_. Unhandled)
       (register_user A now salt raw email password (rq_request_id rq) (client_ip_hash (app_cfg A) rq)) w)
     (\<lambda>_ w'. (\<lparr>an_status = 202, an_headers = hs, an_cookies = [], an_body = registration_accepted\<rparr>, w'))))"

definition verify_email_failure :: "app_error \<Rightarrow> failure" where
  "verify_email_failure e = (case e of
       VerificationTokenExpiredError i \<Rightarrow> problem 410 ''RESOURCE_EXPIRED'' ''Verification link expired''
         ''This verification link has expired. Request a new one.''
     | InvalidVerificationTokenError \<Rightarrow> problem 400 ''INVALID_TOKEN'' ''Verification link invalid''
         ''This verification link is invalid or has already been used.''
     | AlreadyVerifiedError i \<Rightarrow> problem 400 ''INVALID_TOKEN'' ''Verification link invalid''
         ''This verification link is invalid or has already been used.''
     | _ \<Rightarrow> Unhandled)"

definition verify_email_route :: "app \<Rightarrow> timestamp \<Rightarrow> request \<Rightarrow> string \<Rightarrow> unit route" where
  "verify_email_route A now rq token =
     limited ''auth:verify'' 20 3600 now rq (\<lambda>hs w.
     and_answer (settle (\<lambda>_. False) verify_email_failure
       (verify_email now token (rq_request_id rq) (client_ip_hash (app_cfg A) rq)) w)
     (\<lambda>_ w'. (\<lparr>an_status = 204, an_headers = hs, an_cookies = [], an_body = ()\<rparr>, w')))"

definition resend_verification_route :: "app \<Rightarrow> timestamp \<Rightarrow> string \<Rightarrow> request \<Rightarrow> string \<Rightarrow> string route" where
  "resend_verification_route A now raw rq email =
     limited ''auth:resend'' 5 3600 now rq (\<lambda>hs w.
     and_answer (settle (\<lambda>_. False) (\<lambda>_. Unhandled)
       (resend_verification A now raw email (rq_request_id rq) (client_ip_hash (app_cfg A) rq)) w)
     (\<lambda>_ w'. (\<lparr>an_status = 202, an_headers = hs, an_cookies = [], an_body = registration_accepted\<rparr>, w')))"

section \<open>Login, logout and refresh\<close>

datatype login_body =
    SessionRead uuid string user_role bool timestamp
  | MfaChallengeRead string int

definition login_failure :: "app_error \<Rightarrow> failure" where
  "login_failure e = (case e of
       AccountLockedError secs \<Rightarrow> Problem \<lparr>ae_status_code = 429, ae_code = ''RATE_LIMITED'',
         ae_title = ''Too many failed attempts'', ae_detail = ''Too many failed login attempts. Try again later.'',
         ae_headers = [(''Retry-After'', py_str_int secs)]\<rparr>
     | InvalidCredentialsError \<Rightarrow> problem 401 ''INVALID_CREDENTIALS'' ''Login failed''
         ''Email or password is incorrect.''
     | AccountDisabledError i \<Rightarrow> problem 403 ''ACCOUNT_DISABLED'' ''Account unavailable''
         ''This account can no longer be used to sign in.''
     | _ \<Rightarrow> Unhandled)"

definition login_answer ::
  "app \<Rightarrow> timestamp \<Rightarrow> string \<Rightarrow> (string \<times> string) list \<Rightarrow> login_outcome \<Rightarrow> world \<Rightarrow> login_body answer \<times> world" where
  "login_answer A now challenge_id hs out w = (case out of
       MfaChallengeRequired user_id epoch \<Rightarrow>
         (\<lparr>an_status = 202, an_headers = hs, an_cookies = [],
           an_body = MfaChallengeRead challenge_id CHALLENGE_TTL_SECONDS\<rparr>,
          w\<lparr>w_redis := create_login_challenge now challenge_id user_id epoch (w_redis w)\<rparr>)
     | LoggedIn res \<Rightarrow>
         (\<lparr>an_status = 200, an_headers = hs,
           an_cookies = set_session_cookies (app_cfg A) (lr_access_token res) (lr_refresh_token res)
             (lr_csrf_token res) [],
           an_body = SessionRead (lr_user_id res) (lr_email res) (lr_role res) (lr_email_verified res)
             (lr_session_expires_at res)\<rparr>, w))"

text \<open>The use case inside the request's transaction; the throttle's counters live in Redis and
  are kept.\<close>

definition login_in_request ::
  "app \<Rightarrow> timestamp \<Rightarrow> uuid \<Rightarrow> login_args \<Rightarrow> world \<Rightarrow> (failure + login_outcome) \<times> world" where
  "login_in_request A now session_id args w = (case login A now session_id args (w_db w) (w_redis w) of
       (Inl e, db', r') \<Rightarrow> (Inl (login_failure e),
          w\<lparr>w_db := (w_db w)\<lparr>gen_ctr := gen_ctr db'\<rparr>, w_redis := r'\<rparr>)
     | (Inr out, db', r') \<Rightarrow> (Inr out, w\<lparr>w_db := db', w_redis := r'\<rparr>))"

definition login_route ::
  "app \<Rightarrow> timestamp \<Rightarrow> uuid \<Rightarrow> string \<Rightarrow> request \<Rightarrow> string \<Rightarrow> string \<Rightarrow> login_body route" where
  "login_route A now session_id challenge_id rq email password =
     limited ''auth:login'' 20 3600 now rq (\<lambda>hs. valid_body (length password \<le> 256) (\<lambda>w.
       and_answer (login_in_request A now session_id
           \<lparr>la_email = email, la_password = password, la_ip = rq_client rq,
            la_ip_hash = client_ip_hash (app_cfg A) rq, la_user_agent = user_agent rq,
            la_request_id = rq_request_id rq\<rparr> w)
         (login_answer A now challenge_id hs)))"

definition logout_route :: "app \<Rightarrow> timestamp \<Rightarrow> request \<Rightarrow> unit route" where
  "logout_route A now rq =
     depends (\<lambda>w. require_csrf A now rq (w_db w)) (\<lambda>claims w.
     and_answer (settle (\<lambda>_. False) (\<lambda>_. Unhandled)
       (logout now (ac_session_id claims) (rq_request_id rq) (client_ip_hash (app_cfg A) rq)) w)
     (\<lambda>_ w'. (\<lparr>an_status = 204, an_headers = [], an_cookies = clear_session_cookies (app_cfg A) [],
               an_body = ()\<rparr>, w')))"

definition refresh_failure :: "app_error \<Rightarrow> failure" where
  "refresh_failure e = (if is_session_terminated e \<or> is_invalid_session e then unauthenticated_error else Unhandled)"

definition refresh_route :: "app \<Rightarrow> timestamp \<Rightarrow> request \<Rightarrow> unit route" where
  "refresh_route A now rq =
     limited ''auth:refresh'' 60 3600 now rq (\<lambda>hs w.
       (case rq_cookies rq REFRESH_COOKIE of
          None \<Rightarrow> (Inl unauthenticated_error, w)
        | Some raw \<Rightarrow>
            if raw = [] then (Inl unauthenticated_error, w)
            else (case decode_refresh_token (app_lib A) (app_cfg A) now raw of
                Inl e \<Rightarrow> (Inl (if is_invalid_session e then unauthenticated_error else Unhandled), w)
              | Inr claims \<Rightarrow>
                  if \<not> verify_csrf_token (app_cfg A) (rf_session_id claims) (rq_headers rq CSRF_HEADER)
                  then (Inl csrf_invalid_error, w)
                  else and_answer (settle is_session_terminated refresh_failure
                      (refresh_session A now raw (rq_request_id rq) (client_ip_hash (app_cfg A) rq)
                         (is_completed now (rf_session_id claims) (w_redis w))) w)
                    (\<lambda>res w'. (\<lparr>an_status = 204, an_headers = hs,
                       an_cookies = set_session_cookies (app_cfg A) (rr_access_token res)
                         (rr_refresh_token res) (rr_csrf_token res) [], an_body = ()\<rparr>, w')))))"

section \<open>Password reset\<close>

definition reset_accepted :: string where
  "reset_accepted = ''If an account exists for that address, a reset email has been sent.''"

definition request_password_reset_route :: "app \<Rightarrow> timestamp \<Rightarrow> string \<Rightarrow> request \<Rightarrow> string \<Rightarrow> string route" where
  "request_password_reset_route A now raw rq email =
     limited ''auth:reset-request'' 5 3600 now rq (\<lambda>hs w.
     and_answer (settle (\<lambda>_. False) (\<lambda>_. Unhandled)
       (request_password_reset A now raw email (rq_request_id rq) (client_ip_hash (app_cfg A) rq)) w)
     (\<lambda>_ w'. (\<lparr>an_status = 202, an_headers = hs, an_cookies = [], an_body = reset_accepted\<rparr>, w')))"

definition reset_failure :: "app_error \<Rightarrow> failure" where
  "reset_failure e = (case e of
       PasswordResetTokenExpiredError i \<Rightarrow> problem 410 ''RESOURCE_EXPIRED'' ''Reset link expired''
         ''This password reset link has expired. Request a new one.''
     | InvalidPasswordResetTokenError \<Rightarrow> problem 400 ''INVALID_TOKEN'' ''Reset link invalid''
         ''This password reset link is invalid or has already been used.''
     | _ \<Rightarrow> Unhandled)"

definition confirm_password_reset_route ::
  "app \<Rightarrow> timestamp \<Rightarrow> string \<Rightarrow> request \<Rightarrow> string \<Rightarrow> string \<Rightarrow> unit route" where
  "confirm_password_reset_route A now salt rq token new_password =
     limited ''auth:reset-confirm'' 20 3600 now rq (\<lambda>hs. valid_body (password_ok new_password) (\<lambda>w.
     and_answer (settle (\<lambda>_. False) reset_failure
       (confirm_password_reset A now salt token new_password (rq_request_id rq) (client_ip_hash (app_cfg A) rq)) w)
     (\<lambda>_ w'. (\<lparr>an_status = 204, an_headers = hs, an_cookies = clear_session_cookies (app_cfg A) [],
               an_body = ()\<rparr>, w'))))"

section \<open>What a client can tell apart\<close>

text \<open>A failed redemption is a rollback: nothing but the identifiers drawn is left.\<close>

lemma settle_rollback:
  assumes "settle (\<lambda>_. False) f c w = (Inl x, w')"
  shows "\<exists>n. w' = w\<lparr>w_db := (w_db w)\<lparr>gen_ctr := n\<rparr>\<rparr>"
  using assms by (auto simp: settle_def in_transaction_def split: prod.splits sum.splits)

definition same_but_ids :: "world \<Rightarrow> world \<Rightarrow> bool" where
  "same_but_ids w w' = ((w_db w)\<lparr>gen_ctr := 0\<rparr> = (w_db w')\<lparr>gen_ctr := 0\<rparr>)"

lemma login_in_request_ok:
  "login_in_request A now sid args w = (Inr out, w') \<longleftrightarrow>
     (\<exists>db' r'. login A now sid args (w_db w) (w_redis w) = (Inr out, db', r')
        \<and> w' = w\<lparr>w_db := db', w_redis := r'\<rparr>)"
  by (auto simp: login_in_request_def split: prod.splits sum.splits)

text \<open>Whenever the login route answers with a challenge it sets no cookie and stores no
  session, and the challenge it names resolves to that account with the epoch read under the
  lock.  When it answers with a session, the access cookie carries a token that has not completed
  the second factor.\<close>

theorem login_route_answers:
  assumes "login_route A now sid cid rq email password w = (Inr ans, w')"
  shows "(an_status ans = 202 \<and> an_body ans = MfaChallengeRead cid 300 \<and> an_cookies ans = []
       \<and> sessions (w_db w') = sessions (w_db w)
       \<and> (\<exists>u. user_by_id (u_id u) (w_db w) = Some u \<and> resolve_login_challenge now cid (w_redis w')
            = Some \<lparr>pc_user_id = u_id u, pc_epoch = u_auth_epoch u\<rparr>))
    \<or> (an_status ans = 200
       \<and> (\<exists>u ck. user_by_id (u_id u) (w_db w) = Some u \<and> can_authenticate u
            \<and> browser_jar (an_cookies ans) (ACCESS_COOKIE, ''/'') = Some ck
            \<and> ck_value ck = issue_access_token (app_lib A) (app_cfg A) (claims_of u sid False) now))"
proof -
  from assms obtain hs r1 args out db' r' where
    lg: "login A now sid args (w_db w) r1 = (Inr out, db', r')"
    and ans: "login_answer A now cid hs out (w\<lparr>w_db := db', w_redis := r'\<rparr>) = (ans, w')"
    by (auto simp: login_route_def route_ok login_in_request_ok)
  from lg obtain u0 where un: "login_unlocked A now args (w_db w) r1 = (Inr u0, r')"
    and lo: "login_locked A now sid args (u_id u0) (u_password_hash u0) (w_db w) = (Inr out, db')"
    by (auto simp: login_Inr)
  show ?thesis
  proof (cases out)
    case (LoggedIn res)
    with lo obtain u where u: "user_by_id (u_id u0) (w_db w) = Some u" "can_authenticate u"
      and op: "open_session A now sid False u (la_ip_hash args) (la_user_agent args) (la_request_id args) (w_db w) = (Inr res, db')"
      by (auto elim: login_locked_LoggedIn)
    have uid: "u_id u = u_id u0" using user_found [OF u(1)] by simp
    from ans LoggedIn open_session_effect(7) [OF op] u uid show ?thesis
      by (intro disjI2 conjI exI [of _ u] exI) (auto simp: login_answer_def browser_jar_def cookie_defs)
  next
    case (MfaChallengeRequired i e)
    with lo obtain u where u: "user_by_id (u_id u0) (w_db w) = Some u" "i = u_id u" "e = u_auth_epoch u"
      "sessions db' = sessions (w_db w)"
      by (auto elim: login_locked_challenge)
    have uid: "u_id u = u_id u0" using user_found [OF u(1)] by simp
    have "resolve_login_challenge now cid (create_login_challenge now cid i e r')
        = Some \<lparr>pc_user_id = i, pc_epoch = e\<rparr>"
      by (simp add: resolve_login_challenge_def create_login_challenge_def r_get_def r_set_def
          CHALLENGE_TTL_SECONDS_def parse_challenge_format [simplified])
    with ans MfaChallengeRequired u uid show ?thesis
      by (intro disjI1 conjI exI [of _ u]) (auto simp: login_answer_def CHALLENGE_TTL_SECONDS_def)
  qed
qed

text \<open>On the reset and verification routes an unknown link, a used link, and the link of an
  account that may not sign in get one and the same answer, and a refused redemption leaves the
  database as it was.\<close>

theorem bad_links_indistinguishable:
  assumes "password_ok pw"
    and "rate_limiter ''auth:reset-confirm'' 20 3600 now (rq_client rq) (w_redis w) = Some (Inr hs, r')"
    and "\<forall>t. rt_by_hash (hash_token raw) (w_db w) = Some t \<longrightarrow>
        rt_is_used t \<or> (\<forall>u. user_by_id (rt_user_id t) (w_db w) = Some u \<longrightarrow> \<not> can_authenticate u)"
  shows "fst (confirm_password_reset_route A now salt rq raw pw w)
       = Inl (problem 400 ''INVALID_TOKEN'' ''Reset link invalid''
           ''This password reset link is invalid or has already been used.'')
     \<and> same_but_ids w (snd (confirm_password_reset_route A now salt rq raw pw w))"
proof -
  have "confirm_password_reset A now salt raw pw rid ih (w_db w) = (Inl InvalidPasswordResetTokenError, w_db w)" for rid ih
    using assms(3)
    by (auto simp: confirm_password_reset_def cmd_simps rt_mark_used_def split: option.split)
  with assms(1,2) show ?thesis
    by (simp add: confirm_password_reset_route_def limited_def valid_body_def settle_def in_transaction_def
        and_answer_def reset_failure_def same_but_ids_def)
qed

end
