(* ===== verification/Second_Factor.thy ===== *)
theory Second_Factor
  imports Libraries
begin

text \<open>
  The second factor: TOTP steps (identity/infrastructure/totp.py), the encrypted secret
  (secret_cipher.py) and the recovery codes (identity/domain/recovery_codes.py).
\<close>

section \<open>TOTP\<close>

definition valid_window :: int where "valid_window = 1"

definition TOTP_STEP_SECONDS :: int where "TOTP_STEP_SECONDS = 30"

text \<open>\<open>int(now.timestamp()) // 30\<close>: \<open>int\<close> truncates towards zero, \<open>//\<close> floors.\<close>

definition current_step :: "timestamp \<Rightarrow> int" where
  "current_step now = (sgn now * (\<bar>now\<bar> div 1000000)) div TOTP_STEP_SECONDS"

definition is_ascii :: "string \<Rightarrow> bool" where
  "is_ascii s = (\<forall>c \<in> set s. ord_of c < 128)"

text \<open>The loop over the window; a later match replaces an earlier one.\<close>

fun match_steps :: "(int \<Rightarrow> string) \<Rightarrow> string \<Rightarrow> int list \<Rightarrow> int option \<Rightarrow> int option" where
  "match_steps candidate submitted [] matched = matched"
| "match_steps candidate submitted (step # steps) matched =
     match_steps candidate submitted steps
       (if candidate step = submitted then Some step else matched)"

definition window_steps :: "timestamp \<Rightarrow> int list" where
  "window_steps now = map (\<lambda>offset. current_step now + offset) [- valid_window .. valid_window]"

definition verify_code_step :: "libs \<Rightarrow> string \<Rightarrow> string \<Rightarrow> timestamp \<Rightarrow> int option" where
  "verify_code_step L secret code now =
     (let submitted = py_strip code in
      if \<not> is_ascii submitted then None
      else match_steps (\<lambda>step. totp_at L secret (step * TOTP_STEP_SECONDS)) submitted (window_steps now) None)"

definition verify_code :: "libs \<Rightarrow> string \<Rightarrow> string \<Rightarrow> timestamp \<Rightarrow> bool" where
  "verify_code L secret code now = (verify_code_step L secret code now \<noteq> None)"

lemma match_steps_result:
  "match_steps f s steps m = (case filter (\<lambda>k. f k = s) steps of [] \<Rightarrow> m | ks \<Rightarrow> Some (last ks))"
  by (induction steps arbitrary: m) (auto split: list.splits)

lemma window_steps_three:
  "window_steps now = [current_step now - 1, current_step now, current_step now + 1]"
  by (simp add: window_steps_def valid_window_def upto_rec1)

text \<open>A code is matched exactly to the latest of the three window steps whose TOTP it is;
  no code outside the window or with non-ASCII characters is accepted.\<close>

theorem verify_code_step_spec:
  "verify_code_step L secret code now = Some k \<longleftrightarrow>
     is_ascii (py_strip code) \<and> \<bar>k - current_step now\<bar> \<le> 1
     \<and> totp_at L secret (k * TOTP_STEP_SECONDS) = py_strip code
     \<and> (\<forall>j. k < j \<and> j \<le> current_step now + 1 \<longrightarrow> totp_at L secret (j * TOTP_STEP_SECONDS) \<noteq> py_strip code)"
proof -
  let ?c = "current_step now" and ?ok = "\<lambda>k. totp_at L secret (k * TOTP_STEP_SECONDS) = py_strip code"
  have cases3: "k = ?c - 1 \<or> k = ?c \<or> k = ?c + 1" if "\<bar>k - ?c\<bar> \<le> 1" for k
    using that by arith
  have later: "(\<forall>j. k < j \<and> j \<le> ?c + 1 \<longrightarrow> \<not> ?ok j) \<longleftrightarrow>
      (k < ?c - 1 \<longrightarrow> (\<forall>j. k < j \<and> j < ?c - 1 \<longrightarrow> \<not> ?ok j) \<and> \<not> ?ok (?c - 1)) \<and> (k < ?c \<longrightarrow> \<not> ?ok ?c)
      \<and> (k < ?c + 1 \<longrightarrow> \<not> ?ok (?c + 1))" for k
    by (smt (verit))
  show ?thesis
    unfolding verify_code_step_def Let_def match_steps_result window_steps_three later
    by (auto dest!: cases3)
qed

section \<open>The encrypted secret\<close>

definition b64_char :: "nat \<Rightarrow> char" where
  "b64_char n = ''ABCDEFGHIJKLMNOPQRSTUVWXYZabcdefghijklmnopqrstuvwxyz0123456789-_'' ! n"

definition b64_digit :: "int \<Rightarrow> char" where
  "b64_digit i = b64_char (nat (i mod 64))"

fun urlsafe_b64encode :: "bytes \<Rightarrow> string" where
  "urlsafe_b64encode [] = []"
| "urlsafe_b64encode [a] = [b64_digit (a div 4), b64_digit (a * 16), CHR ''='', CHR ''='']"
| "urlsafe_b64encode [a, b] =
     [b64_digit (a div 4), b64_digit (a * 16 + b div 16), b64_digit (b * 4), CHR ''='']"
| "urlsafe_b64encode (a # b # c # bs) =
     b64_digit (a div 4) # b64_digit (a * 16 + b div 16) # b64_digit (b * 4 + c div 64) # b64_digit c
       # urlsafe_b64encode bs"

definition fernet_key :: "settings \<Rightarrow> string" where
  "fernet_key cfg = urlsafe_b64encode (sha256 (utf8 (mfa_secret_key cfg)))"

definition encrypt_secret :: "libs \<Rightarrow> settings \<Rightarrow> bytes \<Rightarrow> string \<Rightarrow> bytes" where
  "encrypt_secret L cfg nonce secret = fernet_encrypt L (fernet_key cfg) nonce (utf8 secret)"

definition decrypt_secret :: "libs \<Rightarrow> settings \<Rightarrow> bytes \<Rightarrow> app_error + string" where
  "decrypt_secret L cfg ciphertext = (case fernet_decrypt L (fernet_key cfg) ciphertext of
       None \<Rightarrow> Inl SecretDecryptionError
     | Some bs \<Rightarrow> (case utf8_decode bs of None \<Rightarrow> Inl (Uncaught ValueError) | Some s \<Rightarrow> Inr s))"

text \<open>What was encrypted under the configured key is read back unchanged, for any secret.\<close>

theorem decrypt_encrypt_secret:
  assumes "fernet_decrypt L (fernet_key cfg) (encrypt_secret L cfg nonce secret) = Some (utf8 secret)"
  shows "decrypt_secret L cfg (encrypt_secret L cfg nonce secret) = Inr secret"
  using assms by (simp add: decrypt_secret_def utf8_decode_utf8)

section \<open>Recovery codes\<close>

definition code_alphabet :: string where
  "code_alphabet = ''ABCDEFGHJKMNPQRSTVWXYZ23456789''"

definition CODE_LENGTH :: nat where "CODE_LENGTH = 12"
definition GROUP_SIZE :: nat where "GROUP_SIZE = 4"
definition CODES_PER_SET :: nat where "CODES_PER_SET = 10"

text \<open>\<open>secrets.choice\<close> draws an index below the length of its argument; the draws are the
  list \<open>draws\<close>.\<close>

fun groups_of :: "nat \<Rightarrow> nat \<Rightarrow> string \<Rightarrow> string list" where
  "groups_of 0 n raw = []"
| "groups_of (Suc k) n raw = take n raw # groups_of k n (drop n raw)"

fun join_dash :: "string list \<Rightarrow> string" where
  "join_dash [] = []"
| "join_dash [g] = g"
| "join_dash (g # gs) = g @ CHR ''-'' # join_dash gs"

definition generate_code :: "nat list \<Rightarrow> string" where
  "generate_code draws =
     (let raw = map (\<lambda>i. code_alphabet ! (i mod length code_alphabet)) (take CODE_LENGTH draws)
      in join_dash (groups_of (CODE_LENGTH div GROUP_SIZE) GROUP_SIZE raw))"

definition generate_code_set :: "nat list list \<Rightarrow> string list" where
  "generate_code_set draws = map generate_code (take CODES_PER_SET draws)"

definition normalize_code :: "string \<Rightarrow> string" where
  "normalize_code s = filter (\<lambda>c. c \<in> set code_alphabet) (py_upper s)"

lemma in_join_dash: "c \<in> set (join_dash gs) \<Longrightarrow> c = CHR ''-'' \<or> c \<in> set (concat gs)"
  by (induction gs rule: join_dash.induct) auto

lemma filter_join_dash:
  "\<not> P CHR ''-'' \<Longrightarrow> filter P (join_dash gs) = filter P (concat gs)"
  by (induction gs rule: join_dash.induct) auto

lemma concat_groups_of: "length raw = k * n \<Longrightarrow> concat (groups_of k n raw) = raw"
  by (induction k arbitrary: raw) auto

text \<open>The characters a printed code can contain are fixed by \<open>upper\<close>, and lower-casing them
  is undone by it.\<close>

lemma alphabet_upper:
  assumes "c \<in> set code_alphabet \<or> c = CHR ''-''"
  shows "upper_char c = [c]" and "upper_char (lower_char c) = [c]"
proof -
  have "list_all (\<lambda>c. upper_char c = [c] \<and> upper_char (lower_char c) = [c]) (code_alphabet @ ''-'')"
    by code_simp
  with assms show "upper_char c = [c]" and "upper_char (lower_char c) = [c]"
    by (auto simp: list_all_iff)
qed

lemma concat_map_single: "(\<And>c. c \<in> set s \<Longrightarrow> f c = [c]) \<Longrightarrow> concat (map f s) = s"
  by (induction s) auto

lemma alphabet_card: "length code_alphabet = 30" "distinct code_alphabet" "CHR ''-'' \<notin> set code_alphabet"
  by code_simp+

definition raw_code :: "nat list \<Rightarrow> string" where
  "raw_code draws = map (\<lambda>i. code_alphabet ! (i mod length code_alphabet)) (take CODE_LENGTH draws)"

lemma raw_code_chars: "c \<in> set (raw_code draws) \<Longrightarrow> c \<in> set code_alphabet"
  by (auto simp: raw_code_def alphabet_card(1) intro: nth_mem)

lemma generate_code_raw: "generate_code draws = join_dash (groups_of 3 4 (raw_code draws))"
  by (simp add: generate_code_def raw_code_def CODE_LENGTH_def GROUP_SIZE_def)

lemma generated_filter:
  assumes "length draws \<ge> CODE_LENGTH" and "\<And>c. c \<in> set code_alphabet \<Longrightarrow> P c" and "\<not> P CHR ''-''"
  shows "filter P (generate_code draws) = raw_code draws"
proof -
  have len: "length (raw_code draws) = 3 * 4"
    using assms(1) by (simp add: raw_code_def CODE_LENGTH_def)
  have "filter P (raw_code draws) = raw_code draws"
    using assms(2) raw_code_chars by (auto simp: filter_id_conv)
  then show ?thesis
    by (simp add: generate_code_raw filter_join_dash assms(3) concat_groups_of [OF len])
qed

lemma set_groups_of: "c \<in> set (concat (groups_of k n raw)) \<Longrightarrow> c \<in> set raw"
  by (induction k arbitrary: raw) (auto dest: in_set_takeD in_set_dropD)

lemma generated_chars:
  "c \<in> set (generate_code draws) \<Longrightarrow> c \<in> set code_alphabet \<or> c = CHR ''-''"
  by (auto simp: generate_code_raw dest!: in_join_dash dest: set_groups_of raw_code_chars
      simp del: set_concat)

text \<open>However an administrator types a printed code - as printed, in lower case, or without
  the dashes - it is normalised to the same twelve characters of the alphabet, the ones that
  were drawn.\<close>

theorem normalize_generated_code:
  assumes "length draws \<ge> CODE_LENGTH"
  shows "normalize_code (generate_code draws) = raw_code draws
    \<and> normalize_code (py_lower (generate_code draws)) = raw_code draws
    \<and> normalize_code (filter (\<lambda>c. c \<noteq> CHR ''-'') (generate_code draws)) = raw_code draws
    \<and> length (raw_code draws) = 12"
proof -
  have up: "py_upper s = s" and low: "py_upper (py_lower s) = s"
    if "\<forall>c \<in> set s. c \<in> set code_alphabet \<or> c = CHR ''-''" for s
    using that alphabet_upper by (auto simp: py_upper_def py_lower_def o_def intro!: concat_map_single)
  have chars: "\<forall>c \<in> set (generate_code draws). c \<in> set code_alphabet \<or> c = CHR ''-''"
    using generated_chars by blast
  have "length (raw_code draws) = 12"
    using assms by (simp add: raw_code_def CODE_LENGTH_def)
  moreover have keep: "filter (\<lambda>c. c \<in> set code_alphabet) (generate_code draws) = raw_code draws"
    by (rule generated_filter [OF assms]) (auto simp: alphabet_card)
  moreover have nodash: "filter (\<lambda>c. c \<noteq> CHR ''-'') (generate_code draws) = raw_code draws"
    by (rule generated_filter [OF assms]) (use alphabet_card(3) in auto)
  moreover have "filter (\<lambda>c. c \<in> set code_alphabet) (py_upper (raw_code draws)) = raw_code draws"
    using up [of "raw_code draws"] raw_code_chars by (auto simp: filter_id_conv)
  ultimately show ?thesis
    by (simp add: normalize_code_def up [OF chars] low [OF chars])
qed

text \<open>The alphabet has 30 symbols, so there are \<open>30 ^ 12\<close> codes, fewer than \<open>2 ^ 59\<close>.\<close>

theorem recovery_code_space:
  "card {raw. length raw = CODE_LENGTH \<and> set raw \<subseteq> set code_alphabet} = 30 ^ 12
     \<and> (30::nat) ^ 12 < 2 ^ 59"
proof -
  have "card (set code_alphabet) = 30"
    using alphabet_card by (simp add: distinct_card)
  then have "card {raw. set raw \<subseteq> set code_alphabet \<and> length raw = CODE_LENGTH} = 30 ^ CODE_LENGTH"
    using card_lists_length_eq [of "set code_alphabet" CODE_LENGTH] by simp
  moreover have "{raw. length raw = CODE_LENGTH \<and> set raw \<subseteq> set code_alphabet}
      = {raw. set raw \<subseteq> set code_alphabet \<and> length raw = CODE_LENGTH}" by blast
  ultimately show ?thesis by (simp add: CODE_LENGTH_def)
qed

end
