(* ===== verification/Mfa_Commands.thy ===== *)
theory Mfa_Commands
  imports Session_Commands Second_Factor
begin

text \<open>
  The second factor's commands: mfa_setup.py, mfa_confirm_setup.py, mfa_verify.py,
  mfa_complete_login.py and mfa_regenerate_recovery_codes.py.  The secret, the Fernet nonce and
  the draws of \<open>secrets.choice\<close> are arguments.
\<close>

section \<open>Enrolment\<close>

record mfa_setup_result =
  ms_secret :: string
  ms_otpauth_uri :: string
  ms_issuer :: string
  ms_account_name :: string

definition provisioning_uri :: "libs \<Rightarrow> settings \<Rightarrow> string \<Rightarrow> string \<Rightarrow> string" where
  "provisioning_uri L cfg secret account_name = totp_uri L secret account_name (mfa_issuer cfg)"

definition audit_mfa ::
  "uuid \<Rightarrow> string \<Rightarrow> uuid option \<Rightarrow> payload option \<Rightarrow> payload option \<Rightarrow> string option \<Rightarrow> string option \<Rightarrow> audit_args" where
  "audit_mfa user_id action entity_id before after request_id ip_hash =
     \<lparr>aa_actor_user_id = Some user_id, aa_action = action, aa_entity_type = ''MfaCredential'',
      aa_entity_id = entity_id, aa_before_data = before, aa_after_data = after,
      aa_request_id = request_id, aa_ip_hash = ip_hash\<rparr>"

definition mfa_setup ::
  "app \<Rightarrow> string \<Rightarrow> bytes \<Rightarrow> uuid \<Rightarrow> string \<Rightarrow> string option \<Rightarrow> string option \<Rightarrow> mfa_setup_result cmd" where
  "mfa_setup A secret nonce user_id current_password request_id ip_hash =
     andthen (query (user_by_id user_id)) (\<lambda>found. case found of
       None \<Rightarrow> raise MfaNotEnrolledError
     | Some u \<Rightarrow>
         if \<not> can_authenticate u then raise MfaNotEnrolledError
         else andthen (from_entity (verify_password (app_lib A) current_password (u_password_hash u))) (\<lambda>good.
           if \<not> good then raise InvalidCredentialsError
           else andthen (query (mc_by_user_id user_id)) (\<lambda>existing.
             if (case existing of None \<Rightarrow> False | Some c \<Rightarrow> is_enabled c) then raise MfaAlreadyEnabledError
             else let ciphertext = encrypt_secret (app_lib A) (app_cfg A) nonce secret in
               andthen (case existing of
                   None \<Rightarrow> exec (mc_add user_id TOTP ciphertext)
                 | Some c \<Rightarrow> exec (mc_save (c\<lparr>mc_secret_ciphertext := ciphertext\<rparr>))) (\<lambda>_.
               andthen (exec (audit_add (audit_mfa user_id ''mfa.enrollment_started'' None None None request_id ip_hash))) (\<lambda>_.
               ret \<lparr>ms_secret = secret,
                    ms_otpauth_uri = provisioning_uri (app_lib A) (app_cfg A) secret (u_email u),
                    ms_issuer = mfa_issuer (app_cfg A), ms_account_name = u_email u\<rparr>)))))"

record recovery_codes_result =
  rs_recovery_codes :: "string list"
  rs_generated_at :: timestamp

definition issued :: "string list \<Rightarrow> payload" where
  "issued codes = [(''recovery_codes_issued'', PInt (int (length codes)))]"

definition mfa_confirm_setup ::
  "app \<Rightarrow> timestamp \<Rightarrow> nat list list \<Rightarrow> uuid \<Rightarrow> string \<Rightarrow> string option \<Rightarrow> string option
     \<Rightarrow> recovery_codes_result cmd" where
  "mfa_confirm_setup A now draws user_id code request_id ip_hash =
     andthen (query (mc_by_user_id user_id)) (\<lambda>found. case found of
       None \<Rightarrow> raise MfaNotEnrolledError
     | Some c \<Rightarrow>
         if is_enabled c then raise MfaAlreadyEnabledError
         else andthen (from_entity (decrypt_secret (app_lib A) (app_cfg A) (mc_secret_ciphertext c))) (\<lambda>secret.
           case verify_code_step (app_lib A) secret code now of
             None \<Rightarrow> raise InvalidMfaCodeError
           | Some step \<Rightarrow>
               andthen (exec (mc_save (record_totp_step step now (enable now c)))) (\<lambda>_.
               andthen (bulk (rc_delete_unused (mc_id c))) (\<lambda>_.
               (let codes = generate_code_set draws in
                andthen (exec (rc_add_set (mc_id c) (map (\<lambda>p. hash_token (normalize_code p)) codes))) (\<lambda>_.
                andthen (exec (audit_add (audit_mfa user_id ''mfa.enabled'' (Some (mc_id c)) None
                  (Some (issued codes)) request_id ip_hash))) (\<lambda>_.
                ret \<lparr>rs_recovery_codes = codes, rs_generated_at = now\<rparr>))))))) "

definition mfa_regenerate_recovery_codes ::
  "app \<Rightarrow> timestamp \<Rightarrow> nat list list \<Rightarrow> uuid \<Rightarrow> string \<Rightarrow> string option \<Rightarrow> string option
     \<Rightarrow> recovery_codes_result cmd" where
  "mfa_regenerate_recovery_codes A now draws user_id current_password request_id ip_hash =
     andthen (query (user_by_id user_id)) (\<lambda>found. case found of
       None \<Rightarrow> raise MfaNotEnrolledError
     | Some u \<Rightarrow>
         if \<not> can_authenticate u then raise MfaNotEnrolledError
         else andthen (from_entity (verify_password (app_lib A) current_password (u_password_hash u))) (\<lambda>good.
           if \<not> good then raise InvalidCredentialsError
           else andthen (query (mc_by_user_id user_id)) (\<lambda>cred. case cred of
               None \<Rightarrow> raise MfaNotEnrolledError
             | Some c \<Rightarrow>
                 if \<not> is_enabled c then raise MfaNotEnrolledError
                 else andthen (bulk (rc_delete_unused (mc_id c))) (\<lambda>invalidated.
                   (let codes = generate_code_set draws in
                    andthen (exec (rc_add_set (mc_id c) (map (\<lambda>p. hash_token (normalize_code p)) codes))) (\<lambda>_.
                    andthen (exec (audit_add (audit_mfa user_id ''mfa.recovery_codes_regenerated'' (Some (mc_id c))
                      (Some [(''unused_codes_invalidated'', PInt (int invalidated))])
                      (Some (issued codes)) request_id ip_hash))) (\<lambda>_.
                    ret \<lparr>rs_recovery_codes = codes, rs_generated_at = now\<rparr>)))))))"

section \<open>Proving the second factor\<close>

record mfa_verify_result =
  mv_used_recovery_code :: bool
  mv_remaining_recovery_codes :: nat

text \<open>The two branches of \<open>VerifyMfa.execute\<close>; each returns the remaining codes and the
  credential to save.\<close>

definition verify_recovery ::
  "timestamp \<Rightarrow> uuid \<Rightarrow> mfa_credential \<Rightarrow> string \<Rightarrow> string option \<Rightarrow> string option
     \<Rightarrow> (nat \<times> mfa_credential) cmd" where
  "verify_recovery now user_id c recovery_code request_id ip_hash =
     andthen (query (rc_unused_by_hash (mc_id c) (hash_token (normalize_code recovery_code)))) (\<lambda>found. case found of
       None \<Rightarrow> raise InvalidRecoveryCodeError
     | Some stored \<Rightarrow>
         andthen (from_entity (redeem now stored)) (\<lambda>redeemed.
         andthen (exec (rc_save redeemed)) (\<lambda>_.
         andthen (query (rc_count_unused (mc_id c))) (\<lambda>remaining.
         andthen (exec (audit_add (audit_mfa user_id ''mfa.recovery_code_used'' (Some (mc_id c)) None
           (Some [(''remaining_recovery_codes'', PInt (int remaining))]) request_id ip_hash))) (\<lambda>_.
         ret (remaining, mc_mark_used now c))))))"

definition verify_totp ::
  "app \<Rightarrow> timestamp \<Rightarrow> uuid \<Rightarrow> mfa_credential \<Rightarrow> string option \<Rightarrow> string option \<Rightarrow> string option
     \<Rightarrow> (nat \<times> mfa_credential) cmd" where
  "verify_totp A now user_id c code request_id ip_hash = (case code of
       None \<Rightarrow> raise InvalidMfaCodeError
     | Some submitted \<Rightarrow>
         andthen (from_entity (decrypt_secret (app_lib A) (app_cfg A) (mc_secret_ciphertext c))) (\<lambda>secret.
         case verify_code_step (app_lib A) secret submitted now of
           None \<Rightarrow> raise InvalidMfaCodeError
         | Some step \<Rightarrow>
             if is_totp_step_replayed step c then
               andthen (exec (audit_add (audit_mfa user_id ''mfa.replay_rejected'' (Some (mc_id c)) None
                 (Some [(''time_step'', PInt step)]) request_id ip_hash))) (\<lambda>_.
               raise MfaCodeReplayedError)
             else
               andthen (query (rc_count_unused (mc_id c))) (\<lambda>remaining.
               andthen (exec (audit_add (audit_mfa user_id ''mfa.verified'' (Some (mc_id c)) None None
                 request_id ip_hash))) (\<lambda>_.
               ret (remaining, record_totp_step step now c)))))"

definition mfa_verify ::
  "app \<Rightarrow> timestamp \<Rightarrow> uuid \<Rightarrow> string option \<Rightarrow> string option \<Rightarrow> string option \<Rightarrow> string option
     \<Rightarrow> mfa_verify_result cmd" where
  "mfa_verify A now user_id code recovery_code request_id ip_hash =
     andthen (query (mc_by_user_id user_id)) (\<lambda>found. case found of
       None \<Rightarrow> raise MfaNotEnrolledError
     | Some c \<Rightarrow>
         if \<not> is_enabled c then raise MfaNotEnrolledError
         else andthen (case recovery_code of
               Some rcode \<Rightarrow> verify_recovery now user_id c rcode request_id ip_hash
             | None \<Rightarrow> verify_totp A now user_id c code request_id ip_hash) (\<lambda>(remaining, c').
           andthen (exec (mc_save c')) (\<lambda>_.
           ret \<lparr>mv_used_recovery_code = (recovery_code \<noteq> None), mv_remaining_recovery_codes = remaining\<rparr>)))"

section \<open>Completing a login\<close>

definition complete_mfa_login ::
  "app \<Rightarrow> timestamp \<Rightarrow> uuid \<Rightarrow> uuid \<Rightarrow> int \<Rightarrow> string option \<Rightarrow> string option \<Rightarrow> string option
     \<Rightarrow> login_result cmd" where
  "complete_mfa_login A now session_id user_id challenge_epoch ip_hash user_agent request_id =
     andthen (query (user_by_id user_id)) (\<lambda>found. case found of
       None \<Rightarrow> raise InvalidCredentialsError
     | Some u \<Rightarrow>
         if \<not> can_authenticate u then raise (AccountDisabledError (u_id u))
         else if challenge_epoch \<noteq> u_auth_epoch u then raise InvalidCredentialsError
         else open_session A now session_id True u ip_hash user_agent request_id)"

lemma keeps_mfa [keeps]:
  "preserves wf_db (mfa_setup A secret nonce i pw rid ih)"
  "preserves wf_db (mfa_confirm_setup A now draws i code rid ih)"
  "preserves wf_db (mfa_regenerate_recovery_codes A now draws i pw rid ih)"
  "preserves wf_db (verify_recovery now i c rcode rid ih)"
  "preserves wf_db (verify_totp A now i c cd rid ih)"
  "preserves wf_db (complete_mfa_login A now sid i ep ih ua rid)"
  unfolding mfa_setup_def mfa_confirm_setup_def mfa_regenerate_recovery_codes_def verify_recovery_def
    verify_totp_def complete_mfa_login_def Let_def by (intro keeps)+

lemma keeps_mfa_verify [keeps]: "preserves wf_db (mfa_verify A now i cd rcode rid ih)"
  unfolding mfa_verify_def by (intro keeps)

section \<open>What the commands leave in the tables\<close>

definition unused_hashes :: "uuid \<Rightarrow> database \<Rightarrow> string list" where
  "unused_hashes mfa_credential_id db = map rc_code_hash (filter (unused_of mfa_credential_id) (recovery_codes db))"

lemma mc_found: "mc_by_user_id i db = Some c \<Longrightarrow> c \<in> set (mfa_credentials db) \<and> mc_user_id c = i"
  by (auto simp: mc_by_user_id_def dest: row_by_SomeD(1,2))

lemma mc_saved_by_user:
  assumes "mc_save c' db = Inr db'" and "mc_by_user_id i db = Some c" and "mc_id c' = mc_id c"
  shows "mc_by_user_id i db' = Some (mc_stored db c' c)"
proof -
  from assms(1) have "mfa_credentials db' = put_row mc_id (mc_id c') (mc_stored db c') (mfa_credentials db)"
    by (auto simp: mc_save_def split: option.splits)
  with assms(2,3) show ?thesis
    by (simp add: mc_by_user_id_def row_by_put_any [of mc_user_id])
qed

lemma rc_add_set_effect:
  "rc_add_set i hs db = Inr db' \<Longrightarrow> \<exists>new. recovery_codes db' = recovery_codes db @ new
     \<and> map rc_code_hash new = hs \<and> (\<forall>c \<in> set new. unused_of i c)"
proof (induction i hs db rule: rc_add_set.induct)
  case (2 i h hs db)
  let ?c = "\<lparr>rc_id = next_uuid db, rc_mfa_credential_id = i, rc_code_hash = h, rc_used_at = None, rc_created_at = tx_now db\<rparr>"
  from 2(2) have rest: "rc_add_set i hs ((drawn db)\<lparr>recovery_codes := recovery_codes db @ [?c]\<rparr>) = Inr db'"
    by (auto split: if_splits)
  from 2(2) have "\<not> ((\<exists>c\<in>set (recovery_codes db). rc_code_hash c = h) \<or> mc_by_id i db = None \<or> rc_by_id (next_uuid db) db \<noteq> None)"
    by (auto split: if_splits)
  from 2(1) [OF this rest] obtain new where "recovery_codes db' = (recovery_codes db @ [?c]) @ new"
    "map rc_code_hash new = hs" "\<forall>c \<in> set new. unused_of i c" by auto
  then show ?case by (intro exI [of _ "?c # new"]) (simp add: unused_of_def)
qed simp

text \<open>Replacing a set: the unused codes are exactly the new ones.\<close>

lemma replaced_codes:
  assumes "rc_add_set i hs (snd (rc_delete_unused i db)) = Inr db'"
  shows "unused_hashes i db' = hs" and "\<And>j. j \<noteq> i \<Longrightarrow> unused_hashes j db' = unused_hashes j db"
    and "mfa_credentials db' = mfa_credentials db"
proof -
  from rc_add_set_effect [OF assms] obtain new where new: "recovery_codes db' =
      filter (\<lambda>c. \<not> unused_of i c) (recovery_codes db) @ new" "map rc_code_hash new = hs" "\<forall>c \<in> set new. unused_of i c"
    by (auto simp: rc_delete_unused_def)
  have "filter (unused_of i) new = new" using new(3) by (simp add: filter_id_conv)
  then show "unused_hashes i db' = hs" using new by (simp add: unused_hashes_def)
  show "unused_hashes j db' = unused_hashes j db" if "j \<noteq> i" for j
  proof -
    have "filter (unused_of j) new = []" using new(3) that by (auto simp: filter_empty_conv unused_of_def)
    moreover have "(\<lambda>c. \<not> unused_of i c \<and> unused_of j c) = unused_of j" using that by (auto simp: unused_of_def)
    ultimately show ?thesis using new(1) by (simp add: unused_hashes_def conj_commute)
  qed
  show "mfa_credentials db' = mfa_credentials db"
    using rc_add_set_tables [OF assms] by (simp add: rc_delete_unused_def)
qed

text \<open>Enrolment asks for the password and never touches a working second factor: it succeeds
  only without an enabled credential, and leaves one that is not enabled and holds the encryption
  of the secret it returned.\<close>

theorem setup_stores_pending_secret:
  assumes "mfa_setup A secret nonce i pw rid ih db = (Inr res, db')"
  shows "\<exists>u c'. user_by_id i db = Some u \<and> can_authenticate u
    \<and> argon2_verify (app_lib A) (u_password_hash u) pw = Verified
    \<and> (\<forall>c. mc_by_user_id i db = Some c \<longrightarrow> \<not> is_enabled c)
    \<and> mc_by_user_id i db' = Some c' \<and> \<not> is_enabled c'
    \<and> mc_secret_ciphertext c' = encrypt_secret (app_lib A) (app_cfg A) nonce secret
    \<and> ms_secret res = secret \<and> users db' = users db \<and> sessions db' = sessions db"
proof -
  let ?ct = "encrypt_secret (app_lib A) (app_cfg A) nonce secret"
  from assms obtain u d where u: "user_by_id i db = Some u" "can_authenticate u"
    and pw: "verify_password (app_lib A) pw (u_password_hash u) = Inr True"
    and no: "\<not> (case mc_by_user_id i db of None \<Rightarrow> False | Some c \<Rightarrow> is_enabled c)"
    and d: "(case mc_by_user_id i db of None \<Rightarrow> mc_add i TOTP ?ct db
                 | Some c \<Rightarrow> mc_save (c\<lparr>mc_secret_ciphertext := ?ct\<rparr>) db) = Inr d"
    and aud: "audit_add (audit_mfa i ''mfa.enrollment_started'' None None None rid ih) d = Inr db'"
    and res: "ms_secret res = secret"
    by (auto simp: mfa_setup_def succeeds Let_def split: option.splits if_splits)
  have "\<exists>c'. mc_by_user_id i d = Some c' \<and> \<not> is_enabled c' \<and> mc_secret_ciphertext c' = ?ct
     \<and> users d = users db \<and> sessions d = sessions db"
  proof (cases "mc_by_user_id i db")
    case None
    with d show ?thesis
      by (auto simp: mc_add_def mc_by_user_id_def row_by_append is_enabled_def split: if_splits)
  next
    case (Some c)
    with d have sv: "mc_save (c\<lparr>mc_secret_ciphertext := ?ct\<rparr>) db = Inr d" by simp
    from mc_saved_by_user [OF sv Some] mcs_tables [OF sv] no Some show ?thesis
      by (simp add: is_enabled_def)
  qed
  with u pw no res audit_tables [OF aud] show ?thesis
    by (auto simp: mc_by_user_id_def verify_password_def split: option.splits argon2_outcome.splits)
qed

text \<open>Confirming an enrolment needs a code of the stored secret and a credential that is not
  enabled.  It enables the credential, spends the step of that code, replaces every unused
  recovery code by the hashes of the codes it returns, and cannot be repeated.\<close>

theorem confirm_enables_once:
  assumes "mfa_confirm_setup A now draws i code rid ih db = (Inr res, db')"
  shows "\<exists>c secret k c'. mc_by_user_id i db = Some c \<and> \<not> is_enabled c
    \<and> decrypt_secret (app_lib A) (app_cfg A) (mc_secret_ciphertext c) = Inr secret
    \<and> verify_code_step (app_lib A) secret code now = Some k
    \<and> mc_by_user_id i db' = Some c' \<and> is_enabled c' \<and> (\<forall>j \<le> k. is_totp_step_replayed j c')
    \<and> unused_hashes (mc_id c) db' = map (\<lambda>p. hash_token (normalize_code p)) (rs_recovery_codes res)
    \<and> mfa_confirm_setup A later draws2 i code2 rid2 ih2 db' = (Inl MfaAlreadyEnabledError, db')"
proof -
  from assms obtain c secret k d1 d2 where c: "mc_by_user_id i db = Some c" "\<not> is_enabled c"
    and sec: "decrypt_secret (app_lib A) (app_cfg A) (mc_secret_ciphertext c) = Inr secret"
    and k: "verify_code_step (app_lib A) secret code now = Some k"
    and sv: "mc_save (record_totp_step k now (enable now c)) db = Inr d1"
    and add: "rc_add_set (mc_id c) (map (\<lambda>p. hash_token (normalize_code p)) (rs_recovery_codes res))
         (snd (rc_delete_unused (mc_id c) d1)) = Inr d2"
    and aud: "audit_add (audit_mfa i ''mfa.enabled'' (Some (mc_id c)) None
         (Some (issued (rs_recovery_codes res))) rid ih) d2 = Inr db'"
    by (auto simp: mfa_confirm_setup_def succeeds Let_def split: option.splits if_splits)
  let ?c = "mc_stored db (record_totp_step k now (enable now c)) c"
  have "mc_by_user_id i d1 = Some ?c" by (rule mc_saved_by_user [OF sv c(1)]) simp
  then have here: "mc_by_user_id i db' = Some ?c"
    using replaced_codes(3) [OF add] audit_tables [OF aud] by (simp add: mc_by_user_id_def rc_delete_unused_def)
  have en: "is_enabled ?c" by (simp add: credential_methods Let_def)
  have spent: "is_totp_step_replayed j ?c" if "j \<le> k" for j
    using record_totp_step_spends [of j k now "enable now c"] that by (simp add: is_totp_step_replayed_def)
  have codes: "unused_hashes (mc_id c) db' = map (\<lambda>p. hash_token (normalize_code p)) (rs_recovery_codes res)"
    using replaced_codes(1) [OF add] audit_tables [OF aud] by (simp add: unused_hashes_def)
  have "mfa_confirm_setup A later draws2 i code2 rid2 ih2 db' = (Inl MfaAlreadyEnabledError, db')"
    using here en by (simp add: mfa_confirm_setup_def cmd_simps)
  with c sec k here en spent codes show ?thesis by blast
qed

text \<open>Regenerating recovery codes asks for the password and replaces the unused codes of that
  credential, and of no other, by the ones it returns; the credential itself is unchanged.\<close>

theorem regenerate_replaces_unused:
  assumes "mfa_regenerate_recovery_codes A now draws i pw rid ih db = (Inr res, db')"
  shows "\<exists>u c. user_by_id i db = Some u \<and> argon2_verify (app_lib A) (u_password_hash u) pw = Verified
    \<and> mc_by_user_id i db = Some c \<and> is_enabled c \<and> mfa_credentials db' = mfa_credentials db
    \<and> unused_hashes (mc_id c) db' = map (\<lambda>p. hash_token (normalize_code p)) (rs_recovery_codes res)
    \<and> (\<forall>j. j \<noteq> mc_id c \<longrightarrow> unused_hashes j db' = unused_hashes j db)"
proof -
  from assms obtain u c d n where u: "user_by_id i db = Some u"
    and pw: "verify_password (app_lib A) pw (u_password_hash u) = Inr True"
    and c: "mc_by_user_id i db = Some c" "is_enabled c"
    and add: "rc_add_set (mc_id c) (map (\<lambda>p. hash_token (normalize_code p)) (rs_recovery_codes res))
         (snd (rc_delete_unused (mc_id c) db)) = Inr d"
    and aud: "audit_add (audit_mfa i ''mfa.recovery_codes_regenerated'' (Some (mc_id c))
         (Some [(''unused_codes_invalidated'', PInt (int n))]) (Some (issued (rs_recovery_codes res))) rid ih) d = Inr db'"
    by (auto simp: mfa_regenerate_recovery_codes_def succeeds Let_def split: option.splits if_splits)
  note rep = replaced_codes [OF add] and same = audit_tables [OF aud]
  from u pw c rep same show ?thesis
    by (auto simp: verify_password_def unused_hashes_def split: argon2_outcome.splits)
qed

section \<open>Each factor is spent by its use\<close>

lemma mfa_verify_totp_success:
  assumes "mfa_verify A now i code None rid ih db = (Inr res, db')"
  obtains c submitted secret k d where "mc_by_user_id i db = Some c" and "is_enabled c" and "code = Some submitted"
    and "decrypt_secret (app_lib A) (app_cfg A) (mc_secret_ciphertext c) = Inr secret"
    and "verify_code_step (app_lib A) secret submitted now = Some k" and "\<not> is_totp_step_replayed k c"
    and "audit_add (audit_mfa i ''mfa.verified'' (Some (mc_id c)) None None rid ih) db = Inr d"
    and "mc_save (record_totp_step k now c) d = Inr db'"
  using assms
  by (auto simp: mfa_verify_def verify_totp_def succeeds split: option.splits if_splits)

lemma audit_actor: "audit_add a db = Inr db' \<Longrightarrow> aa_actor_user_id a = Some i \<Longrightarrow> user_by_id i db \<noteq> None"
  by (auto simp: audit_add_def split: if_splits)

lemma audit_add_ok:
  assumes "aa_actor_user_id a = Some i" and "user_by_id i db \<noteq> None" and "row_by al_id (next_uuid db) (audit_logs db) = None"
  shows "\<exists>db' e. audit_add a db = Inr db' \<and> audit_logs db' = audit_logs db @ [e] \<and> al_action e = aa_action a"
  using assms by (auto simp: audit_add_def)

text \<open>C15: a TOTP that was accepted is never accepted again: after a verification that matched step
  \<open>k\<close>, every code that matches step \<open>k\<close> or an earlier one is answered as a replay, at any
  time, and the request keeps the audit row of that attempt while the credential is unchanged.\<close>

theorem totp_accepted_once:
  assumes "mfa_verify A now i (Some code) None rid ih db = (Inr res, db')"
    and "decrypt_secret (app_lib A) (app_cfg A) (mc_secret_ciphertext c) = Inr secret"
    and "mc_by_user_id i db = Some c" and "verify_code_step (app_lib A) secret code now = Some k"
    and "verify_code_step (app_lib A) secret code2 later = Some j" and "j \<le> k"
    and "row_by al_id (next_uuid db') (audit_logs db') = None"
  shows "\<exists>db'' e. in_transaction (\<lambda>e. e = MfaCodeReplayedError) (mfa_verify A later i (Some code2) None rid2 ih2) db'
       = (Inl MfaCodeReplayedError, db'')
     \<and> mfa_credentials db'' = mfa_credentials db' \<and> sessions db'' = sessions db'
     \<and> audit_logs db'' = audit_logs db' @ [e] \<and> al_action e = ''mfa.replay_rejected''"
  using assms(1)
proof (rule mfa_verify_totp_success)
  fix c1 submitted secret1 k1 d
  assume "mc_by_user_id i db = Some c1" and en: "is_enabled c1" and "Some code = Some submitted"
    and "decrypt_secret (app_lib A) (app_cfg A) (mc_secret_ciphertext c1) = Inr secret1"
    and "verify_code_step (app_lib A) secret1 submitted now = Some k1"
    and aud: "audit_add (audit_mfa i ''mfa.verified'' (Some (mc_id c1)) None None rid ih) db = Inr d"
    and "mc_save (record_totp_step k1 now c1) d = Inr db'"
  with assms(2,3,4) have [simp]: "c1 = c" and sv: "mc_save (record_totp_step k now c) d = Inr db'" by auto
  let ?c = "mc_stored d (record_totp_step k now c) c"
  have "mc_by_user_id i d = Some c"
    using assms(3) audit_tables [OF aud] by (simp add: mc_by_user_id_def)
  from mc_saved_by_user [OF sv this] have here: "mc_by_user_id i db' = Some ?c" by simp
  have keep: "is_enabled ?c" "mc_secret_ciphertext ?c = mc_secret_ciphertext c" "mc_id ?c = mc_id c"
    using en by (simp_all add: credential_methods)
  have spent: "is_totp_step_replayed j ?c"
    using record_totp_step_spends [of j k now c] assms(6) by (simp add: is_totp_step_replayed_def)
  let ?a = "audit_mfa i ''mfa.replay_rejected'' (Some (mc_id ?c)) None (Some [(''time_step'', PInt j)]) rid2 ih2"
  have "user_by_id i db' \<noteq> None"
    using audit_actor [OF aud, of i] audit_tables(1) [OF aud] mcs_tables(1) [OF sv]
    by (simp add: audit_mfa_def user_by_id_def)
  then obtain db'' e where a: "audit_add ?a db' = Inr db''" "audit_logs db'' = audit_logs db' @ [e]"
    "al_action e = ''mfa.replay_rejected''"
    using audit_add_ok [of ?a i db'] assms(7) by (auto simp: audit_mfa_def)
  have "in_transaction (\<lambda>e. e = MfaCodeReplayedError) (mfa_verify A later i (Some code2) None rid2 ih2) db'
      = (Inl MfaCodeReplayedError, db'')"
    using here keep spent a(1) assms(2,5)
    by (simp add: in_transaction_def mfa_verify_def verify_totp_def cmd_simps)
  with a audit_tables(2,5) [OF a(1)] show ?thesis by blast
qed

text \<open>C16: a recovery code is spent by its use: the number of unused codes falls by exactly one,
  the answer reports that number, no TOTP step is consumed, and every later attempt with a
  string that normalises to the same code is refused and changes nothing.\<close>

theorem recovery_code_accepted_once:
  assumes "mfa_verify A now i code (Some rcode) rid ih db = (Inr res, db')" and "wf_db db"
    and "mc_by_user_id i db = Some c" and "normalize_code rcode2 = normalize_code rcode"
  shows "Suc (rc_count_unused (mc_id c) db') = rc_count_unused (mc_id c) db
    \<and> mv_remaining_recovery_codes res = rc_count_unused (mc_id c) db'
    \<and> (\<exists>c'. mc_by_user_id i db' = Some c' \<and> mc_last_totp_step c' = mc_last_totp_step c)
    \<and> mfa_verify A later i code2 (Some rcode2) rid2 ih2 db' = (Inl InvalidRecoveryCodeError, db')"
proof -
  let ?h = "hash_token (normalize_code rcode)"
  from assms(1,3) obtain s s' d1 d2 where en: "is_enabled c"
    and s: "rc_unused_by_hash (mc_id c) ?h db = Some s" and s': "redeem now s = Inr s'"
    and d1: "rc_save s' db = Inr d1" and aud: "audit_add (audit_mfa i ''mfa.recovery_code_used'' (Some (mc_id c)) None
           (Some [(''remaining_recovery_codes'', PInt (int (mv_remaining_recovery_codes res)))]) rid ih) d1 = Inr d2"
    and rem: "mv_remaining_recovery_codes res = rc_count_unused (mc_id c) d1"
    and sv: "mc_save (mc_mark_used now c) d2 = Inr db'"
    by (auto simp: mfa_verify_def verify_recovery_def succeeds split: option.splits if_splits)
  from s have sin: "s \<in> set (recovery_codes db)" "unused_of (mc_id c) s" "rc_code_hash s = ?h"
    by (auto simp: rc_unused_by_hash_def find_Some_iff)
  from s' have s'_eq: "s' = s\<lparr>rc_used_at := Some now\<rparr>" by (auto simp: redeem_def split: if_splits)
  have codes: "recovery_codes db' = put_row rc_id (rc_id s) (rc_stored db s') (recovery_codes db)"
    using d1 audit_tables(6) [OF aud] mcs_tables(5) [OF sv]
    by (auto simp: rc_save_def s'_eq split: option.splits)
  have spent: "\<not> unused_of j (rc_stored db s' x)" for j x
    by (simp add: unused_of_def rc_stored_def s'_eq)
  have dist: "distinct (map rc_id (recovery_codes db))" "distinct (map rc_code_hash (recovery_codes db))"
    using assms(2) by (auto simp: wf_db_def)
  have cnt: "Suc (rc_count_unused (mc_id c) db') = rc_count_unused (mc_id c) db"
    using count_where_put_one [where key = rc_id, OF dist(1) sin(1,2) spent] by (simp add: rc_count_unused_def codes)
  have rem': "mv_remaining_recovery_codes res = rc_count_unused (mc_id c) db'"
    using rem audit_tables(6) [OF aud] mcs_tables(5) [OF sv] by (simp add: rc_count_unused_def)
  have "mc_by_user_id i d2 = Some c"
    using assms(3) audit_tables(5) [OF aud] rcs_tables(5) [OF d1] by (simp add: mc_by_user_id_def)
  from mc_saved_by_user [OF sv this] have here: "mc_by_user_id i db' = Some (mc_stored d2 (mc_mark_used now c) c)"
    by simp
  have none: "rc_unused_by_hash (mc_id c) ?h db' = None"
  proof -
    have "\<not> (unused_of (mc_id c) x \<and> rc_code_hash x = ?h)" if "x \<in> set (recovery_codes db')" for x
      using that unfolding codes
    proof (cases rule: set_put_rowE)
      case kept
      with dist sin show ?thesis by (auto simp: distinct_map inj_on_def)
    qed (simp add: spent)
    then show ?thesis by (auto simp: rc_unused_by_hash_def find_None_iff)
  qed
  have "mfa_verify A later i code2 (Some rcode2) rid2 ih2 db' = (Inl InvalidRecoveryCodeError, db')"
    using here en none assms(4)
    by (simp add: mfa_verify_def verify_recovery_def cmd_simps credential_methods)
  with cnt rem' here show ?thesis by (simp add: mc_mark_used_def)
qed

section \<open>The session behind the challenge\<close>

lemma complete_mfa_login_refused:
  assumes "user_by_id i db = Some u" and "u_auth_epoch u \<noteq> ep" and "can_authenticate u"
  shows "complete_mfa_login A now sid i ep ih ua rid db = (Inl InvalidCredentialsError, db)"
  using assms by (simp add: complete_mfa_login_def cmd_simps)

lemma complete_mfa_login_success:
  assumes "complete_mfa_login A now sid i ep ih ua rid db = (Inr res, db')"
  obtains u where "user_by_id i db = Some u" and "can_authenticate u" and "ep = u_auth_epoch u"
    and "open_session A now sid True u ih ua rid db = (Inr res, db')"
  using assms by (auto simp: complete_mfa_login_def succeeds split: option.splits if_splits)

text \<open>C17: a challenge buys a session only while its epoch is the account's current one and the
  account may sign in; the session's access token then carries \<open>mfa\<close> and that epoch, and one
  session is added.  In every other case the command is refused and nothing is written.\<close>

theorem complete_login_needs_current_epoch:
  shows "(\<forall>res db'. complete_mfa_login A now sid i ep ih ua rid db = (Inr res, db') \<longrightarrow>
       (\<exists>u s. user_by_id i db = Some u \<and> can_authenticate u \<and> ep = u_auth_epoch u
          \<and> lr_access_token res = issue_access_token (app_lib A) (app_cfg A) (claims_of u sid True) now
          \<and> sessions db' = sessions db @ [s] \<and> s_id s = sid \<and> s_user_id s = u_id u \<and> users db' = users db))
    \<and> ((\<forall>u. user_by_id i db = Some u \<longrightarrow> \<not> can_authenticate u \<or> ep \<noteq> u_auth_epoch u) \<longrightarrow>
       (\<exists>e. complete_mfa_login A now sid i ep ih ua rid db = (Inl e, db)))"
proof (intro conjI allI impI)
  fix res db'
  assume "complete_mfa_login A now sid i ep ih ua rid db = (Inr res, db')"
  then show "\<exists>u s. user_by_id i db = Some u \<and> can_authenticate u \<and> ep = u_auth_epoch u
      \<and> lr_access_token res = issue_access_token (app_lib A) (app_cfg A) (claims_of u sid True) now
      \<and> sessions db' = sessions db @ [s] \<and> s_id s = sid \<and> s_user_id s = u_id u \<and> users db' = users db"
  proof (rule complete_mfa_login_success)
    fix u
    assume u: "user_by_id i db = Some u" "can_authenticate u" "ep = u_auth_epoch u"
      and op: "open_session A now sid True u ih ua rid db = (Inr res, db')"
    from u open_session_effect [OF op] show ?thesis by (intro exI [of _ u]) simp
  qed
next
  assume "\<forall>u. user_by_id i db = Some u \<longrightarrow> \<not> can_authenticate u \<or> ep \<noteq> u_auth_epoch u"
  then show "\<exists>e. complete_mfa_login A now sid i ep ih ua rid db = (Inl e, db)"
    by (cases "user_by_id i db") (auto simp: complete_mfa_login_def cmd_simps)
qed

end
