(* ===== verification/Keyset_Paging.thy ===== *)
theory Keyset_Paging
  imports "HOL-Library.Product_Lexorder" Prelude
begin

text \<open>
  Cursor pagination as every list endpoint of the service does it: the repository returns the
  rows after the cursor in a fixed order, the endpoint asks for one row more than the page and
  drops it again, and the cursor of the next page is the sort key of the last row served.
\<close>

definition page_of :: "nat \<Rightarrow> (nat \<Rightarrow> 'k option \<Rightarrow> 'r list) \<Rightarrow> ('r \<Rightarrow> 'k) \<Rightarrow> 'k option \<Rightarrow> 'r list \<times> 'k option" where
  "page_of limit fetch key after =
     (let rows = fetch (Suc limit) after;
          has_more = length rows > limit;
          page = take limit rows
      in (page, if has_more \<and> page \<noteq> [] then Some (key (last page)) else None))"

text \<open>A client that follows the cursors; the fuel bounds the number of pages it asks for.\<close>

fun follow :: "nat \<Rightarrow> nat \<Rightarrow> (nat \<Rightarrow> 'k option \<Rightarrow> 'r list) \<Rightarrow> ('r \<Rightarrow> 'k) \<Rightarrow> 'k option \<Rightarrow> 'r list list option" where
  "follow 0 limit fetch key after = None"
| "follow (Suc fuel) limit fetch key after = (case page_of limit fetch key after of
       (page, None) \<Rightarrow> Some [page]
     | (page, Some c) \<Rightarrow> (case follow fuel limit fetch key (Some c) of
           None \<Rightarrow> None | Some pages \<Rightarrow> Some (page # pages)))"

text \<open>
  The contract of a list endpoint: \<open>cursor_of\<close> is the cursor of a row, \<open>beyond c r\<close> says that
  row \<open>r\<close> comes after the cursor \<open>c\<close>, and the statement returns the first rows of that part of the
  matching rows, which stand in the order the cursors compare.
\<close>

definition apart :: "('r \<Rightarrow> 'c) \<Rightarrow> ('c \<Rightarrow> 'r \<Rightarrow> bool) \<Rightarrow> 'r \<Rightarrow> 'r \<Rightarrow> bool" where
  "apart cursor_of beyond a b = (beyond (cursor_of a) b \<and> \<not> beyond (cursor_of b) a)"

lemma filter_beyond_prefix:
  assumes "sorted_wrt (apart cursor_of beyond) rows" and "\<forall>r \<in> set rows. \<not> beyond (cursor_of r) r"
    and "j < length rows"
  shows "filter (beyond (cursor_of (rows ! j))) rows = drop (Suc j) rows"
  using assms
proof (induction rows arbitrary: j)
  case (Cons a rows)
  show ?case
  proof (cases j)
    case 0
    with Cons.prems show ?thesis by (simp add: filter_id_conv apart_def)
  next
    case (Suc i)
    with Cons.prems have "\<not> beyond (cursor_of (rows ! i)) a" by (simp add: apart_def)
    moreover have "filter (beyond (cursor_of (rows ! i))) rows = drop (Suc i) rows"
      using Cons.IH [of i] Cons.prems Suc by simp
    ultimately show ?thesis using Suc by simp
  qed
qed simp

lemma distinct_sorted_wrt_neq: "distinct xs \<longleftrightarrow> sorted_wrt (\<noteq>) xs"
  by (induction xs) auto

locale keyset =
  fixes cursor_of :: "'r \<Rightarrow> 'c"
    and beyond :: "'c \<Rightarrow> 'r \<Rightarrow> bool"
    and fetch :: "'db \<Rightarrow> nat \<Rightarrow> 'c option \<Rightarrow> 'r list"
    and matching :: "'db \<Rightarrow> 'r list"
    and ok :: "'db \<Rightarrow> bool"
  assumes first_page: "ok db \<Longrightarrow> fetch db n None = take n (matching db)"
    and next_page: "ok db \<Longrightarrow> r \<in> set (matching db) \<Longrightarrow> fetch db n (Some (cursor_of r))
      = take n (filter (beyond (cursor_of r)) (matching db))"
    and in_order: "ok db \<Longrightarrow> sorted_wrt (apart cursor_of beyond) (matching db)"
    and not_beyond_itself: "ok db \<Longrightarrow> r \<in> set (matching db) \<Longrightarrow> \<not> beyond (cursor_of r) r"
begin

definition position :: "'db \<Rightarrow> 'c option \<Rightarrow> nat \<Rightarrow> bool" where
  "position db after m = (m \<le> length (matching db)
     \<and> (\<forall>n. fetch db n after = take n (drop m (matching db))))"

lemma position_start: "ok db \<Longrightarrow> position db None 0"
  by (simp add: position_def first_page)

lemma position_next:
  assumes "ok db" and "j < length (matching db)"
  shows "position db (Some (cursor_of (matching db ! j))) (Suc j)"
proof -
  have "matching db ! j \<in> set (matching db)" using assms(2) by simp
  then show ?thesis
    using assms filter_beyond_prefix [OF in_order [OF assms(1)] _ assms(2)] not_beyond_itself [OF assms(1)]
    by (simp add: position_def next_page)
qed

lemma page_at:
  assumes "ok db" and "position db after m" and "0 < limit"
  obtains c where "page_of limit (fetch db) cursor_of after = (take limit (drop m (matching db)), c)"
    and "c = None \<Longrightarrow> length (matching db) \<le> m + limit"
    and "\<And>k. c = Some k \<Longrightarrow> m + limit < length (matching db) \<and> position db c (m + limit)"
proof (cases "m + limit < length (matching db)")
  case True
  let ?p = "take limit (drop m (matching db))"
  from True assms(3) have "last ?p = matching db ! (m + limit - 1)"
    by (simp add: last_conv_nth min_def)
  moreover have "position db (Some (cursor_of (matching db ! (m + limit - 1)))) (m + limit)"
    using position_next [OF assms(1), of "m + limit - 1"] True assms(3) by simp
  moreover have "page_of limit (fetch db) cursor_of after = (?p, Some (cursor_of (last ?p)))"
  proof -
    have "length (take (Suc limit) (drop m (matching db))) > limit" using True by simp
    then show ?thesis
      using assms(2,3) by (auto simp: page_of_def Let_def position_def min_def)
  qed
  ultimately show thesis using True by (intro that) auto
next
  case False
  then have "length (take (Suc limit) (drop m (matching db))) \<le> limit" by simp
  then have "page_of limit (fetch db) cursor_of after = (take limit (drop m (matching db)), None)"
    using assms(2) by (auto simp: page_of_def Let_def position_def min_def)
  with False show thesis by (intro that) auto
qed

lemma follow_from:
  assumes "ok db" and "position db after m" and "0 < limit" and "length (matching db) - m < fuel * limit"
  shows "\<exists>pages. follow fuel limit (fetch db) cursor_of after = Some pages
    \<and> concat pages = drop m (matching db) \<and> (\<forall>p \<in> set pages. length p \<le> limit)"
  using assms(2,4)
proof (induction fuel arbitrary: after m)
  case (Suc fuel)
  from assms(1) Suc.prems(1) assms(3) show ?case
  proof (rule page_at)
    fix c
    assume pg: "page_of limit (fetch db) cursor_of after = (take limit (drop m (matching db)), c)"
      and fin: "c = None \<Longrightarrow> length (matching db) \<le> m + limit"
      and nxt: "\<And>k. c = Some k \<Longrightarrow> m + limit < length (matching db) \<and> position db c (m + limit)"
    show ?thesis
    proof (cases c)
      case None
      with pg fin show ?thesis by simp
    next
      case (Some k)
      with nxt have pos: "position db (Some k) (m + limit)" and more: "m + limit < length (matching db)" by auto
      from Suc.prems(2) more have "length (matching db) - (m + limit) < fuel * limit" by simp
      from Suc.IH [OF pos this] obtain pages where "follow fuel limit (fetch db) cursor_of (Some k) = Some pages"
        "concat pages = drop (m + limit) (matching db)" "\<forall>p \<in> set pages. length p \<le> limit" by blast
      then show ?thesis
        using pg Some append_take_drop_id [of limit "drop m (matching db)"] by (simp add: add.commute)
    qed
  qed
qed simp

text \<open>Following the cursors from the start serves every matching row exactly once, in order.\<close>

lemma follow_all:
  assumes "ok db" and "0 < limit" and "length (matching db) < fuel * limit"
  shows "\<exists>pages. follow fuel limit (fetch db) cursor_of None = Some pages
    \<and> concat pages = matching db \<and> (\<forall>p \<in> set pages. length p \<le> limit)"
  using follow_from [OF assms(1) position_start assms(2)] assms by simp

lemma distinct_matching: "ok db \<Longrightarrow> distinct (matching db)"
proof -
  assume ok: "ok db"
  from in_order [OF ok] have "sorted_wrt (\<noteq>) (matching db)"
    by (rule sorted_wrt_mono_rel [rotated]) (auto simp: apart_def)
  then show ?thesis by (simp add: distinct_sorted_wrt_neq)
qed

lemma follow_complete:
  assumes "ok db" and "0 < limit" and "length (matching db) < fuel * limit" and "set (matching db) = R"
    and "sorted_wrt Q (matching db)"
  shows "\<exists>pages. follow fuel limit (fetch db) cursor_of None = Some pages
    \<and> (\<forall>p \<in> set pages. length p \<le> limit) \<and> distinct (concat pages) \<and> set (concat pages) = R
    \<and> sorted_wrt Q (concat pages)"
proof -
  from follow_all [OF assms(1-3)] obtain pages where
    "follow fuel limit (fetch db) cursor_of None = Some pages" "concat pages = matching db" "\<forall>p \<in> set pages. length p \<le> limit"
    by blast
  with distinct_matching [OF assms(1)] assms(4,5) show ?thesis by (intro exI [of _ pages]) (simp only: simp_thms)
qed

end

section \<open>Cursors as text\<close>

text \<open>A client of a route: \<open>ask\<close> is the answer to a request with a cursor, \<open>None\<close> an error.\<close>

fun follow_route :: "nat \<Rightarrow> ('c option \<Rightarrow> ('a list \<times> 'c option) option) \<Rightarrow> 'c option \<Rightarrow> 'a list list option" where
  "follow_route 0 ask cursor = None"
| "follow_route (Suc fuel) ask cursor = (case ask cursor of
       None \<Rightarrow> None
     | Some (items, None) \<Rightarrow> Some [items]
     | Some (items, Some c) \<Rightarrow> map_option (Cons items) (follow_route fuel ask (Some c)))"

text \<open>A page in a route's answer: the rows as the client sees them, and the cursor as text.\<close>

definition answered :: "('r \<Rightarrow> 'a) \<Rightarrow> ('c \<Rightarrow> string) \<Rightarrow> 'r list \<times> 'c option \<Rightarrow> 'a list \<times> string option" where
  "answered f encode p = (map f (fst p), map_option encode (snd p))"

locale text_keyset = keyset cursor_of beyond fetch matching ok
  for cursor_of :: "'r \<Rightarrow> 'c"
    and beyond :: "'c \<Rightarrow> 'r \<Rightarrow> bool"
    and fetch :: "'db \<Rightarrow> nat \<Rightarrow> 'c option \<Rightarrow> 'r list"
    and matching :: "'db \<Rightarrow> 'r list"
    and ok :: "'db \<Rightarrow> bool" +
  fixes encode :: "'c \<Rightarrow> string"
    and decode :: "string \<Rightarrow> 'c option"
  assumes decodes: "ok db \<Longrightarrow> r \<in> set (matching db) \<Longrightarrow> decode (encode (cursor_of r)) = Some (cursor_of r)"
begin

definition reads :: "string option \<Rightarrow> 'c option \<Rightarrow> bool" where
  "reads cursor after = (map_option decode cursor = map_option Some after)"

lemma route_follows:
  assumes "ok db" and "position db after m" and "0 < limit" and "reads cursor after"
    and asks: "\<And>c k. reads c k \<Longrightarrow> ask c = Some (answered f encode (page_of limit (fetch db) cursor_of k))"
  shows "follow_route fuel ask cursor = map_option (map (map f)) (follow fuel limit (fetch db) cursor_of after)"
  using assms(2,4)
proof (induction fuel arbitrary: after cursor m)
  case (Suc fuel)
  from assms(1) Suc.prems(1) assms(3) show ?case
  proof (rule page_at)
    fix c
    assume pg: "page_of limit (fetch db) cursor_of after = (take limit (drop m (matching db)), c)"
      and nxt: "\<And>k. c = Some k \<Longrightarrow> m + limit < length (matching db) \<and> position db c (m + limit)"
    note ask = asks [OF Suc.prems(2)]
    show ?thesis
    proof (cases c)
      case None
      then show ?thesis by (simp add: ask answered_def pg)
    next
      case (Some k)
      let ?p = "take limit (drop m (matching db))"
      have "?p \<noteq> []" "k = cursor_of (last ?p)"
        using pg Some Suc.prems(1) nxt [OF Some] by (auto simp: page_of_def Let_def position_def split: if_splits)
      moreover have "last ?p \<in> set (matching db)"
        using calculation(1) by (meson in_set_dropD in_set_takeD last_in_set)
      ultimately have "reads (Some (encode k)) (Some k)"
        using decodes [OF assms(1)] by (simp add: reads_def)
      with Suc.IH [of "Some k" "m + limit"] nxt [OF Some] Some show ?thesis
        by (simp add: ask answered_def pg option.map_comp comp_def split: option.split)
    qed
  qed
qed simp

text \<open>Following the texts a route hands out serves every matching row exactly once, in order.\<close>

lemma route_complete:
  assumes "ok db" and "0 < limit" and "length (matching db) < fuel * limit" and "set (matching db) = R"
    and "sorted_wrt Q (matching db)"
    and "\<And>c k. reads c k \<Longrightarrow> ask c = Some (answered f encode (page_of limit (fetch db) cursor_of k))"
  shows "\<exists>pages. follow_route fuel ask None = Some (map (map f) pages)
    \<and> (\<forall>p \<in> set pages. length p \<le> limit) \<and> distinct (concat pages) \<and> set (concat pages) = R
    \<and> sorted_wrt Q (concat pages)"
proof -
  have "reads None None" by (simp add: reads_def)
  from route_follows [OF assms(1) position_start [OF assms(1)] assms(2) this assms(6)]
  have "follow_route fuel ask None = map_option (map (map f)) (follow fuel limit (fetch db) cursor_of None)" .
  with follow_complete [OF assms(1-5)] show ?thesis by auto
qed

end

text \<open>Rows sorted by a key that tells them apart, newest first.\<close>

lemma rev_sort_descending:
  fixes key :: "'r \<Rightarrow> 'k::linorder"
  assumes "distinct (map key rows)"
  shows "sorted_wrt (\<lambda>a b. key b < key a) (rev (sort_key key rows))"
proof -
  have "sorted (map key (sort_key key rows))" by simp
  moreover have "distinct (map key (sort_key key rows))"
    using assms by (metis distinct_map distinct_sort set_sort)
  ultimately have "sorted_wrt (<) (map key (sort_key key rows))" by (simp add: strict_sorted_iff)
  then show ?thesis by (simp add: sorted_wrt_rev sorted_wrt_map)
qed

lemma rev_sort_apart:
  fixes key :: "'r \<Rightarrow> 'k::linorder"
  assumes "distinct (map key rows)"
  shows "sorted_wrt (apart key (\<lambda>k r. key r < k)) (rev (sort_key key rows))"
  using rev_sort_descending [OF assms] by (rule sorted_wrt_mono_rel [rotated]) (auto simp: apart_def)

text \<open>Rows sorted in ascending order.\<close>

lemma sort_ascending:
  fixes key :: "'r \<Rightarrow> 'k::linorder"
  assumes "distinct (map key rows)"
  shows "sorted_wrt (\<lambda>a b. key a < key b) (sort_key key rows)"
proof -
  have "sorted (map key (sort_key key rows))" by simp
  moreover have "distinct (map key (sort_key key rows))"
    using assms by (metis distinct_map distinct_sort set_sort)
  ultimately have "sorted_wrt (<) (map key (sort_key key rows))" by (simp add: strict_sorted_iff)
  then show ?thesis by (simp add: sorted_wrt_map)
qed

end
