(* ===== verification/User_Admin.thy ===== *)
theory User_Admin
  imports Account_View Keyset_Paging
begin

text \<open>
  The administrator's view of accounts: commands/set_user_active.py and \<open>UserRepository.list_page\<close>.
\<close>

section \<open>Activation\<close>

record set_active_result =
  sr_user :: user
  sr_changed :: bool
  sr_sessions_revoked :: nat

definition set_user_active ::
  "timestamp \<Rightarrow> uuid \<Rightarrow> bool \<Rightarrow> uuid \<Rightarrow> string option \<Rightarrow> string option \<Rightarrow> set_active_result option cmd" where
  "set_user_active now user_id is_active actor_user_id request_id ip_hash =
     andthen (query (user_by_id user_id)) (\<lambda>found. case found of
       None \<Rightarrow> ret None
     | Some u \<Rightarrow>
         if u_anonymized_at u \<noteq> None \<or> u_deleted_at u \<noteq> None then raise (AccountNotMutableError user_id)
         else
           (let before_active = u_is_active u in
            case set_active is_active now u of
              (False, u1) \<Rightarrow> ret (Some \<lparr>sr_user = u1, sr_changed = False, sr_sessions_revoked = 0\<rparr>)
            | (True, u1) \<Rightarrow>
                (let deactivating = before_active \<and> \<not> is_active;
                     u2 = (if deactivating then invalidate_credentials now u1 else u1) in
                 andthen (exec (user_save u2)) (\<lambda>_.
                 andthen (if deactivating then bulk (revoke_all_for_user (u_id u2) now) else ret 0) (\<lambda>revoked.
                 andthen (exec (audit_add \<lparr>aa_actor_user_id = Some actor_user_id,
                   aa_action = (if is_active then ''user.activated'' else ''user.deactivated''),
                   aa_entity_type = ''User'', aa_entity_id = Some (u_id u2),
                   aa_before_data = Some [(''is_active'', PBool before_active)],
                   aa_after_data = Some ((''is_active'', PBool is_active)
                     # (if is_active then [] else [(''sessions_revoked'', PInt (int revoked))])),
                   aa_request_id = request_id, aa_ip_hash = ip_hash\<rparr>)) (\<lambda>_.
                 ret (Some \<lparr>sr_user = u2, sr_changed = True, sr_sessions_revoked = revoked\<rparr>)))))))"

lemma set_active_cases:
  assumes "set_user_active now i b actor rid ih db = (Inr (Some res), db')"
  obtains (same) u where "user_by_id i db = Some u" and "u_anonymized_at u = None" and "u_deleted_at u = None"
      and "u_is_active u = b" and "db' = db" and "\<not> sr_changed res" and "sr_sessions_revoked res = 0"
  | (changed) u d1 d2 a where "user_by_id i db = Some u" and "u_anonymized_at u = None" and "u_deleted_at u = None"
      and "u_is_active u = (\<not> b)"
      and "user_save (let v = u\<lparr>u_is_active := b, u_updated_at := now\<rparr> in
             if b then v else invalidate_credentials now v) db = Inr d1"
      and "(if b then (0, d1) else revoke_all_for_user i now d1) = (sr_sessions_revoked res, d2)"
      and "audit_add a d2 = Inr db'" and "sr_changed res"
  using assms user_found [of i db]
  by (auto simp: set_user_active_def set_active_def succeeds Let_def invalidate_credentials_def
      split: option.splits if_splits)

lemma keeps_set_user_active [keeps]: "preserves wf_db (set_user_active now i b actor rid ih)"
proof -
  have prod: "preserves wf_db (case p of (True, v) \<Rightarrow> f v | (False, v) \<Rightarrow> g v)"
    if "\<And>v. p = (True, v) \<Longrightarrow> preserves wf_db (f v)" and "\<And>v. p = (False, v) \<Longrightarrow> preserves wf_db (g v)"
    for p :: "bool \<times> user" and f g :: "user \<Rightarrow> set_active_result option cmd"
    using that by (cases p) (auto split: bool.split)
  show ?thesis
    unfolding set_user_active_def Let_def
    by (intro keeps_query_user prod keeps keeps_exec_user_save)
      (auto simp: set_active_def invalidate_credentials_def split: if_splits)
qed

lemma set_active_view:
  assumes "set_user_active now i b actor rid ih db = (Inr (Some res), db')"
  shows "\<exists>a. account_of i db = Some a \<and> account_of i db' = Some (a_set_active b a)
    \<and> (sr_changed res \<longleftrightarrow> acc_enabled a \<noteq> b)
    \<and> sr_sessions_revoked res = (if acc_enabled a \<and> \<not> b then length (acc_live a) else 0)
    \<and> (\<forall>j. j \<noteq> i \<longrightarrow> account_of j db' = account_of j db)
    \<and> length (audit_logs db') = length (audit_logs db) + (if sr_changed res then 1 else 0)"
  using assms
proof (cases rule: set_active_cases)
  case (same u)
  then show ?thesis by (simp add: account_of_def can_authenticate_def a_set_active_def)
next
  case (changed u d1 d2 a)
  let ?v = "let v = u\<lparr>u_is_active := b, u_updated_at := now\<rparr> in if b then v else invalidate_credentials now v"
  have vid: "u_id ?v = i" using user_found [OF changed(1)] by (simp add: Let_def)
  note same1 = us_tables [OF changed(5)] and same3 = audit_tables [OF changed(7)]
  have own: "user_by_id i d1 = Some (user_stored db ?v u)"
    using us.get_saved [OF changed(5), of u] changed(1) vid by simp
  have oth: "user_by_id j d1 = user_by_id j db" if "j \<noteq> i" for j
    using us.get_other [OF changed(5), of j] that vid by simp
  from changed(6) have d2: "users d2 = users d1" "reset_tokens d2 = reset_tokens d1" "audit_logs d2 = audit_logs d1"
    "sr_sessions_revoked res = (if b then 0 else length (live_sessions i d1))"
    by (auto simp: revoke_all_for_user_def live_sessions_def count_where_def split: if_splits)
  have live: "live_sessions j d2 = (if \<not> b \<and> j = i then [] else live_sessions j db)" for j
    using changed(6) live_sessions_revoke_all [of j i now d1] same1 by (auto simp: live_sessions_def split: if_splits)
  have live': "live_sessions j db' = live_sessions j d2" "open_resets j db' = open_resets j db" for j
    using same1 same3 d2 by (simp_all add: live_sessions_def open_resets_def)
  have "user_by_id i db' = Some (user_stored db ?v u)" "\<And>j. j \<noteq> i \<Longrightarrow> user_by_id j db' = user_by_id j db"
    using own oth same3 d2 by (simp_all add: user_by_id_def)
  moreover have "length (audit_logs db') = Suc (length (audit_logs db))"
    using changed(7) same1 d2 by (auto simp: audit_add_def split: if_splits)
  moreover have "live_sessions i d1 = live_sessions i db" using same1 by (simp add: live_sessions_def)
  ultimately show ?thesis
    using changed(1-4,8) live live' d2
    by (cases b) (auto simp: account_of_def can_authenticate_def a_set_active_def cut_off_def invalidate_credentials_def)
qed

text \<open>C31: setting an account's activation implements the abstract operation: deactivating ends
  every session and moves the epoch on, reactivating restores neither, and restating the stored
  value is a no-op without an audit row.  The reported number of sessions is the number ended,
  and no other account changes.\<close>

theorem set_user_active_refines_spec:
  assumes "set_user_active now i b actor rid ih db = (Inr (Some res), db')"
  shows "\<exists>a. account_of i db = Some a \<and> account_of i db' = Some (a_set_active b a)
    \<and> (sr_changed res \<longleftrightarrow> acc_enabled a \<noteq> b)
    \<and> sr_sessions_revoked res = (if acc_enabled a \<and> \<not> b then length (acc_live a) else 0)
    \<and> (\<forall>j. j \<noteq> i \<longrightarrow> account_of j db' = account_of j db)
    \<and> length (audit_logs db') = length (audit_logs db) + (if sr_changed res then 1 else 0)"
  using assms by (rule set_active_view)

section \<open>The account list\<close>

text \<open>\<open>CITEXT LIKE\<close> with the wildcards escaped: a case-insensitive substring.\<close>

fun contains :: "string \<Rightarrow> string \<Rightarrow> bool" where
  "contains needle [] = (needle = [])"
| "contains needle (c # cs) = (starts_with needle (c # cs) \<or> contains needle cs)"

definition user_key :: "user \<Rightarrow> timestamp \<times> uuid" where
  "user_key u = (u_created_at u, u_id u)"

definition matches_filters :: "bool option \<Rightarrow> bool option \<Rightarrow> string option \<Rightarrow> user \<Rightarrow> bool" where
  "matches_filters verified active search u =
     ((case verified of None \<Rightarrow> True | Some v \<Rightarrow> (u_email_verified_at u \<noteq> None) = v)
    \<and> (case active of None \<Rightarrow> True | Some a \<Rightarrow> u_is_active u = a)
    \<and> (case search of None \<Rightarrow> True | Some s \<Rightarrow> s = [] \<or> contains (py_lower s) (py_lower (u_email u))))"

definition list_page ::
  "bool option \<Rightarrow> bool option \<Rightarrow> string option \<Rightarrow> database \<Rightarrow> nat \<Rightarrow> (timestamp \<times> uuid) option \<Rightarrow> user list" where
  "list_page verified active search db limit after =
     take limit (rev (sort_key user_key (filter
       (\<lambda>u. matches_filters verified active search u
          \<and> (case after of None \<Rightarrow> True | Some k \<Rightarrow> user_key u < k)) (users db))))"

definition matching_users :: "bool option \<Rightarrow> bool option \<Rightarrow> string option \<Rightarrow> database \<Rightarrow> user list" where
  "matching_users verified active search db =
     rev (sort_key user_key (filter (matches_filters verified active search) (users db)))"

lemma distinct_user_keys: "wf_db db \<Longrightarrow> distinct (map user_key (filter P (users db)))"
  by (auto simp: wf_db_def distinct_map inj_on_def user_key_def)

interpretation user_list: keyset user_key "\<lambda>k u. user_key u < k" "list_page verified active search"
    "matching_users verified active search" wf_db
proof unfold_locales
  show "list_page verified active search db n None = take n (matching_users verified active search db)" for db n
    by (simp add: list_page_def matching_users_def)
  show "list_page verified active search db n (Some (user_key r))
      = take n (filter (\<lambda>u. user_key u < user_key r) (matching_users verified active search db))" for db n r
    by (simp add: list_page_def matching_users_def conj_commute flip: rev_filter filter_sort)
  show "wf_db db \<Longrightarrow> sorted_wrt (apart user_key (\<lambda>k u. user_key u < k)) (matching_users verified active search db)" for db
    unfolding matching_users_def by (rule rev_sort_apart) (rule distinct_user_keys)
qed simp

lemma matching_accounts:
  "set (matching_users verified active search db) = {u \<in> set (users db). matches_filters verified active search u}"
  "length (matching_users verified active search db) \<le> length (users db)"
  "wf_db db \<Longrightarrow> sorted_wrt (\<lambda>a b. user_key b < user_key a) (matching_users verified active search db)"
  unfolding matching_users_def by (auto intro!: rev_sort_descending distinct_user_keys)

end
