(* ===== verification/Cursor_Codec.thy ===== *)
theory Cursor_Codec
  imports Digest Python_Values
begin

text \<open>
  Cursors of list endpoints are base64 texts without padding (\<open>_encode_cursor\<close>).  The decoder is
  the one of CPython's \<open>binascii.a2b_base64\<close> in its default, lenient mode: characters outside the
  alphabet are skipped, and input after a complete padding is ignored.  Bytes are integers below 256.
\<close>

section \<open>Encoding\<close>

text \<open>The URL-safe alphabet.\<close>

definition sextet_char :: "int \<Rightarrow> char" where
  "sextet_char v = (if v < 26 then char_of (v + 65) else if v < 52 then char_of (v + 71)
     else if v < 62 then char_of (v - 4) else if v = 62 then CHR ''-'' else CHR ''_'')"

text \<open>\<open>base64.urlsafe_b64encode(b).decode("ascii").rstrip("=")\<close>.\<close>

fun b64_encode :: "int list \<Rightarrow> string" where
  "b64_encode (x # y # z # rest) =
     sextet_char (x div 4) # sextet_char (x mod 4 * 16 + y div 16) # sextet_char (y mod 16 * 4 + z div 64)
       # sextet_char (z mod 64) # b64_encode rest"
| "b64_encode [x, y] = [sextet_char (x div 4), sextet_char (x mod 4 * 16 + y div 16), sextet_char (y mod 16 * 4)]"
| "b64_encode [x] = [sextet_char (x div 4), sextet_char (x mod 4 * 16)]"
| "b64_encode [] = []"

section \<open>Decoding\<close>

text \<open>\<open>urlsafe_b64decode\<close> first maps \<open>-\<close> and \<open>_\<close> to the standard alphabet, so both spellings of
  the last two digits are read.\<close>

definition b64_value :: "char \<Rightarrow> int option" where
  "b64_value c = (let n = of_char c in
     if 65 \<le> n \<and> n \<le> 90 then Some (n - 65) else if 97 \<le> n \<and> n \<le> 122 then Some (n - 71)
     else if 48 \<le> n \<and> n \<le> 57 then Some (n + 4)
     else if n = 45 \<or> n = 43 then Some 62 else if n = 95 \<or> n = 47 then Some 63 else None)"

text \<open>The loop: position in the group of four, bits left over from the last digit, padding seen
  since, input.  \<open>None\<close> is \<open>binascii.Error\<close>.\<close>

fun a2b :: "nat \<Rightarrow> int \<Rightarrow> nat \<Rightarrow> string \<Rightarrow> int list option" where
  "a2b quad left pads [] = (if quad = 0 then Some [] else None)"
| "a2b quad left pads (c # cs) =
     (if c = CHR ''='' then
        (if 2 \<le> quad then (if 4 \<le> quad + (pads + 1) then Some [] else a2b quad left (pads + 1) cs)
         else a2b quad left pads cs)
      else case b64_value c of
        None \<Rightarrow> a2b quad left pads cs
      | Some v \<Rightarrow>
          if quad = 0 then a2b 1 v 0 cs
          else if quad = 1 then map_option (Cons (left * 4 + v div 16)) (a2b 2 (v mod 16) 0 cs)
          else if quad = 2 then map_option (Cons (left * 16 + v div 4)) (a2b 3 (v mod 4) 0 cs)
          else map_option (Cons (left * 64 + v)) (a2b 0 0 0 cs))"

text \<open>The padding the endpoints add back, \<open>"=" * (-len(raw) % 4)\<close>; a text with a character outside
  ASCII is a \<open>ValueError\<close>.\<close>

definition b64_decode :: "string \<Rightarrow> int list option" where
  "b64_decode raw = (if \<exists>c \<in> set raw. 128 \<le> ord_of c then None
     else a2b 0 0 0 (raw @ replicate ((4 - length raw mod 4) mod 4) CHR ''=''))"

section \<open>The round trip\<close>

definition byte :: "int \<Rightarrow> bool" where
  "byte b \<longleftrightarrow> 0 \<le> b \<and> b < 256"

lemma b64_value_char:
  assumes "0 \<le> v" and "v < 64"
  shows "b64_value (sextet_char v) = Some v" and "sextet_char v \<noteq> CHR ''=''" and "ord_of (sextet_char v) < (128 :: nat)"
proof -
  have "\<forall>v \<in> set [0..63]. b64_value (sextet_char v) = Some v \<and> sextet_char v \<noteq> CHR ''='' \<and> ord_of (sextet_char v) < (128 :: nat)"
    by code_simp
  with assms show "b64_value (sextet_char v) = Some v" "sextet_char v \<noteq> CHR ''=''" "ord_of (sextet_char v) < (128 :: nat)"
    by auto
qed

lemma sextets:
  assumes "byte x" and "byte y" and "byte z"
  shows "0 \<le> x div 4" "x div 4 < 64" "0 \<le> x mod 4 * 16 + y div 16" "x mod 4 * 16 + y div 16 < 64"
    "0 \<le> y mod 16 * 4 + z div 64" "y mod 16 * 4 + z div 64 < 64" "0 \<le> z mod 64" "z mod 64 < 64"
    "0 \<le> x mod 4 * 16" "x mod 4 * 16 < 64" "0 \<le> y mod 16 * 4" "y mod 16 * 4 < 64"
    "0 \<le> y div 16" "y div 16 < 16" "0 \<le> z div 64" "z div 64 < 4"
  using assms unfolding byte_def by linarith+

lemma remainders:
  fixes a :: int
  shows "0 \<le> a \<Longrightarrow> a < 16 \<Longrightarrow> a div 16 = 0 \<and> a mod 16 = a" "0 \<le> a \<Longrightarrow> a < 4 \<Longrightarrow> a div 4 = 0 \<and> a mod 4 = a"
  by (simp_all add: div_pos_pos_trivial mod_pos_pos_trivial)

lemma a2b_encoded:
  "list_all byte bs \<Longrightarrow> a2b 0 0 0 (b64_encode bs @ replicate ((4 - length (b64_encode bs) mod 4) mod 4) CHR ''='')
     = Some bs"
proof (induction bs rule: b64_encode.induct)
  case (1 x y z rest)
  then have "byte x" "byte y" "byte z" by auto
  note s = sextets [OF this]
  from 1 show ?case by (simp add: b64_value_char s remainders)
next
  case (2 x y)
  then have "byte x" "byte y" by auto
  note s = sextets [OF this this(2)]
  show ?case by (simp add: b64_value_char s remainders numeral_2_eq_2)
next
  case (3 x)
  then have "byte x" by simp
  note s = sextets [OF this this this]
  show ?case by (simp add: b64_value_char s remainders numeral_2_eq_2)
qed simp

lemma b64_chars:
  assumes P: "\<And>v. 0 \<le> v \<Longrightarrow> v < 64 \<Longrightarrow> P (sextet_char v)"
  shows "list_all byte bs \<Longrightarrow> \<forall>c \<in> set (b64_encode bs). P c"
proof (induction bs rule: b64_encode.induct)
  case (1 x y z rest)
  then have "byte x" "byte y" "byte z" by auto
  note s = sextets [OF this]
  from 1 show ?case by (simp add: P s)
next
  case (2 x y)
  then have "byte x" "byte y" by auto
  note s = sextets [OF this this(2)]
  show ?case by (simp add: P s)
next
  case (3 x)
  then have "byte x" by simp
  note s = sextets [OF this this this]
  show ?case by (simp add: P s)
qed simp

lemma b64_ascii: "list_all byte bs \<Longrightarrow> \<forall>c \<in> set (b64_encode bs). ord_of c < (128 :: nat)"
  using b64_chars [where P = "\<lambda>c. ord_of c < (128 :: nat)"] b64_value_char(3) by simp

text \<open>The characters a query string carries unescaped (RFC 3986), but for the dot and the tilde.\<close>

definition query_safe :: "char \<Rightarrow> bool" where
  "query_safe c \<longleftrightarrow> ascii_lower c \<or> ascii_lower (lower_char c) \<or> ascii_digit c \<or> c = CHR ''-'' \<or> c = CHR ''_''"

lemma b64_query_safe:
  assumes "list_all byte bs"
  shows "list_all query_safe (b64_encode bs)"
proof -
  have "\<forall>v \<in> set [0..63]. query_safe (sextet_char v)" by code_simp
  then have "query_safe (sextet_char v)" if "0 \<le> v" and "v < 64" for v
    using that by auto
  with assms show ?thesis by (simp add: list_all_iff b64_chars [where P = query_safe])
qed

lemma b64_roundtrip: "list_all byte bs \<Longrightarrow> b64_decode (b64_encode bs) = Some bs"
  using a2b_encoded [of bs] b64_ascii [of bs] by (auto simp: b64_decode_def)

lemma utf8_bytes: "list_all byte (utf8 s)"
proof -
  have "list_all byte (utf8_char c)" for c
    using of_char_int_bounds [of c] by (auto simp: utf8_char_def Let_def byte_def)
  then show ?thesis by (induction s) (auto simp: utf8_def)
qed

section \<open>The cursor of the settings list\<close>

text \<open>\<open>^[a-z][a-z0-9_]*$\<close>.\<close>

definition key_text :: "string \<Rightarrow> bool" where
  "key_text s = (case s of [] \<Rightarrow> False
     | c # cs \<Rightarrow> ascii_lower c \<and> list_all (\<lambda>d. ascii_lower d \<or> ascii_digit d \<or> d = CHR ''_'') cs)"

definition encode_key_cursor :: "string \<Rightarrow> string" where
  "encode_key_cursor key = b64_encode (utf8 key)"

text \<open>\<open>None\<close> is the \<open>ValueError\<close> the endpoint reports.\<close>

definition validate_key_cursor :: "string \<Rightarrow> string option" where
  "validate_key_cursor raw = (case b64_decode raw of None \<Rightarrow> None
     | Some bytes \<Rightarrow> (case utf8_decode bytes of None \<Rightarrow> None
         | Some decoded \<Rightarrow> if re_whole key_text decoded then Some decoded else None))"

lemma key_cursor_back: "key_text key \<Longrightarrow> validate_key_cursor (encode_key_cursor key) = Some key"
  by (simp add: validate_key_cursor_def encode_key_cursor_def b64_roundtrip utf8_bytes utf8_decode_utf8 re_whole_def)

text \<open>A cursor the endpoint has handed out is read back as the key it was made from, and whatever is
  read from a cursor is the text of a key, or such a text with a line break after it.\<close>

theorem key_cursor_roundtrip:
  shows "key_text key \<Longrightarrow> validate_key_cursor (encode_key_cursor key) = Some key"
    and "validate_key_cursor raw = Some s \<Longrightarrow> key_text s \<or> (\<exists>k. key_text k \<and> s = k @ [CHR 0x0A])"
proof -
  show "validate_key_cursor (encode_key_cursor key) = Some key" if "key_text key"
    using that by (rule key_cursor_back)
  show "key_text s \<or> (\<exists>k. key_text k \<and> s = k @ [CHR 0x0A])" if "validate_key_cursor raw = Some s"
  proof -
    from that have "re_whole key_text s"
      by (auto simp: validate_key_cursor_def split: option.splits if_splits)
    then show ?thesis by (metis append_butlast_last_id re_whole_def)
  qed
qed

text \<open>The dollar of the pattern lets a line break through.\<close>

lemma key_cursor_newline: "validate_key_cursor (b64_encode (utf8 (''a'' @ [CHR 0x0A]))) = Some (''a'' @ [CHR 0x0A])"
  by code_simp

end
