(* ===== verification/Iso_Datetime.thy ===== *)
theory Iso_Datetime
  imports Text_Codec Python_Values
begin

text \<open>
  \<open>datetime.fromisoformat\<close>, which reads the instants the page cursors carry: the ISO 8601 forms of
  CPython's Lib/_pydatetime.py, with the digits of its C implementation (ASCII, exact width).  A
  \<open>datetime\<close> is its local time in microseconds and its offset from UTC; it is naive without one.
\<close>

section \<open>The calendar\<close>

definition leap_year :: "int \<Rightarrow> bool" where
  "leap_year y = (y mod 4 = 0 \<and> (y mod 100 \<noteq> 0 \<or> y mod 400 = 0))"

definition days_in_month :: "int \<Rightarrow> int \<Rightarrow> int" where
  "days_in_month y m = (if m = 2 then (if leap_year y then 29 else 28) else if m \<in> {4, 6, 9, 11} then 30 else 31)"

definition valid_date :: "int \<Rightarrow> int \<Rightarrow> int \<Rightarrow> bool" where
  "valid_date y m d = (1 \<le> y \<and> y \<le> 9999 \<and> 1 \<le> m \<and> m \<le> 12 \<and> 1 \<le> d \<and> d \<le> days_in_month y m)"

text \<open>The day number of a date, counted from 1970-01-01; years start in March.\<close>

definition year_start :: "int \<Rightarrow> int" where
  "year_start yoe = 365 * yoe + yoe div 4 - yoe div 100"

definition days_from_civil :: "int \<Rightarrow> int \<Rightarrow> int \<Rightarrow> int" where
  "days_from_civil y m d = (let y' = (if m \<le> 2 then y - 1 else y); yoe = y' mod 400;
       mp = (if m \<le> 2 then m + 9 else m - 3)
     in 146097 * (y' div 400) + year_start yoe + (153 * mp + 2) div 5 + d - 1 - 719468)"

definition year_of_era :: "int \<Rightarrow> int" where
  "year_of_era doe = (doe - doe div 1460 + doe div 36524 - doe div 146096) div 365"

text \<open>An era of 400 years is centuries of 36524 days, and these are groups of 1461 days.\<close>

lemma year_of_era_eq:
  fixes c k p :: int
  assumes "0 \<le> c" "c \<le> 3" "0 \<le> k" "k \<le> 24" "0 \<le> p" "p \<le> 1460" and "k = 24 \<Longrightarrow> c < 3 \<Longrightarrow> p \<le> 1459"
  shows "year_of_era (36524 * c + 1461 * k + p) = 100 * c + 4 * k + min 3 (p div 365)"
proof (cases "c = 3 \<and> k = 24 \<and> p = 1460")
  case True
  then show ?thesis by (simp add: year_of_era_def)
next
  case False
  define t where "t = (24 * c + k + p) div 1460"
  let ?n = "36524 * c + 1461 * k + p"
  have q: "0 \<le> 1461 * k + p" "1461 * k + p < 36524" using assms False by linarith+
  have "?n div 36524 = c" using q by (intro int_div_pos_eq [where r = "1461 * k + p"]) auto
  moreover have "?n div 146096 = 0" using q assms(1,2) False by (simp add: div_pos_pos_trivial)
  moreover have "?n div 1460 = 25 * c + k + t"
  proof -
    have "?n = 24 * c + k + p + (25 * c + k) * 1460" by simp
    then show ?thesis unfolding t_def by (simp only: div_mult_self1)
  qed
  ultimately have "year_of_era ?n = (p - t + (100 * c + 4 * k) * 365) div 365"
    by (simp add: year_of_era_def algebra_simps)
  also have "\<dots> = 100 * c + 4 * k + (p - t) div 365" by simp
  also have "(p - t) div 365 = min 3 (p div 365)"
  proof -
    have t: "1460 * t \<le> 24 * c + k + p" "24 * c + k + p < 1460 * t + 1460" unfolding t_def by linarith+
    with assms(1-6) have "t = 0 \<and> p < 1460 \<or> t = 1 \<and> 1364 \<le> p" by linarith
    then show ?thesis using assms(5,6) by (elim disjE conjE) (simp_all add: min_def, linarith+)
  qed
  finally show ?thesis .
qed

lemma year_start_eq:
  fixes c k j :: int
  assumes "0 \<le> k" "k \<le> 24" "0 \<le> j" "j \<le> 3"
  shows "year_start (100 * c + 4 * k + j) = 36524 * c + 1461 * k + 365 * j"
proof -
  have "(100 * c + 4 * k + j) div 4 = 25 * c + k" using assms by (intro int_div_pos_eq [where r = j]) auto
  moreover have "(100 * c + 4 * k + j) div 100 = c" using assms by (intro int_div_pos_eq [where r = "4 * k + j"]) auto
  ultimately show ?thesis by (simp add: year_start_def)
qed

lemma year_of_day:
  assumes "0 \<le> doe" and "doe < 146097"
  shows "0 \<le> year_of_era doe" "year_of_era doe \<le> 399" "year_start (year_of_era doe) \<le> doe"
    "doe - year_start (year_of_era doe) \<le> 365"
    "doe - year_start (year_of_era doe) = 365 \<Longrightarrow> leap_year (year_of_era doe + 1)"
proof -
  define c where "c = min 3 (doe div 36524)"
  define q where "q = doe - 36524 * c"
  define k where "k = q div 1461"
  define p where "p = q mod 1461"
  define j where "j = min 3 (p div 365)"
  have c: "0 \<le> c" "c \<le> 3" using assms by (auto simp: c_def pos_imp_zdiv_nonneg_iff)
  have q: "0 \<le> q" "q < 36525" "c < 3 \<Longrightarrow> q < 36524" using assms by (auto simp: q_def c_def min_def split: if_splits)
  have k: "0 \<le> k" "k \<le> 24" and p: "0 \<le> p" "p \<le> 1460" and qk: "q = 1461 * k + p"
    using q unfolding k_def p_def by (simp_all add: pos_imp_zdiv_nonneg_iff)
  have j: "0 \<le> j" "j \<le> 3" "365 * j \<le> p" "p - 365 * j \<le> 365" "p - 365 * j = 365 \<Longrightarrow> j = 3 \<and> p = 1460"
    using p unfolding j_def by linarith+
  have doe: "doe = 36524 * c + 1461 * k + p" using qk by (simp add: q_def)
  have Y: "year_of_era doe = 100 * c + 4 * k + j"
    unfolding doe j_def by (rule year_of_era_eq) (use c k p q qk in auto)
  have S: "year_start (year_of_era doe) = 36524 * c + 1461 * k + 365 * j"
    unfolding Y by (rule year_start_eq) (use k j in auto)
  show "0 \<le> year_of_era doe" "year_of_era doe \<le> 399" using Y c k j by auto
  show "year_start (year_of_era doe) \<le> doe" "doe - year_start (year_of_era doe) \<le> 365"
    using S j by (simp_all add: doe)
  show "leap_year (year_of_era doe + 1)" if "doe - year_start (year_of_era doe) = 365"
  proof -
    from that S j have "j = 3" "p = 1460" by (simp_all add: doe)
    with Y have Y1: "year_of_era doe + 1 = 4 * (25 * c + k + 1)" by simp
    have "(100 * c + 4 * k + 4) mod 100 \<noteq> 0 \<or> (100 * c + 4 * k + 4) mod 400 = 0"
    proof (cases "k = 24")
      case True
      with \<open>p = 1460\<close> qk q have "c = 3" using c by (cases "c < 3") auto
      with True show ?thesis by simp
    next
      case False
      with k have "(100 * c + 4 * k + 4) mod 100 = 4 * k + 4" by (intro int_mod_pos_eq [where q = c]) auto
      with k show ?thesis by simp
    qed
    with Y1 show ?thesis by (simp add: leap_year_def algebra_simps)
  qed
qed

text \<open>The day and month within a year that starts in March.\<close>

lemma month_day:
  fixes doy :: int
  assumes "0 \<le> doy" and "doy \<le> 365"
  defines "mp \<equiv> (5 * doy + 2) div 153"
  defines "d \<equiv> doy - (153 * mp + 2) div 5 + 1"
  shows "0 \<le> mp" "mp \<le> 11" "1 \<le> d" "mp \<noteq> 11 \<Longrightarrow> d \<le> (if mp \<in> {1, 3, 6, 8} then 30 else 31)"
    "mp = 11 \<Longrightarrow> d \<le> 29" "mp = 11 \<Longrightarrow> d = 29 \<Longrightarrow> doy = 365" "306 \<le> doy \<longleftrightarrow> 10 \<le> mp"
proof -
  have mp: "153 * mp \<le> 5 * doy + 2" "5 * doy + 2 < 153 * mp + 153" unfolding mp_def by linarith+
  show range: "0 \<le> mp" "mp \<le> 11" "306 \<le> doy \<longleftrightarrow> 10 \<le> mp" using mp assms(1,2) by linarith+
  have half: "5 * ((153 * mp + 2) div 5) \<le> 153 * mp + 2" "153 * mp + 2 < 5 * ((153 * mp + 2) div 5) + 5" by linarith+
  show "1 \<le> d" unfolding d_def using half mp by linarith
  have cases: "mp = 0 \<or> mp = 1 \<or> mp = 2 \<or> mp = 3 \<or> mp = 4 \<or> mp = 5 \<or> mp = 6 \<or> mp = 7 \<or> mp = 8 \<or> mp = 9
      \<or> mp = 10 \<or> mp = 11"
    using range(1,2) by presburger
  show "d \<le> (if mp \<in> {1, 3, 6, 8} then 30 else 31)" if "mp \<noteq> 11"
    using cases that mp(2) unfolding d_def by (elim disjE) simp_all
  show "d \<le> 29" "d = 29 \<Longrightarrow> doy = 365" if "mp = 11"
    using that assms(2) unfolding d_def by simp_all
qed

lemma leap_era: "leap_year (y + 400 * e) = leap_year y"
proof -
  have "(y + 400 * e) mod 4 = y mod 4" "(y + 400 * e) mod 100 = y mod 100" "(y + 400 * e) mod 400 = y mod 400"
    by (simp_all add: mod_add_eq [symmetric, of y "400 * e"] mod_mult_left_eq [symmetric, of 400])
  then show ?thesis by (simp add: leap_year_def)
qed

text \<open>The days of the years 1 to 9999.\<close>

definition day_range :: "int \<Rightarrow> bool" where
  "day_range n \<longleftrightarrow> -719162 \<le> n \<and> n \<le> 2932896"

theorem civil_date:
  assumes "day_range n" and "civil_from_days n = (y, m, d)"
  shows "valid_date y m d" and "days_from_civil y m d = n"
proof -
  define z where "z = n + 719468"
  define era where "era = z div 146097"
  define doe where "doe = z mod 146097"
  define yoe where "yoe = year_of_era doe"
  define doy where "doy = doe - year_start yoe"
  define mp where "mp = (5 * doy + 2) div 153"
  have doe: "0 \<le> doe" "doe < 146097" "z = 146097 * era + doe" unfolding doe_def era_def by simp_all
  note yd = year_of_day [OF doe(1,2), folded yoe_def, folded doy_def]
  have doy: "0 \<le> doy" "doy \<le> 365" "doe = year_start yoe + doy" using yd by (simp_all add: doy_def)
  note md = month_day [OF doy(1,2), folded mp_def]
  have y: "y = yoe + era * 400 + (if m \<le> 2 then 1 else 0)" and m: "m = (if mp < 10 then mp + 3 else mp - 9)"
    and d: "d = doy - (153 * mp + 2) div 5 + 1"
    using assms(2) unfolding civil_from_days_def Let_def z_def [symmetric] era_def [symmetric] doe_def [symmetric]
      year_of_era_def [symmetric] yoe_def [symmetric] year_start_def [symmetric] doy_def [symmetric] mp_def [symmetric]
    by auto
  have era: "(yoe + era * 400) div 400 = era" "(yoe + era * 400) mod 400 = yoe" using yd(1,2) by auto
  have y': "(if m \<le> 2 then y - 1 else y) = yoe + era * 400" by (simp add: y)
  have mp': "(if m \<le> 2 then m + 9 else m - 3) = mp" using md(1,2) by (simp add: m)
  show "days_from_civil y m d = n"
    unfolding days_from_civil_def Let_def y' mp' era using doy(3) doe(3) by (simp add: d z_def)
  have feb: "mp = 11 \<longleftrightarrow> m = 2" using md(1,2) by (auto simp: m)
  have "d \<le> days_in_month y m"
  proof (cases "mp = 11")
    case True
    with feb have m2: "m = 2" by simp
    have "leap_year y" if "d = 29"
    proof -
      have "doy = 365" using md(6) [OF True] that by (simp add: d)
      then have "leap_year (yoe + 1)" by (rule yd(5))
      then show ?thesis using leap_era [of "yoe + 1" era] by (simp add: y m2 algebra_simps)
    qed
    with md(5) [OF True] show ?thesis by (fastforce simp: days_in_month_def m2 d)
  next
    case False
    then show ?thesis using md(1,2) md(4) [OF False] feb by (auto simp: days_in_month_def d m split: if_splits)
  qed
  moreover have "1 \<le> y" "y \<le> 9999"
  proof -
    have z: "306 \<le> z" "z \<le> 3652364" using assms(1) by (simp_all add: day_range_def z_def)
    then have e: "0 \<le> era" "era \<le> 24" unfolding era_def by linarith+
    show "1 \<le> y"
    proof (cases "era = 0 \<and> yoe = 0")
      case True
      then have "306 \<le> doy" using z doe doy(3) by (simp add: year_start_def)
      with md(7) have "m \<le> 2" using md(2) by (simp add: m)
      with True show ?thesis by (simp add: y)
    qed (use e yd in \<open>auto simp: y\<close>)
    show "y \<le> 9999"
    proof (cases "era = 24 \<and> yoe = 399")
      case True
      then have "doy \<le> 305" using z doe doy(3) by (simp add: year_start_def)
      with md(7) have "\<not> m \<le> 2" using md(1) by (simp add: m)
      with True show ?thesis by (simp add: y)
    qed (use e yd in \<open>auto simp: y\<close>)
  qed
  ultimately show "valid_date y m d"
    using md(1-3) by (auto simp: valid_date_def m d)
qed

section \<open>Reading an ISO 8601 text\<close>

record iso_datetime =
  dt_local :: int
  dt_offset :: "int option"

text \<open>Exactly \<open>w\<close> digits, and what follows.\<close>

definition digits_value :: "string \<Rightarrow> int" where
  "digits_value s = foldl (\<lambda>n c. 10 * n + (of_char c - 48)) 0 s"

definition parse_digits :: "nat \<Rightarrow> string \<Rightarrow> (int \<times> string) option" where
  "parse_digits w s = (if w \<le> length s \<and> list_all ascii_digit (take w s)
     then Some (digits_value (take w s), drop w s) else None)"

definition starts :: "char \<Rightarrow> string \<Rightarrow> bool" where
  "starts c s = (case s of [] \<Rightarrow> False | d # _ \<Rightarrow> d = c)"

text \<open>Where the date ends; a text shorter than 7 is refused before.\<close>

definition find_separator :: "string \<Rightarrow> nat option" where
  "find_separator s =
     (if length s = 7 then Some 7
      else if s ! 4 = CHR ''-'' then
        (if s ! 5 = CHR ''W'' then
           (if 8 < length s \<and> s ! 8 = CHR ''-'' then
              (if length s = 9 then None
               else if 10 < length s \<and> ascii_digit (s ! 10) then Some 8 else Some 10)
            else Some 8)
         else Some 10)
      else if s ! 4 = CHR ''W'' then
        (let idx = 7 + length (takeWhile ascii_digit (drop 7 s)) in
         if idx < 9 then Some idx else if even idx then Some 7 else Some 8)
      else Some 8)"

text \<open>\<open>_isoweek_to_gregorian\<close>; weekdays count from Monday.\<close>

definition weekday :: "int \<Rightarrow> int" where
  "weekday n = (n + 3) mod 7"

definition isoweek_to_day :: "int \<Rightarrow> int \<Rightarrow> int \<Rightarrow> int option" where
  "isoweek_to_day y w d =
     (let first = days_from_civil y 1 1; fw = weekday first;
          monday = first - fw + (if 3 < fw then 7 else 0)
      in if \<not> (1 \<le> y \<and> y \<le> 9999) then None
         else if \<not> (0 < w \<and> w < 53) \<and> \<not> (w = 53 \<and> (fw = 3 \<or> fw = 2 \<and> leap_year y)) then None
         else if \<not> (0 < d \<and> d < 8) then None
         else let n = monday + (w - 1) * 7 + (d - 1) in if day_range n then Some n else None)"

text \<open>The day number of a date text.\<close>

definition parse_isoformat_date :: "string \<Rightarrow> int option" where
  "parse_isoformat_date s = (case parse_digits 4 s of None \<Rightarrow> None
     | Some (y, r1) \<Rightarrow>
         (let has_sep = starts CHR ''-'' r1; r2 = (if has_sep then tl r1 else r1) in
          if starts CHR ''W'' r2 then
            (case parse_digits 2 (tl r2) of None \<Rightarrow> None
             | Some (w, r3) \<Rightarrow>
                 if r3 = [] then isoweek_to_day y w 1
                 else if starts CHR ''-'' r3 \<noteq> has_sep then None
                 else (case parse_digits 1 (if has_sep then tl r3 else r3) of None \<Rightarrow> None
                   | Some (d, r4) \<Rightarrow> if r4 = [] then isoweek_to_day y w d else None))
          else
            (case parse_digits 2 r2 of None \<Rightarrow> None
             | Some (m, r3) \<Rightarrow>
                 if starts CHR ''-'' r3 \<noteq> has_sep then None
                 else (case parse_digits 2 (if has_sep then tl r3 else r3) of None \<Rightarrow> None
                   | Some (d, r4) \<Rightarrow> if r4 = [] \<and> valid_date y m d then Some (days_from_civil y m d) else None))))"

text \<open>\<open>HH[:?MM[:?SS[{.,}f+]]]\<close>: hours, minutes, seconds, microseconds.\<close>

definition parse_fraction :: "string \<Rightarrow> int option" where
  "parse_fraction s = (case s of
       [] \<Rightarrow> Some 0
     | c # f \<Rightarrow> if (c = CHR ''.'' \<or> c = CHR '','') \<and> f \<noteq> [] \<and> list_all ascii_digit f
         then Some (digits_value (take 6 f) * 10 ^ (6 - length (take 6 f))) else None)"

definition parse_hh_mm_ss_ff :: "string \<Rightarrow> (int \<times> int \<times> int \<times> int) option" where
  "parse_hh_mm_ss_ff s = (case parse_digits 2 s of None \<Rightarrow> None
     | Some (h, r1) \<Rightarrow>
         if r1 = [] then Some (h, 0, 0, 0)
         else (let has_sep = starts CHR '':'' r1 in
           case parse_digits 2 (if has_sep then tl r1 else r1) of None \<Rightarrow> None
           | Some (mi, r2) \<Rightarrow>
               if r2 = [] then Some (h, mi, 0, 0)
               else if has_sep \<and> \<not> starts CHR '':'' r2 then None
               else (case parse_digits 2 (if has_sep then tl r2 else r2) of None \<Rightarrow> None
                 | Some (sec, r3) \<Rightarrow> map_option (\<lambda>us. (h, mi, sec, us)) (parse_fraction r3))))"

definition micros_of :: "int \<times> int \<times> int \<times> int \<Rightarrow> int" where
  "micros_of c = (case c of (h, mi, sec, us) \<Rightarrow> seconds (3600 * h + 60 * mi + sec) + us)"

definition parse_offset :: "char \<Rightarrow> string \<Rightarrow> int option" where
  "parse_offset sign s =
     (if sign = CHR ''Z'' \<and> s = [] then Some 0
      else if length s \<in> {0, 1, 3} then None
      else (case parse_hh_mm_ss_ff s of None \<Rightarrow> None
        | Some c \<Rightarrow> (let off = (if sign = CHR ''-'' then - micros_of c else micros_of c) in
            if - days 1 < off \<and> off < days 1 then Some off else None)))"

text \<open>The offset begins at the first minus, or else the first plus, or else the first \<open>Z\<close>.\<close>

definition split_at :: "char \<Rightarrow> string \<Rightarrow> string \<times> string" where
  "split_at c s = (takeWhile (\<lambda>d. d \<noteq> c) s, dropWhile (\<lambda>d. d \<noteq> c) s)"

definition split_offset :: "string \<Rightarrow> string \<times> string" where
  "split_offset s = (if CHR ''-'' \<in> set s then split_at CHR ''-'' s
     else if CHR ''+'' \<in> set s then split_at CHR ''+'' s else split_at CHR ''Z'' s)"

definition parse_isoformat_time :: "string \<Rightarrow> (int \<times> int option) option" where
  "parse_isoformat_time s =
     (if length s < 2 then None
      else case split_offset s of (time, zone) \<Rightarrow>
        (case parse_hh_mm_ss_ff time of None \<Rightarrow> None
         | Some (h, mi, sec, us) \<Rightarrow>
             if \<not> (h < 24 \<and> mi < 60 \<and> sec < 60) then None
             else (case zone of [] \<Rightarrow> Some (micros_of (h, mi, sec, us), None)
               | sign # z \<Rightarrow> map_option (\<lambda>off. (micros_of (h, mi, sec, us), Some off)) (parse_offset sign z))))"

definition fromisoformat :: "string \<Rightarrow> iso_datetime option" where
  "fromisoformat s =
     (if length s < 7 then None
      else case find_separator s of None \<Rightarrow> None
        | Some loc \<Rightarrow> (case parse_isoformat_date (take loc s) of None \<Rightarrow> None
            | Some day \<Rightarrow> (let tstr = drop (Suc loc) s in
                if tstr = [] then Some \<lparr>dt_local = days day, dt_offset = None\<rparr>
                else map_option (\<lambda>(us, off). \<lparr>dt_local = days day + us, dt_offset = off\<rparr>) (parse_isoformat_time tstr))))"

lemma fromisoformat_examples:
  "fromisoformat ''2026-09-07T01:12:28.030858+00:00'' = Some \<lparr>dt_local = 1788743548030858, dt_offset = Some 0\<rparr>"
  "fromisoformat ''2026W371T0112-0130'' = Some \<lparr>dt_local = 1788743520000000, dt_offset = Some (- 5400000000)\<rparr>"
  "fromisoformat ''2026-09-07 01:12'' = Some \<lparr>dt_local = 1788743520000000, dt_offset = None\<rparr>"
  "fromisoformat ''2026-02-29T00:00:00Z'' = None"
  by code_simp+

section \<open>What \<open>isoformat\<close> writes is read back\<close>

lemma length_dec_fixed [simp]: "length (dec_fixed w n) = w"
  by (induction w arbitrary: n) auto

lemma digit_code: "(of_char (char_of (48 + nat (n mod 10))) :: nat) = 48 + nat (n mod 10)"
    "(of_char (char_of (48 + nat (n mod 10))) :: int) = 48 + n mod 10"
proof -
  show "(of_char (char_of (48 + nat (n mod 10))) :: nat) = 48 + nat (n mod 10)" by (simp add: of_char_of)
  then have "int (of_char (char_of (48 + nat (n mod 10)))) = 48 + n mod 10" by (simp only:)
  then show "(of_char (char_of (48 + nat (n mod 10))) :: int) = 48 + n mod 10" by (simp only: of_nat_of_char)
qed

lemma dec_fixed_digits: "list_all ascii_digit (dec_fixed w n)"
  by (induction w arbitrary: n) (auto simp: ascii_digit_def digit_code Let_def)

lemma digits_value_snoc: "digits_value (s @ [c]) = 10 * digits_value s + (of_char c - 48)"
  by (simp add: digits_value_def)

lemma digits_value_dec: "0 \<le> n \<Longrightarrow> n < 10 ^ w \<Longrightarrow> digits_value (dec_fixed w n) = n"
proof (induction w arbitrary: n)
  case (Suc w)
  then have "digits_value (dec_fixed w (n div 10)) = n div 10" by (intro Suc.IH) auto
  then show ?case by (simp add: digits_value_snoc digit_code)
qed (simp add: digits_value_def)

lemma parse_digits_dec: "0 \<le> n \<Longrightarrow> n < 10 ^ w \<Longrightarrow> parse_digits w (dec_fixed w n @ r) = Some (n, r)"
  by (simp add: parse_digits_def dec_fixed_digits digits_value_dec)

lemma starts_simps [simp]: "starts c [] = False" "starts c (d # s) = (d = c)"
  by (simp_all add: starts_def)

lemma starts_digit: "starts c (s @ z) \<Longrightarrow> s \<noteq> [] \<Longrightarrow> list_all ascii_digit s \<Longrightarrow> ascii_digit c"
  by (cases s) auto

lemma dec_fixed_nonempty [simp]: "0 < w \<Longrightarrow> dec_fixed w n \<noteq> []"
  by (metis length_dec_fixed length_greater_0_conv)

lemma read_date:
  assumes "valid_date y m d"
  shows "parse_isoformat_date (dec_fixed 4 y @ ''-'' @ dec_fixed 2 m @ ''-'' @ dec_fixed 2 d) = Some (days_from_civil y m d)"
proof -
  have r: "0 \<le> y" "y < 10 ^ 4" "0 \<le> m" "m < 10 ^ 2" "0 \<le> d" "d < 10 ^ 2"
    using assms by (auto simp: valid_date_def days_in_month_def split: if_splits)
  have "\<not> starts CHR ''W'' (dec_fixed 2 m @ z)" for z
    using starts_digit [of "CHR ''W''" "dec_fixed 2 m" z] by (auto simp: dec_fixed_digits ascii_digit_def)
  moreover have "parse_digits 2 (dec_fixed 2 d) = Some (d, [])" using parse_digits_dec [OF r(5,6), of "[]"] by simp
  ultimately show ?thesis
    using assms parse_digits_dec [OF r(1,2)] parse_digits_dec [OF r(3,4)] by (simp add: parse_isoformat_date_def Let_def)
qed

lemma read_time:
  assumes "0 \<le> h" "h < 24" "0 \<le> mi" "mi < 60" "0 \<le> sec" "sec < 60" "0 \<le> us" "us < 1000000"
  shows "parse_hh_mm_ss_ff (dec_fixed 2 h @ '':'' @ dec_fixed 2 mi @ '':'' @ dec_fixed 2 sec
      @ (if us = 0 then [] else ''.'' @ dec_fixed 6 us)) = Some (h, mi, sec, us)"
proof -
  have "h < 10 ^ 2" "mi < 10 ^ 2" "sec < 10 ^ 2" "us < 10 ^ 6" using assms by simp_all
  note p = parse_digits_dec [OF assms(1) this(1)] parse_digits_dec [OF assms(3) this(2)]
    parse_digits_dec [OF assms(5) this(3)] digits_value_dec [OF assms(7) this(4)]
  with p dec_fixed_digits [of 6 us] show ?thesis
    using p(3) [of "[]"] by (auto simp: parse_hh_mm_ss_ff_def parse_fraction_def)
qed

text \<open>The instants a \<open>datetime\<close> in UTC can hold.\<close>

definition representable :: "timestamp \<Rightarrow> bool" where
  "representable t = day_range (t div days 1)"

lemma digits_no_sign:
  assumes "\<not> ascii_digit c"
  shows "c \<notin> set (dec_fixed w n)"
  using assms dec_fixed_digits [of w n] by (auto simp: list_all_iff)

lemma split_utc:
  assumes "CHR ''-'' \<notin> set s" and "CHR ''+'' \<notin> set s"
  shows "split_offset (s @ ''+00:00'') = (s, ''+00:00'')"
proof -
  have "\<forall>x \<in> set s. x \<noteq> CHR ''+''" using assms(2) by auto
  then have "takeWhile (\<lambda>d. d \<noteq> CHR ''+'') (s @ ''+00:00'') = s" "dropWhile (\<lambda>d. d \<noteq> CHR ''+'') (s @ ''+00:00'') = ''+00:00''"
    by (simp_all add: takeWhile_append2 dropWhile_append2)
  with assms show ?thesis by (simp add: split_offset_def split_at_def)
qed

lemma utc_offset: "parse_offset CHR ''+'' ''00:00'' = Some 0"
  by code_simp

lemma clock_parts:
  fixes s :: int
  assumes "0 \<le> s" and "s < 86400"
  shows "0 \<le> s div 3600" "s div 3600 < 24" "3600 * (s div 3600) + 60 * (s div 60 mod 60) + s mod 60 = s"
proof -
  show "0 \<le> s div 3600" "s div 3600 < 24" using assms by linarith+
  have "s div 3600 = s div 60 div 60" using zdiv_zmult2_eq [of 60 s 60] by simp
  moreover have "60 * (s div 60 div 60) + s div 60 mod 60 = s div 60" "60 * (s div 60) + s mod 60 = s" by simp_all
  ultimately show "3600 * (s div 3600) + 60 * (s div 60 mod 60) + s mod 60 = s" by linarith
qed

theorem fromisoformat_isoformat:
  assumes "representable t"
  shows "fromisoformat (isoformat t) = Some \<lparr>dt_local = t, dt_offset = Some 0\<rparr>"
proof -
  obtain y m d where c: "civil_from_days (t div days 1) = (y, m, d)" by (rule prod_cases3)
  from civil_date [OF assms [unfolded representable_def] c] have v: "valid_date y m d"
    and n: "days_from_civil y m d = t div days 1" by auto
  define us where "us = t mod days 1"
  define h where "h = us div 1000000 div 3600"
  define mi where "mi = us div 1000000 div 60 mod 60"
  define sec where "sec = us div 1000000 mod 60"
  define frac where "frac = us mod 1000000"
  define s where "s = us div 1000000"
  have us: "0 \<le> us" "us < 86400000000" unfolding us_def by simp_all
  then have s: "0 \<le> s" "s < 86400" unfolding s_def by linarith+
  note clock = clock_parts [OF s]
  have parts: "0 \<le> h" "h < 24" "0 \<le> mi" "mi < 60" "0 \<le> sec" "sec < 60" "0 \<le> frac" "frac < 1000000"
    using clock unfolding h_def mi_def sec_def frac_def s_def by simp_all
  have "3600 * h + 60 * mi + sec = s" using clock(3) unfolding h_def mi_def sec_def s_def by simp
  then have "micros_of (h, mi, sec, frac) = seconds s + frac" by (simp only: micros_of_def prod.case)
  then have sum: "micros_of (h, mi, sec, frac) = us" by (simp add: s_def frac_def)
  let ?d = "dec_fixed 4 y @ ''-'' @ dec_fixed 2 m @ ''-'' @ dec_fixed 2 d"
  let ?t = "dec_fixed 2 h @ '':'' @ dec_fixed 2 mi @ '':'' @ dec_fixed 2 sec @ (if frac = 0 then [] else ''.'' @ dec_fixed 6 frac)"
  have iso: "isoformat t = ?d @ ''T'' @ ?t @ ''+00:00''"
    unfolding isoformat_def c by (simp add: Let_def us_def h_def mi_def sec_def frac_def)
  have "isoformat t ! 4 = CHR ''-''" unfolding iso by (simp add: nth_append)
  moreover have "isoformat t ! 5 \<noteq> CHR ''W''"
  proof -
    have "isoformat t ! 5 = dec_fixed 2 m ! 0" unfolding iso by (simp add: nth_append)
    then have "ascii_digit (isoformat t ! 5)" using dec_fixed_digits [of 2 m] by (simp add: list_all_length)
    then show ?thesis by (auto simp: ascii_digit_def)
  qed
  moreover have len: "length ?d = 10" by simp
  moreover have "7 < length (isoformat t)" unfolding iso by simp
  ultimately have "find_separator (isoformat t) = Some 10" by (simp add: find_separator_def)
  moreover have "take 10 (isoformat t) = ?d" "drop (Suc 10) (isoformat t) = ?t @ ''+00:00''"
    unfolding iso using len by (simp_all add: take_Cons' drop_Cons')
  moreover have "parse_isoformat_time (?t @ ''+00:00'') = Some (us, Some 0)"
  proof -
    have "CHR ''-'' \<notin> set ?t" "CHR ''+'' \<notin> set ?t"
      by (auto simp: ascii_digit_def dest: digits_no_sign [THEN notE, rotated])
    from split_utc [OF this] read_time [OF parts] parts show ?thesis
      unfolding parse_isoformat_time_def by (simp add: utc_offset sum)
  qed
  moreover have "days (t div days 1) + us = t" unfolding us_def by simp
  moreover have "\<not> length (isoformat t) < 7" unfolding iso by simp
  ultimately show ?thesis
    unfolding fromisoformat_def using read_date [OF v] by (simp add: n)
qed

end
