(* ===== verification/Page_Cursors.thy ===== *)
theory Page_Cursors
  imports Cursor_Codec Iso_Datetime
begin

text \<open>
  The page cursors that carry two values: the instant and id of admin_users.py and notifications.py,
  and the name and id of reference_data.py, which travel as JSON.  \<open>json.loads\<close> is the decoder of
  CPython's Lib/json; it raises \<open>RecursionError\<close> when arrays and objects nest deeper than the
  interpreter's limit, a parameter.  A text with a character beyond Latin-1 is outside the model's
  strings and is refused.
\<close>

section \<open>Instants and ids\<close>

definition CURSOR_SEPARATOR :: char where "CURSOR_SEPARATOR = CHR ''|''"

definition encode_user_cursor :: "timestamp \<times> uuid \<Rightarrow> string" where
  "encode_user_cursor k = (case k of (created_at, user_id) \<Rightarrow>
     b64_encode (utf8 (isoformat created_at @ [CURSOR_SEPARATOR] @ str_uuid user_id)))"

text \<open>\<open>None\<close> is \<open>ValueError\<close>; an aware \<open>datetime\<close> compares by its instant.\<close>

definition parse_user_cursor :: "string \<Rightarrow> (timestamp \<times> uuid) option" where
  "parse_user_cursor raw = (case b64_decode raw of None \<Rightarrow> None
     | Some bytes \<Rightarrow> (case utf8_decode bytes of None \<Rightarrow> None
         | Some decoded \<Rightarrow>
             if CURSOR_SEPARATOR \<notin> set decoded then None
             else (case split_at CURSOR_SEPARATOR decoded of (created_raw, rest) \<Rightarrow>
               (case (fromisoformat created_raw, parse_uuid (tl rest)) of
                  (Some dt, Some user_id) \<Rightarrow>
                    (case dt_offset dt of None \<Rightarrow> None | Some off \<Rightarrow> Some (dt_local dt - off, user_id))
                | _ \<Rightarrow> None))))"

text \<open>The notifications have functions of their own, with the same text.\<close>

definition encode_notification_cursor :: "timestamp \<times> uuid \<Rightarrow> string" where
  "encode_notification_cursor k = (case k of (created_at, notification_id) \<Rightarrow>
     b64_encode (utf8 (isoformat created_at @ [CURSOR_SEPARATOR] @ str_uuid notification_id)))"

definition parse_notification_cursor :: "string \<Rightarrow> (timestamp \<times> uuid) option" where
  "parse_notification_cursor raw = (case b64_decode raw of None \<Rightarrow> None
     | Some bytes \<Rightarrow> (case utf8_decode bytes of None \<Rightarrow> None
         | Some decoded \<Rightarrow>
             if CURSOR_SEPARATOR \<notin> set decoded then None
             else (case split_at CURSOR_SEPARATOR decoded of (created_raw, rest) \<Rightarrow>
               (case (fromisoformat created_raw, parse_uuid (tl rest)) of
                  (Some dt, Some notification_id) \<Rightarrow>
                    (case dt_offset dt of None \<Rightarrow> None | Some off \<Rightarrow> Some (dt_local dt - off, notification_id))
                | _ \<Rightarrow> None))))"

lemma same_cursors: "encode_notification_cursor = encode_user_cursor" "parse_notification_cursor = parse_user_cursor"
  by (auto simp: fun_eq_iff encode_notification_cursor_def encode_user_cursor_def parse_notification_cursor_def
      parse_user_cursor_def)

lemma isoformat_no_separator: "CURSOR_SEPARATOR \<notin> set (isoformat t)"
  using digits_no_sign [of CURSOR_SEPARATOR]
  by (auto simp: isoformat_def CURSOR_SEPARATOR_def ascii_digit_def Let_def split: prod.split)

lemma split_at_first: "c \<notin> set s \<Longrightarrow> split_at c (s @ c # r) = (s, c # r)"
  by (induction s) (auto simp: split_at_def)

theorem user_cursor_roundtrip:
  assumes "representable t"
  shows "parse_user_cursor (encode_user_cursor (t, i)) = Some (t, i)"
  using split_at_first [OF isoformat_no_separator]
  by (simp add: parse_user_cursor_def encode_user_cursor_def b64_roundtrip utf8_bytes utf8_decode_utf8
      fromisoformat_isoformat [OF assms] parse_str_uuid)

section \<open>JSON\<close>

text \<open>Strings are lists of code points; of the other values only their presence matters.\<close>

datatype json =
    JText "nat list"
  | JObject "(nat list \<times> json) list"
  | JOther

datatype json_error = Malformed | Too_Deep

definition skip_ws :: "string \<Rightarrow> string" where
  "skip_ws s = dropWhile (\<lambda>c. c \<in> {CHR '' '', CHR 0x09, CHR 0x0A, CHR 0x0D}) s"

definition json_hex :: "char \<Rightarrow> nat option" where
  "json_hex c = (let n = ord_of c in
     if 48 \<le> n \<and> n \<le> 57 then Some (n - 48) else if 97 \<le> n \<and> n \<le> 102 then Some (n - 87)
     else if 65 \<le> n \<and> n \<le> 70 then Some (n - 55) else None)"

text \<open>The four digits of \<open>\\uXXXX\<close>.\<close>

definition hex4 :: "string \<Rightarrow> (nat \<times> string) option" where
  "hex4 s = (case s of
       a # b # c # d # r \<Rightarrow> (case (json_hex a, json_hex b, json_hex c, json_hex d) of
           (Some i, Some j, Some k, Some l) \<Rightarrow> Some (4096 * i + 256 * j + 16 * k + l, r)
         | _ \<Rightarrow> None)
     | _ \<Rightarrow> None)"

definition backslash :: "char \<Rightarrow> nat option" where
  "backslash e = (if e \<in> {CHR 0x22, CHR 0x5C, CHR ''/''} then Some (ord_of e)
     else if e = CHR ''b'' then Some 8 else if e = CHR ''f'' then Some 12 else if e = CHR ''n'' then Some 10
     else if e = CHR ''r'' then Some 13 else if e = CHR ''t'' then Some 9 else None)"

text \<open>One character of a string, after its opening quote: \<open>None\<close> within \<open>Some\<close> is the closing quote.\<close>

definition scan_char :: "string \<Rightarrow> (nat option \<times> string) option" where
  "scan_char s = (case s of
       [] \<Rightarrow> None
     | c # r \<Rightarrow>
         if c = CHR 0x22 then Some (None, r)
         else if ord_of c < (32 :: nat) then None
         else if c \<noteq> CHR 0x5C then Some (Some (ord_of c), r)
         else (case r of
             [] \<Rightarrow> None
           | e # r' \<Rightarrow>
               if e \<noteq> CHR ''u'' then map_option (\<lambda>n. (Some n, r')) (backslash e)
               else (case hex4 r' of None \<Rightarrow> None
                 | Some (u, r2) \<Rightarrow>
                     if 0xD800 \<le> u \<and> u \<le> 0xDBFF \<and> take 2 r2 = [CHR 0x5C, CHR ''u''] then
                       (case hex4 (drop 2 r2) of None \<Rightarrow> None
                        | Some (v, r3) \<Rightarrow> if 0xDC00 \<le> v \<and> v \<le> 0xDFFF
                            then Some (Some (0x10000 + 1024 * (u - 0xD800) + (v - 0xDC00)), r3)
                            else Some (Some u, r2))
                     else Some (Some u, r2))))"

lemma hex4_shorter: "hex4 s = Some (n, r) \<Longrightarrow> length r < length s"
  by (auto simp: hex4_def split: list.splits option.splits)

lemma scan_char_shorter: "scan_char s = Some (c, r) \<Longrightarrow> length r < length s"
  by (auto simp: scan_char_def split: list.splits option.splits prod.splits if_splits dest!: hex4_shorter)

function scan_string :: "string \<Rightarrow> (nat list \<times> string) option" where
  "scan_string s = (case scan_char s of
       None \<Rightarrow> None
     | Some (None, r) \<Rightarrow> Some ([], r)
     | Some (Some n, r) \<Rightarrow> map_option (\<lambda>(ns, r'). (n # ns, r')) (scan_string r))"
  by pat_completeness auto
termination
  by (relation "measure length") (auto dest: scan_char_shorter)

declare scan_string.simps [simp del]

text \<open>A number, and the limit of 4300 digits that \<open>int\<close> sets; \<open>None\<close> when there is none.\<close>

definition scan_fraction :: "string \<Rightarrow> string" where
  "scan_fraction s = (case s of c # d # r \<Rightarrow> if c = CHR ''.'' \<and> ascii_digit d then dropWhile ascii_digit r else s | _ \<Rightarrow> s)"

definition scan_exponent :: "string \<Rightarrow> string" where
  "scan_exponent s = (case s of
       c # r \<Rightarrow> (let r' = (case r of d # q \<Rightarrow> if d = CHR ''+'' \<or> d = CHR ''-'' then q else r | [] \<Rightarrow> r) in
         if (c = CHR ''e'' \<or> c = CHR ''E'') \<and> r' \<noteq> [] \<and> ascii_digit (hd r') then dropWhile ascii_digit r' else s)
     | [] \<Rightarrow> s)"

definition scan_number :: "string \<Rightarrow> string option" where
  "scan_number s = (let r = (if starts CHR ''-'' s then tl s else s) in case r of
       [] \<Rightarrow> None
     | c # q \<Rightarrow>
         if \<not> ascii_digit c then None
         else (let r1 = (if c = CHR ''0'' then q else dropWhile ascii_digit q); r2 = scan_exponent (scan_fraction r1) in
           if r2 = r1 \<and> 4300 < length r - length r1 then None else Some r2))"

definition LITERALS :: "string list" where
  "LITERALS = [''null'', ''true'', ''false'', ''NaN'', ''Infinity'', ''-Infinity'']"

definition scan_scalar :: "string \<Rightarrow> string option" where
  "scan_scalar s = (case find (\<lambda>l. starts_with l s) LITERALS of
       Some l \<Rightarrow> Some (drop (length l) s)
     | None \<Rightarrow> scan_number s)"

text \<open>\<open>JSONArray\<close> and \<open>JSONObject\<close> after their opening bracket; \<open>f\<close> reads a value.  Every round
  of a loop consumes a character, so the length of the text bounds the rounds.\<close>

type_synonym 'a scanned = "json_error + 'a \<times> string"

fun scan_items :: "nat \<Rightarrow> (string \<Rightarrow> json scanned) \<Rightarrow> string \<Rightarrow> json scanned" where
  "scan_items 0 f s = Inl Malformed"
| "scan_items (Suc n) f s = (case f s of
       Inl e \<Rightarrow> Inl e
     | Inr (_, r) \<Rightarrow> (case skip_ws r of
           [] \<Rightarrow> Inl Malformed
         | c # r' \<Rightarrow> if c = CHR '']'' then Inr (JOther, r')
             else if c = CHR '','' then scan_items n f (skip_ws r') else Inl Malformed))"

definition scan_array :: "(string \<Rightarrow> json scanned) \<Rightarrow> string \<Rightarrow> json scanned" where
  "scan_array f s = (if starts CHR '']'' (skip_ws s) then Inr (JOther, tl (skip_ws s))
     else scan_items (Suc (length s)) f (skip_ws s))"

fun scan_pairs :: "nat \<Rightarrow> (string \<Rightarrow> json scanned) \<Rightarrow> string \<Rightarrow> (nat list \<times> json) list scanned" where
  "scan_pairs 0 f s = Inl Malformed"
| "scan_pairs (Suc n) f s = (case scan_string s of
       None \<Rightarrow> Inl Malformed
     | Some (k, r) \<Rightarrow>
         if \<not> starts CHR '':'' (skip_ws r) then Inl Malformed
         else (case f (skip_ws (tl (skip_ws r))) of
             Inl e \<Rightarrow> Inl e
           | Inr (v, r1) \<Rightarrow> (case skip_ws r1 of
                 [] \<Rightarrow> Inl Malformed
               | c # r2 \<Rightarrow>
                   if c = CHR 0x7D then Inr ([(k, v)], r2)
                   else if c = CHR '','' \<and> starts CHR 0x22 (skip_ws r2) then
                     (case scan_pairs n f (tl (skip_ws r2)) of
                        Inl e \<Rightarrow> Inl e | Inr (kvs, r3) \<Rightarrow> Inr ((k, v) # kvs, r3))
                   else Inl Malformed)))"

definition scan_object :: "(string \<Rightarrow> json scanned) \<Rightarrow> string \<Rightarrow> json scanned" where
  "scan_object f s = (if starts CHR 0x7D (skip_ws s) then Inr (JObject [], tl (skip_ws s))
     else if starts CHR 0x22 (skip_ws s) then
       (case scan_pairs (Suc (length s)) f (tl (skip_ws s)) of
          Inl e \<Rightarrow> Inl e | Inr (kvs, r) \<Rightarrow> Inr (JObject kvs, r))
     else Inl Malformed)"

text \<open>\<open>scan_once\<close>, by the recursion that is left.\<close>

fun scan_once :: "nat \<Rightarrow> string \<Rightarrow> json scanned" where
  "scan_once lim [] = Inl Malformed"
| "scan_once lim (c # r) =
     (if c = CHR 0x22 then (case scan_string r of None \<Rightarrow> Inl Malformed | Some (ns, r') \<Rightarrow> Inr (JText ns, r'))
      else if c = CHR 0x7B then (case lim of 0 \<Rightarrow> Inl Too_Deep | Suc l \<Rightarrow> scan_object (scan_once l) r)
      else if c = CHR ''['' then (case lim of 0 \<Rightarrow> Inl Too_Deep | Suc l \<Rightarrow> scan_array (scan_once l) r)
      else (case scan_scalar (c # r) of None \<Rightarrow> Inl Malformed | Some r' \<Rightarrow> Inr (JOther, r')))"

definition json_loads :: "nat \<Rightarrow> string \<Rightarrow> json_error + json" where
  "json_loads lim s = (case scan_once lim (skip_ws s) of
       Inl e \<Rightarrow> Inl e
     | Inr (v, r) \<Rightarrow> if skip_ws r = [] then Inr v else Inl Malformed)"

text \<open>\<open>json.dumps\<close> of a string escapes everything but printable ASCII.\<close>

definition json_ascii_char :: "char \<Rightarrow> string" where
  "json_ascii_char c = (let n = ord_of c in
     if n = 34 \<or> n = 92 then [CHR 0x5C, c]
     else if n = 8 then [CHR 0x5C, CHR ''b''] else if n = 9 then [CHR 0x5C, CHR ''t'']
     else if n = 10 then [CHR 0x5C, CHR ''n''] else if n = 12 then [CHR 0x5C, CHR ''f'']
     else if n = 13 then [CHR 0x5C, CHR ''r'']
     else if 32 \<le> n \<and> n \<le> 126 then [c]
     else [CHR 0x5C, CHR ''u'', CHR ''0'', CHR ''0'', hexd (n div 16), hexd (n mod 16)])"

definition json_ascii :: "string \<Rightarrow> string" where
  "json_ascii s = CHR 0x22 # concat (map json_ascii_char s) @ [CHR 0x22]"

section \<open>Names and ids\<close>

definition encode_value_cursor :: "string \<times> uuid \<Rightarrow> string" where
  "encode_value_cursor k = (case k of (name, value_id) \<Rightarrow>
     b64_encode (utf8 (CHR 0x7B # json_ascii ''n'' @ '':'' @ json_ascii name @ '','' @ json_ascii ''i'' @ '':''
       @ json_ascii (str_uuid value_id) @ [CHR 0x7D])))"

text \<open>The last of the pairs with a key, as \<open>dict\<close> keeps it.\<close>

definition json_get :: "string \<Rightarrow> (nat list \<times> json) list \<Rightarrow> json option" where
  "json_get k kvs = map_of (rev kvs) (map ord_of k)"

definition latin_text :: "nat list \<Rightarrow> string option" where
  "latin_text ns = (if list_all (\<lambda>n. n < 256) ns then Some (map char_of ns) else None)"

definition parse_value_cursor :: "nat \<Rightarrow> string \<Rightarrow> json_error + string \<times> uuid" where
  "parse_value_cursor lim raw = (case b64_decode raw of None \<Rightarrow> Inl Malformed
     | Some bytes \<Rightarrow> (case utf8_decode bytes of None \<Rightarrow> Inl Malformed
         | Some decoded \<Rightarrow> (case json_loads lim decoded of
               Inl e \<Rightarrow> Inl e
             | Inr (JObject payload) \<Rightarrow> (case (json_get ''n'' payload, json_get ''i'' payload) of
                   (Some (JText n), Some (JText i)) \<Rightarrow> (case (latin_text n, map_option parse_uuid (latin_text i)) of
                       (Some name, Some (Some value_id)) \<Rightarrow> Inr (name, value_id)
                     | _ \<Rightarrow> Inl Malformed)
                 | _ \<Rightarrow> Inl Malformed)
             | Inr _ \<Rightarrow> Inl Malformed)))"

lemma json_examples:
  "json_loads 2 (''{'' @ CHR 0x22 # ''a'' @ CHR 0x22 # '' : [1, -2.5e3 ,true]}'') = Inr (JObject [([97], JOther)])"
  "json_loads 1 ''[[1]]'' = Inl Too_Deep" "json_loads 2 ''[[1]] '' = Inr JOther" "json_loads 2 ''[1,]'' = Inl Malformed"
  "json_loads 2 ''01'' = Inl Malformed"
  by (code_simp; fail)+

section \<open>What was encoded is read back\<close>

lemma json_hex_hexd: "n < 16 \<Longrightarrow> json_hex (hexd n) = Some n"
  by (auto simp: json_hex_def of_char_hexd Let_def)

lemma scan_json_char: "scan_char (json_ascii_char c @ r) = Some (Some (ord_of c), r)"
proof -
  have n: "ord_of c < (256 :: nat)" by (cases c) simp
  consider "ord_of c \<in> {34, 92, 8, 9, 10, 12, 13 :: nat}" | "ord_of c \<notin> {34, 92 :: nat}" "32 \<le> (ord_of c :: nat)" "ord_of c \<le> (126 :: nat)"
    | "ord_of c \<notin> {34, 92, 8, 9, 10, 12, 13 :: nat}" "ord_of c < (32 :: nat) \<or> (126 :: nat) < ord_of c"
    by (cases "32 \<le> (ord_of c :: nat) \<and> ord_of c \<le> (126 :: nat)") (fastforce, force)
  then show ?thesis
  proof cases
    case 1
    then have "c \<in> {CHR 0x22, CHR 0x5C, CHR 0x08, CHR 0x09, CHR 0x0A, CHR 0x0C, CHR 0x0D}"
      by (auto simp: of_char_eq_iff [symmetric, where 'a = nat] simp del: of_char_eq_iff)
    then show ?thesis by (auto simp: json_ascii_char_def scan_char_def backslash_def)
  next
    case 2
    then have "c \<noteq> CHR 0x22" "c \<noteq> CHR 0x5C" by auto
    with 2 show ?thesis by (simp add: json_ascii_char_def scan_char_def)
  next
    case 3
    have h: "ord_of c div 16 < (16 :: nat)" "ord_of c mod 16 < (16 :: nat)" using n by linarith+
    have "hex4 (CHR ''0'' # CHR ''0'' # hexd (ord_of c div 16) # hexd (ord_of c mod 16) # r) = Some (ord_of c, r)"
      using h by (simp add: hex4_def json_hex_hexd json_hex_def [of "CHR ''0''"])
    moreover have "\<not> 0xD800 \<le> (ord_of c :: nat)" using n by linarith
    ultimately show ?thesis using 3 by (auto simp: json_ascii_char_def scan_char_def Let_def)
  qed
qed

lemma scan_json_string: "scan_string (concat (map json_ascii_char s) @ CHR 0x22 # r) = Some (map ord_of s, r)"
proof (induction s)
  case Nil
  show ?case by (subst scan_string.simps) (simp add: scan_char_def)
next
  case (Cons c s)
  have "scan_string (json_ascii_char c @ concat (map json_ascii_char s) @ CHR 0x22 # r) = Some (map ord_of (c # s), r)"
    by (subst scan_string.simps) (simp add: scan_json_char Cons)
  then show ?case by simp
qed

lemma scan_json_ascii: "scan_string (tl (json_ascii s) @ r) = Some (map ord_of s, r)"
  "json_ascii s = CHR 0x22 # tl (json_ascii s)"
  using scan_json_string [of s r] by (simp_all add: json_ascii_def)

lemma skip_ws_stop: "c \<notin> {CHR '' '', CHR 0x09, CHR 0x0A, CHR 0x0D} \<Longrightarrow> skip_ws (c # s) = c # s" "skip_ws [] = []"
  by (simp_all add: skip_ws_def)

lemma latin_text_ords: "latin_text (map ord_of s) = Some s"
proof -
  have "ord_of c < (256 :: nat)" for c by (cases c) simp
  then show ?thesis by (simp add: latin_text_def list_all_iff comp_def)
qed

lemma json_ascii_quote: "\<exists>t. json_ascii s = CHR 0x22 # t"
  by (simp add: json_ascii_def)

lemma scan_json_text: "scan_once l (json_ascii s @ r) = Inr (JText (map ord_of s), r)"
  by (subst scan_json_ascii(2)) (simp add: scan_json_ascii(1))

lemma skip_ws_json: "skip_ws (json_ascii s @ r) = json_ascii s @ r"
  using json_ascii_quote [of s] by (auto simp: skip_ws_stop)

text \<open>A member of an object: key, colon, text.\<close>

lemma scan_json_pair:
  "scan_pairs (Suc n) (scan_once l) (tl (json_ascii k) @ CHR '':'' # json_ascii v @ CHR 0x7D # r)
    = Inr ([(map ord_of k, JText (map ord_of v))], r)"
  "scan_pairs (Suc n) (scan_once l) (tl (json_ascii k) @ CHR '':'' # json_ascii v @ CHR '','' # json_ascii k' @ r)
    = (case scan_pairs n (scan_once l) (tl (json_ascii k') @ r) of
         Inl e \<Rightarrow> Inl e | Inr (kvs, r') \<Rightarrow> Inr ((map ord_of k, JText (map ord_of v)) # kvs, r'))"
proof -
  have "starts CHR 0x22 (json_ascii k' @ r)" "tl (json_ascii k' @ r) = tl (json_ascii k') @ r"
    using json_ascii_quote [of k'] by auto
  then show "scan_pairs (Suc n) (scan_once l) (tl (json_ascii k) @ CHR '':'' # json_ascii v @ CHR '','' # json_ascii k' @ r)
    = (case scan_pairs n (scan_once l) (tl (json_ascii k') @ r) of
         Inl e \<Rightarrow> Inl e | Inr (kvs, r') \<Rightarrow> Inr ((map ord_of k, JText (map ord_of v)) # kvs, r'))"
    by (simp add: scan_json_ascii(1) skip_ws_stop(1) skip_ws_json scan_json_text)
qed (simp add: scan_json_ascii(1) skip_ws_stop(1) skip_ws_json scan_json_text)

lemma loads_two_texts:
  "json_loads (Suc lim) (CHR 0x7B # json_ascii k @ CHR '':'' # json_ascii v @ CHR '','' # json_ascii k' @ CHR '':''
      # json_ascii v' @ [CHR 0x7D])
    = Inr (JObject [(map ord_of k, JText (map ord_of v)), (map ord_of k', JText (map ord_of v'))])"
proof -
  let ?s = "json_ascii k @ CHR '':'' # json_ascii v @ CHR '','' # json_ascii k' @ CHR '':'' # json_ascii v' @ [CHR 0x7D]"
  obtain m where m: "Suc (length ?s) = Suc (Suc m)" by (metis length_append length_Cons add_Suc_right)
  have "\<not> starts CHR 0x7D ?s" "starts CHR 0x22 ?s"
      "tl ?s = tl (json_ascii k) @ CHR '':'' # json_ascii v @ CHR '','' # json_ascii k' @ CHR '':'' # json_ascii v' @ [CHR 0x7D]"
    using json_ascii_quote [of k] by auto
  then have "scan_object (scan_once lim) ?s
      = Inr (JObject [(map ord_of k, JText (map ord_of v)), (map ord_of k', JText (map ord_of v'))], [])"
    unfolding scan_object_def skip_ws_json m
    using scan_json_pair(2) [of "Suc m" lim k v k' "CHR '':'' # json_ascii v' @ [CHR 0x7D]"]
      scan_json_pair(1) [of m lim k' v' "[]"] by simp
  then show ?thesis by (simp add: json_loads_def skip_ws_stop)
qed

theorem value_cursor_roundtrip: "parse_value_cursor (Suc lim) (encode_value_cursor (name, i)) = Inr (name, i)"
  using loads_two_texts [of lim "''n''" name "''i''" "str_uuid i"]
  by (simp add: parse_value_cursor_def encode_value_cursor_def b64_roundtrip utf8_bytes utf8_decode_utf8 json_get_def
      latin_text_ords parse_str_uuid)

text \<open>C37: A cursor of any of the three kinds is read back as the position it was made from, and its text is
  carried by a query string as it is.\<close>

theorem page_cursors_roundtrip:
  assumes "representable t"
  shows "parse_user_cursor (encode_user_cursor (t, i)) = Some (t, i)
    \<and> parse_notification_cursor (encode_notification_cursor (t, i)) = Some (t, i)
    \<and> parse_value_cursor (Suc lim) (encode_value_cursor (name, i)) = Inr (name, i)
    \<and> list_all query_safe (encode_user_cursor (t, i) @ encode_notification_cursor (t, i) @ encode_value_cursor (name, i))"
proof -
  have "list_all query_safe (encode_user_cursor (t, i))" "list_all query_safe (encode_value_cursor (name, i))"
    by (simp_all add: encode_user_cursor_def encode_value_cursor_def b64_query_safe utf8_bytes)
  then show ?thesis by (simp add: user_cursor_roundtrip [OF assms] value_cursor_roundtrip same_cursors)
qed

theorem page_cursors_roundtrip_witness:
  "parse_user_cursor (encode_user_cursor (1767225600000000, 7)) = Some (1767225600000000, 7)
    \<and> parse_notification_cursor (encode_notification_cursor (1767225600000000, 7)) = Some (1767225600000000, 7)
    \<and> parse_value_cursor (Suc 900) (encode_value_cursor (''Oak, 2'', 7)) = Inr (''Oak, 2'', 7)
    \<and> list_all query_safe (encode_user_cursor (1767225600000000, 7)
        @ encode_notification_cursor (1767225600000000, 7) @ encode_value_cursor (''Oak, 2'', 7))"
  by (rule page_cursors_roundtrip) (simp add: representable_def day_range_def)

text \<open>A cursor of nothing but opening brackets runs into the recursion limit, whatever it is.\<close>

lemma brackets_too_deep: "scan_once lim (replicate (Suc lim) CHR ''['') = Inl Too_Deep"
proof (induction lim)
  case (Suc l)
  have "\<not> starts CHR '']'' (replicate (Suc l) CHR ''['')" "skip_ws (replicate (Suc l) CHR ''['') = replicate (Suc l) CHR ''[''"
    by (simp_all add: skip_ws_stop)
  then have "scan_array (scan_once l) (replicate (Suc l) CHR ''['') = Inl Too_Deep"
    unfolding scan_array_def by (simp add: Suc del: replicate.simps)
  then show ?case by simp
qed simp

lemma deep_cursor: "parse_value_cursor lim (b64_encode (utf8 (replicate (Suc lim) CHR ''[''))) = Inl Too_Deep"
proof -
  have "json_loads lim (replicate (Suc lim) CHR ''['') = Inl Too_Deep"
    using brackets_too_deep [of lim] by (simp add: json_loads_def skip_ws_stop)
  then show ?thesis
    by (simp add: parse_value_cursor_def b64_roundtrip utf8_bytes utf8_decode_utf8 del: replicate.simps)
qed

end
