(* ===== verification/Mfa_Routes.thy ===== *)
theory Mfa_Routes
  imports Api_Boundary Mfa_Commands User_Admin Page_Cursors
begin

text \<open>
  The routes of identity/api/mfa.py, the account routes of identity/api/admin_users.py under the
  administrator boundary of api/v1/admin.py, and \<open>GET /me\<close> of identity/api/profile.py.
\<close>

section \<open>Enrolment and recovery codes\<close>

definition invalid_mfa_error :: failure where
  "invalid_mfa_error = problem 401 ''MFA_INVALID'' ''Second factor rejected'' ''The code provided is not valid.''"

definition password_incorrect_error :: failure where
  "password_incorrect_error = problem 401 ''INVALID_CREDENTIALS'' ''Password incorrect''
     ''The current password is incorrect.''"

definition setup_failure :: "app_error \<Rightarrow> failure" where
  "setup_failure e = (case e of
       InvalidCredentialsError \<Rightarrow> password_incorrect_error
     | MfaAlreadyEnabledError \<Rightarrow> problem 409 ''INVALID_STATE_TRANSITION'' ''MFA is already enabled''
         ''MFA is already enabled for this account and cannot be re-enrolled.''
     | MfaNotEnrolledError \<Rightarrow> not_found_error
     | _ \<Rightarrow> Unhandled)"

definition setup_mfa_route ::
  "app \<Rightarrow> timestamp \<Rightarrow> string \<Rightarrow> bytes \<Rightarrow> request \<Rightarrow> string \<Rightarrow> mfa_setup_result route" where
  "setup_mfa_route A now secret nonce rq current_password =
     limited ''auth:mfa:setup'' 5 3600 now rq (\<lambda>hs.
     depends (\<lambda>w. require_admin_enrollment A now rq (w_db w)) (\<lambda>claims.
     valid_body (length current_password \<le> 256) (\<lambda>w.
     and_answer (settle (\<lambda>_. False) setup_failure
       (mfa_setup A secret nonce (ac_user_id claims) current_password (rq_request_id rq)
          (client_ip_hash (app_cfg A) rq)) w)
     (\<lambda>res w'. (\<lparr>an_status = 200, an_headers = hs, an_cookies = [], an_body = res\<rparr>, w')))))"

definition confirm_setup_failure :: "app_error \<Rightarrow> failure" where
  "confirm_setup_failure e =
     (if is_invalid_mfa_code e then problem 422 ''MFA_INVALID'' ''Second factor rejected''
        ''The code provided does not match the enrolled secret.''
      else case e of
        MfaAlreadyEnabledError \<Rightarrow> problem 409 ''INVALID_STATE_TRANSITION'' ''MFA is already enabled''
          ''MFA is already enabled for this account and cannot be re-confirmed.''
      | MfaNotEnrolledError \<Rightarrow> not_found_error
      | _ \<Rightarrow> Unhandled)"

definition completed_ttl :: "settings \<Rightarrow> int" where
  "completed_ttl cfg = refresh_token_days cfg * 24 * 60 * 60"

text \<open>The access token the route mints again: the same claims, now with the second factor.\<close>

definition confirm_mfa_setup_route ::
  "app \<Rightarrow> timestamp \<Rightarrow> nat list list \<Rightarrow> request \<Rightarrow> string \<Rightarrow> recovery_codes_result route" where
  "confirm_mfa_setup_route A now draws rq code =
     limited ''auth:mfa:confirm'' 10 3600 now rq (\<lambda>hs.
     depends (\<lambda>w. require_admin_enrollment A now rq (w_db w)) (\<lambda>claims.
     valid_body (6 \<le> length code \<and> length code \<le> 10) (\<lambda>w.
     and_answer (settle (\<lambda>_. False) confirm_setup_failure
       (mfa_confirm_setup A now draws (ac_user_id claims) code (rq_request_id rq)
          (client_ip_hash (app_cfg A) rq)) w)
     (\<lambda>res w'. (\<lparr>an_status = 200, an_headers = hs,
        an_cookies = set_access_cookie (app_cfg A)
          (issue_access_token (app_lib A) (app_cfg A) (claims\<lparr>ac_mfa_completed := True\<rparr>) now) [],
        an_body = res\<rparr>,
        w'\<lparr>w_redis := mark_completed now (ac_session_id claims) (completed_ttl (app_cfg A)) (w_redis w')\<rparr>)))))"

definition regenerate_failure :: "app_error \<Rightarrow> failure" where
  "regenerate_failure e = (case e of
       InvalidCredentialsError \<Rightarrow> password_incorrect_error
     | MfaNotEnrolledError \<Rightarrow> not_found_error
     | _ \<Rightarrow> Unhandled)"

definition regenerate_recovery_codes_route ::
  "app \<Rightarrow> timestamp \<Rightarrow> nat list list \<Rightarrow> request \<Rightarrow> string \<Rightarrow> recovery_codes_result route" where
  "regenerate_recovery_codes_route A now draws rq current_password =
     limited ''auth:mfa:recovery'' 5 3600 now rq (\<lambda>hs.
     depends (\<lambda>w. require_csrf A now rq (w_db w)) (\<lambda>_.
     depends (\<lambda>w. require_admin A now rq (w_db w)) (\<lambda>claims.
     valid_body (length current_password \<le> 256) (\<lambda>w.
     and_answer (settle (\<lambda>_. False) regenerate_failure
       (mfa_regenerate_recovery_codes A now draws (ac_user_id claims) current_password (rq_request_id rq)
          (client_ip_hash (app_cfg A) rq)) w)
     (\<lambda>res w'. (\<lparr>an_status = 200, an_headers = hs, an_cookies = [], an_body = res\<rparr>, w'))))))"

section \<open>Completing a login\<close>

record mfa_verify_request =
  vq_challenge_id :: string
  vq_code :: "string option"
  vq_recovery_code :: "string option"

definition exactly_one_factor :: "mfa_verify_request \<Rightarrow> bool" where
  "exactly_one_factor b = (\<not> ((vq_code b = None) = (vq_recovery_code b = None)))"

definition mfa_verify_request_ok :: "mfa_verify_request \<Rightarrow> bool" where
  "mfa_verify_request_ok b = (length (vq_challenge_id b) \<le> 128
     \<and> (case vq_code b of None \<Rightarrow> True | Some c \<Rightarrow> 6 \<le> length c \<and> length c \<le> 10)
     \<and> (case vq_recovery_code b of None \<Rightarrow> True | Some c \<Rightarrow> length c \<le> 64)
     \<and> exactly_one_factor b)"

definition challenge_expired_error :: failure where
  "challenge_expired_error = problem 410 ''RESOURCE_EXPIRED'' ''Challenge expired''
     ''This MFA challenge is no longer valid. Sign in again to obtain a new one.''"

definition verify_mfa_failure :: "app_error \<Rightarrow> failure" where
  "verify_mfa_failure e =
     (if is_invalid_mfa_code e then invalid_mfa_error
      else case e of
        InvalidRecoveryCodeError \<Rightarrow> invalid_mfa_error
      | MfaNotEnrolledError \<Rightarrow> invalid_mfa_error
      | InvalidCredentialsError \<Rightarrow> invalid_mfa_error
      | AccountDisabledError i \<Rightarrow> problem 403 ''ACCOUNT_DISABLED'' ''Account unavailable''
          ''This account can no longer be used to sign in.''
      | _ \<Rightarrow> Unhandled)"

definition verify_and_complete ::
  "app \<Rightarrow> timestamp \<Rightarrow> uuid \<Rightarrow> pending_challenge \<Rightarrow> mfa_verify_request \<Rightarrow> request \<Rightarrow> login_result cmd" where
  "verify_and_complete A now session_id pending b rq =
     andthen (mfa_verify A now (pc_user_id pending) (vq_code b) (vq_recovery_code b) (rq_request_id rq)
        (client_ip_hash (app_cfg A) rq)) (\<lambda>_.
     complete_mfa_login A now session_id (pc_user_id pending) (pc_epoch pending)
        (client_ip_hash (app_cfg A) rq) (user_agent rq) (rq_request_id rq))"

definition verify_mfa_handler ::
  "app \<Rightarrow> timestamp \<Rightarrow> uuid \<Rightarrow> request \<Rightarrow> mfa_verify_request \<Rightarrow> (string \<times> string) list \<Rightarrow> unit route" where
  "verify_mfa_handler A now session_id rq b hs w =
     (let pending = resolve_login_challenge now (vq_challenge_id b) (w_redis w);
          w1 = w\<lparr>w_redis := consume_login_challenge (vq_challenge_id b) (w_redis w)\<rparr>
      in case pending of
           None \<Rightarrow> (Inl challenge_expired_error, w1)
         | Some p \<Rightarrow>
             if get_auth_epoch (pc_user_id p) (w_db w1) \<noteq> Some (pc_epoch p) then (Inl challenge_expired_error, w1)
             else and_answer (settle (\<lambda>e. e = MfaCodeReplayedError) verify_mfa_failure
                 (verify_and_complete A now session_id p b rq) w1)
               (\<lambda>res w'. (\<lparr>an_status = 204, an_headers = hs,
                  an_cookies = set_session_cookies (app_cfg A) (lr_access_token res) (lr_refresh_token res)
                    (lr_csrf_token res) [], an_body = ()\<rparr>,
                  w'\<lparr>w_redis := mark_completed now (lr_session_id res) (completed_ttl (app_cfg A)) (w_redis w')\<rparr>)))"

definition verify_mfa_route ::
  "app \<Rightarrow> timestamp \<Rightarrow> uuid \<Rightarrow> request \<Rightarrow> mfa_verify_request \<Rightarrow> unit route" where
  "verify_mfa_route A now session_id rq b =
     limited ''auth:mfa:verify'' 10 900 now rq (\<lambda>hs.
     valid_body (mfa_verify_request_ok b) (verify_mfa_handler A now session_id rq b hs))"

section \<open>Accounts\<close>

record user_detail =
  ud_id :: uuid
  ud_email :: string
  ud_role :: user_role
  ud_is_active :: bool
  ud_email_verified_at :: "timestamp option"
  ud_created_at :: timestamp

definition admin_user_detail :: "user \<Rightarrow> user_detail" where
  "admin_user_detail u = \<lparr>ud_id = u_id u, ud_email = u_email u, ud_role = u_role u,
     ud_is_active = u_is_active u, ud_email_verified_at = u_email_verified_at u, ud_created_at = u_created_at u\<rparr>"

definition not_mutable_error :: "uuid \<Rightarrow> failure" where
  "not_mutable_error i = problem 409 ''INVALID_STATE_TRANSITION'' ''Account is anonymised or deleted''
     (''User '' @ str_uuid i @ '' has been anonymised or deleted and can no longer be activated or deactivated.'')"

definition update_user_failure :: "app_error \<Rightarrow> failure" where
  "update_user_failure e = (case e of AccountNotMutableError i \<Rightarrow> not_mutable_error i | _ \<Rightarrow> Unhandled)"

definition read_user_route :: "app \<Rightarrow> timestamp \<Rightarrow> request \<Rightarrow> uuid \<Rightarrow> user_detail route" where
  "read_user_route A now rq user_id =
     depends (\<lambda>w. require_admin A now rq (w_db w)) (\<lambda>claims w.
       (case user_by_id user_id (w_db w) of
          None \<Rightarrow> (Inl not_found_error, w)
        | Some u \<Rightarrow> (Inr \<lparr>an_status = 200, an_headers = [], an_cookies = [], an_body = admin_user_detail u\<rparr>, w)))"

definition update_user_route :: "app \<Rightarrow> timestamp \<Rightarrow> request \<Rightarrow> uuid \<Rightarrow> bool \<Rightarrow> user_detail route" where
  "update_user_route A now rq user_id is_active =
     depends (\<lambda>w. require_admin A now rq (w_db w)) (\<lambda>claims.
     depends (\<lambda>w. require_csrf A now rq (w_db w)) (\<lambda>_ w.
       (case settle (\<lambda>_. False) update_user_failure
          (set_user_active now user_id is_active (ac_user_id claims) (rq_request_id rq)
             (client_ip_hash (app_cfg A) rq)) w of
          (Inl f, w') \<Rightarrow> (Inl f, w')
        | (Inr None, w') \<Rightarrow> (Inl not_found_error, w')
        | (Inr (Some res), w') \<Rightarrow>
            (Inr \<lparr>an_status = 200, an_headers = [], an_cookies = [], an_body = admin_user_detail (sr_user res)\<rparr>, w'))))"

record admin_user_page =
  au_items :: "user_detail list"
  au_next_cursor :: "string option"

definition decode_user_cursor :: "string option \<Rightarrow> failure + (timestamp \<times> uuid) option" where
  "decode_user_cursor raw = (case raw of None \<Rightarrow> Inr None
     | Some r \<Rightarrow> (case parse_user_cursor r of None \<Rightarrow> Inl validation_error | Some k \<Rightarrow> Inr (Some k)))"

definition list_users :: "app \<Rightarrow> timestamp \<Rightarrow> request \<Rightarrow> string option \<Rightarrow> nat \<Rightarrow> bool option \<Rightarrow> bool option \<Rightarrow> string option
    \<Rightarrow> admin_user_page route" where
  "list_users A now rq cursor limit verified active search =
     depends (\<lambda>w. require_admin A now rq (w_db w)) (\<lambda>_.
     valid_body (1 \<le> limit \<and> limit \<le> 100 \<and> (case search of None \<Rightarrow> True | Some s \<Rightarrow> length s \<le> 254)) (\<lambda>w.
       (case decode_user_cursor cursor of
          Inl f \<Rightarrow> (Inl f, w)
        | Inr after \<Rightarrow>
            (case page_of limit (list_page verified active search (w_db w)) user_key after of
               (page, next) \<Rightarrow> (Inr \<lparr>an_status = 200, an_headers = [], an_cookies = [],
                  an_body = \<lparr>au_items = map admin_user_detail page,
                    au_next_cursor = map_option encode_user_cursor next\<rparr>\<rparr>, w)))))"

record user_profile =
  up_id :: uuid
  up_email :: string
  up_role :: user_role
  up_email_verified :: bool
  up_email_verified_at :: "timestamp option"
  up_created_at :: timestamp

definition read_profile_route :: "app \<Rightarrow> timestamp \<Rightarrow> request \<Rightarrow> user_profile route" where
  "read_profile_route A now rq =
     depends (\<lambda>w. current_user A now rq (w_db w)) (\<lambda>u w.
       (Inr \<lparr>an_status = 200, an_headers = [], an_cookies = [],
          an_body = \<lparr>up_id = u_id u, up_email = u_email u, up_role = u_role u, up_email_verified = is_verified u,
            up_email_verified_at = u_email_verified_at u, up_created_at = u_created_at u\<rparr>\<rparr>, w))"

section \<open>A challenge is good for one attempt\<close>

lemma completed_key_not_challenge [simp]: "completed_key i \<noteq> challenge_key c" "challenge_key c \<noteq> completed_key i"
  by (auto simp: completed_key_def challenge_key_def)

lemma verify_mfa_handler_redis:
  "r_get t (challenge_key (vq_challenge_id b)) (w_redis (snd (verify_mfa_handler A now sid rq b hs w))) = None"
proof -
  let ?w1 = "w\<lparr>w_redis := consume_login_challenge (vq_challenge_id b) (w_redis w)\<rparr>"
  have gone: "r_get t (challenge_key (vq_challenge_id b)) (consume_login_challenge (vq_challenge_id b) r) = None" for r
    by (simp add: r_get_def consume_login_challenge_def r_delete_def)
  have kept: "r_get t (challenge_key c) (mark_completed now i ttl r) = r_get t (challenge_key c) r" for c i ttl r
    by (simp add: r_get_def mark_completed_def r_set_def)
  show ?thesis
  proof (cases "resolve_login_challenge now (vq_challenge_id b) (w_redis w)")
    case None
    then show ?thesis by (simp add: verify_mfa_handler_def gone)
  next
    case (Some p)
    obtain out w2 where st: "settle (\<lambda>e. e = MfaCodeReplayedError) verify_mfa_failure
        (verify_and_complete A now sid p b rq) ?w1 = (out, w2)" by (rule prod.exhaust)
    have w2: "w_redis w2 = consume_login_challenge (vq_challenge_id b) (w_redis w)"
      using settle_redis [of "\<lambda>e. e = MfaCodeReplayedError" verify_mfa_failure
        "verify_and_complete A now sid p b rq" ?w1] st by simp
    show ?thesis
      using Some st w2 by (cases out) (simp_all add: verify_mfa_handler_def Let_def and_answer_def gone kept)
  qed
qed

text \<open>C18: a login challenge is good for one attempt: once the handler of \<open>/auth/mfa/verify\<close> has
  run for it, with whatever outcome, it never resolves again, and a second attempt gets
  "challenge expired" and changes no table.\<close>

theorem challenge_good_for_one_attempt:
  assumes "verify_mfa_handler A now sid rq b hs w = (out, w')"
    and "vq_challenge_id b2 = vq_challenge_id b"
  shows "resolve_login_challenge t (vq_challenge_id b) (w_redis w') = None
    \<and> fst (verify_mfa_handler A t sid2 rq2 b2 hs2 w') = Inl challenge_expired_error
    \<and> w_db (snd (verify_mfa_handler A t sid2 rq2 b2 hs2 w')) = w_db w'"
proof -
  have "resolve_login_challenge t (vq_challenge_id b) (w_redis w') = None"
    using verify_mfa_handler_redis [of t b A now sid rq hs w] assms(1)
    by (simp add: resolve_login_challenge_def)
  with assms(2) show ?thesis by (simp add: verify_mfa_handler_def Let_def)
qed

text \<open>Every way a second factor can be wrong - a code that matches nothing, a replayed code, an
  unknown or spent recovery code, a disabled factor, an account that is gone - gets the same
  answer from the route, and apart from the audit row of a replay the database keeps nothing of
  the attempt.\<close>

theorem second_factor_failures_alike:
  assumes "resolve_login_challenge now (vq_challenge_id b) (w_redis w) = Some p"
    and "get_auth_epoch (pc_user_id p) (w_db w) = Some (pc_epoch p)"
    and "verify_and_complete A now sid p b rq (w_db w) = (Inl e, db')"
    and "e \<in> {InvalidMfaCodeError, MfaCodeReplayedError, InvalidRecoveryCodeError, MfaNotEnrolledError,
           InvalidCredentialsError}"
  shows "fst (verify_mfa_handler A now sid rq b hs w) = Inl invalid_mfa_error
    \<and> (w_db (snd (verify_mfa_handler A now sid rq b hs w))
         = (if e = MfaCodeReplayedError then db' else (w_db w)\<lparr>gen_ctr := gen_ctr db'\<rparr>))"
  using assms
  by (auto simp: verify_mfa_handler_def Let_def settle_def in_transaction_def and_answer_def
      verify_mfa_failure_def is_invalid_mfa_code_def)

section \<open>The account list\<close>

interpretation user_texts: text_keyset user_key "\<lambda>k u. user_key u < k" "list_page verified active search"
    "matching_users verified active search" "\<lambda>db. wf_db db \<and> (\<forall>u \<in> set (users db). representable (u_created_at u))"
    encode_user_cursor parse_user_cursor
proof unfold_locales
  show "parse_user_cursor (encode_user_cursor (user_key r)) = Some (user_key r)"
    if "wf_db db \<and> (\<forall>u \<in> set (users db). representable (u_created_at u))" and "r \<in> set (matching_users verified active search db)"
    for db r
    using that user_cursor_roundtrip [of "u_created_at r" "u_id r"] by (simp add: matching_accounts(1) user_key_def)
qed (auto intro: user_list.first_page user_list.next_page user_list.in_order)

definition account_page_at :: "app \<Rightarrow> timestamp \<Rightarrow> request \<Rightarrow> nat \<Rightarrow> bool option \<Rightarrow> bool option \<Rightarrow> string option \<Rightarrow> world
    \<Rightarrow> string option \<Rightarrow> (user_detail list \<times> string option) option" where
  "account_page_at A now rq limit verified active search w cursor =
     (case fst (list_users A now rq cursor limit verified active search w) of
        Inl f \<Rightarrow> None | Inr a \<Rightarrow> Some (au_items (an_body a), au_next_cursor (an_body a)))"

lemma account_route_page:
  assumes "require_admin A now rq (w_db w) = Inr c" and "1 \<le> limit" and "limit \<le> 100"
    and "case search of None \<Rightarrow> True | Some s \<Rightarrow> length s \<le> 254" and "user_texts.reads t k"
  shows "account_page_at A now rq limit verified active search w t = Some (answered admin_user_detail encode_user_cursor
      (page_of limit (list_page verified active search (w_db w)) user_key k))"
proof -
  have "decode_user_cursor t = Inr k"
    using assms(5) by (cases t; cases k) (auto simp: user_texts.reads_def decode_user_cursor_def)
  with assms(1-4) show ?thesis
    by (simp add: account_page_at_def list_users_def depends_def valid_body_def answered_def split: prod.split)
qed

text \<open>An administrator who follows the cursors of the route sees every account that matches the
  filters, each exactly once, newest first, in pages of at most \<open>limit\<close>, and reaches the end.\<close>

theorem account_list_complete:
  assumes "wf_db (w_db w)" and "\<forall>u \<in> set (users (w_db w)). representable (u_created_at u)"
    and "require_admin A now rq (w_db w) = Inr c" and "1 \<le> limit" and "limit \<le> 100"
    and "case search of None \<Rightarrow> True | Some s \<Rightarrow> length s \<le> 254" and "length (users (w_db w)) < fuel * limit"
  shows "\<exists>pages. follow_route fuel (account_page_at A now rq limit verified active search w) None
      = Some (map (map admin_user_detail) pages)
    \<and> (\<forall>p \<in> set pages. length p \<le> limit) \<and> distinct (concat pages)
    \<and> set (concat pages) = {u \<in> set (users (w_db w)). matches_filters verified active search u}
    \<and> sorted_wrt (\<lambda>a b. user_key b < user_key a) (concat pages)"
proof -
  have few: "length (matching_users verified active search (w_db w)) < fuel * limit"
    using assms(7) matching_accounts(2) by (rule order.strict_trans1 [rotated])
  show ?thesis
    using assms(1,2,4)
    by (intro user_texts.route_complete [OF _ _ few matching_accounts(1) matching_accounts(3)]
        account_route_page [OF assms(3-6)]) auto
qed

end
