(* ===== verification/Settings_Store.thy ===== *)
theory Settings_Store
  imports Unit_Of_Work "HOL-Library.List_Lexorder"
begin

text \<open>
  The settings table and its use cases: \<open>SettingRepository\<close>
  (platform/infrastructure/repositories.py), the seed of the migration, the reader other contexts
  use (services/settings_reader.py) and the administrator's command
  (commands/update_setting.py).
\<close>

section \<open>Statements\<close>

definition setting_by_key :: "string \<Rightarrow> database \<Rightarrow> setting option" where
  "setting_by_key key db = row_by st_key key (setting_rows db)"

definition setting_by_id :: "uuid \<Rightarrow> database \<Rightarrow> setting option" where
  "setting_by_id i db = row_by st_id i (setting_rows db)"

text \<open>The dictionary of the rows with one of the given keys.\<close>

definition settings_get_many :: "string list \<Rightarrow> database \<Rightarrow> string \<rightharpoonup> setting" where
  "settings_get_many keys db k = (if k \<in> set keys then setting_by_key k db else None)"

definition setting_matches :: "string option \<Rightarrow> setting_type option \<Rightarrow> setting \<Rightarrow> bool" where
  "setting_matches prefix type s =
     ((case prefix of None \<Rightarrow> True | Some p \<Rightarrow> starts_with p (st_key s))
    \<and> (case type of None \<Rightarrow> True | Some t \<Rightarrow> st_type s = t))"

definition settings_list_page ::
  "collation \<Rightarrow> string option \<Rightarrow> setting_type option \<Rightarrow> database \<Rightarrow> nat \<Rightarrow> string option \<Rightarrow> setting list" where
  "settings_list_page coll prefix type db limit after_key =
     take limit (sort_key (\<lambda>s. coll (st_key s)) (filter
       (\<lambda>s. setting_matches prefix type s
          \<and> (case after_key of None \<Rightarrow> True | Some k \<Rightarrow> coll k < coll (st_key s))) (setting_rows db)))"

definition setting_stored :: "database \<Rightarrow> setting \<Rightarrow> setting \<Rightarrow> setting" where
  "setting_stored db s row = row\<lparr>st_value := st_value s, st_updated_by := st_updated_by s,
     st_updated_at := st_updated_at s\<rparr>"

definition updater_known :: "setting \<Rightarrow> database \<Rightarrow> bool" where
  "updater_known s db = (\<forall>i. st_updated_by s = Some i \<longrightarrow> user_by_id i db \<noteq> None)"

definition setting_save :: "setting \<Rightarrow> database \<Rightarrow> app_error + database" where
  "setting_save s db = (case setting_by_id (st_id s) db of
       None \<Rightarrow> Inl (Uncaught ValueError)
     | Some row \<Rightarrow>
         if (case st_updated_by s of None \<Rightarrow> False | Some i \<Rightarrow> user_by_id i db = None) then Inl IntegrityError
         else Inr (db\<lparr>setting_rows := put_row st_id (st_id s) (setting_stored db s) (setting_rows db)\<rparr>))"

lemma setting_stored_fields [simp]:
  "st_id (setting_stored db s row) = st_id row" "st_key (setting_stored db s row) = st_key row"
  "st_type (setting_stored db s row) = st_type row" "st_value (setting_stored db s row) = st_value s"
  by (simp_all add: setting_stored_def)

interpretation sts: row_store setting_by_id setting_save st_id setting_stored updater_known
  by unfold_locales
    (auto simp: setting_by_id_def setting_save_def updater_known_def row_simps split: option.splits if_splits)

section \<open>The seed\<close>

text \<open>\<open>INSERT ... ON CONFLICT (key) DO NOTHING\<close>, row by row.\<close>

fun seed_rows :: "(string \<times> setting_type \<times> pyval \<times> string) list \<Rightarrow> database \<Rightarrow> app_error + database" where
  "seed_rows [] db = Inr db"
| "seed_rows ((key, type, value, description) # seed) db =
     (if setting_by_key key db \<noteq> None then seed_rows seed db
      else if setting_by_id (next_uuid db) db \<noteq> None then Inl IntegrityError
      else seed_rows seed ((drawn db)\<lparr>setting_rows := setting_rows db @ [\<lparr>st_id = next_uuid db,
             st_key = key, st_type = type, st_value = value, st_description = Some description,
             st_updated_by = None, st_created_at = tx_now db, st_updated_at = tx_now db\<rparr>]\<rparr>))"

definition seed_settings :: "database \<Rightarrow> app_error + database" where
  "seed_settings db = seed_rows SEED db"

lemma seed_rows_known:
  "\<forall>s \<in> set seed. setting_by_key (fst s) db \<noteq> None \<Longrightarrow> seed_rows seed db = Inr db"
  by (induction seed db rule: seed_rows.induct) simp_all

lemma seed_rows_ok:
  assumes "seed_rows seed db = Inr db'" and "distinct (map st_id (setting_rows db))"
    and "distinct (map fst seed)" and "\<forall>s \<in> set seed. setting_by_key (fst s) db = None"
  shows "distinct (map st_id (setting_rows db'))
    \<and> map (\<lambda>r. (st_key r, st_type r, st_value r, the (st_description r))) (setting_rows db')
      = map (\<lambda>r. (st_key r, st_type r, st_value r, the (st_description r))) (setting_rows db) @ seed"
  using assms
proof (induction seed arbitrary: db)
  case (Cons s seed)
  obtain k t v d where s: "s = (k, t, v, d)" by (cases s) auto
  let ?row = "\<lparr>st_id = next_uuid db, st_key = k, st_type = t, st_value = v, st_description = Some d,
     st_updated_by = None, st_created_at = tx_now db, st_updated_at = tx_now db\<rparr>"
  let ?db = "(drawn db)\<lparr>setting_rows := setting_rows db @ [?row]\<rparr>"
  from Cons.prems(4) s have new: "setting_by_key k db = None" by simp
  have step: "seed_rows (s # seed) db = (if setting_by_id (next_uuid db) db \<noteq> None then Inl IntegrityError else seed_rows seed ?db)"
    unfolding s by (simp add: new)
  with Cons.prems(1) have fresh: "setting_by_id (next_uuid db) db = None" and go: "seed_rows seed ?db = Inr db'"
    by (metis sum.distinct(1))+
  have "setting_by_key (fst x) ?db = None" if "x \<in> set seed" for x
  proof -
    from that have "fst x \<in> set (map fst seed)" by simp
    with Cons.prems(3) s have "fst x \<noteq> k" by auto
    moreover from that Cons.prems(4) have "setting_by_key (fst x) db = None" by simp
    ultimately show ?thesis by (simp add: setting_by_key_def row_by_append)
  qed
  moreover have "distinct (map st_id (setting_rows ?db))"
    using fresh Cons.prems(2) by (simp add: setting_by_id_def row_by_None_iff)
  ultimately show ?case using Cons.IH [OF go] Cons.prems(3) s by simp
qed simp

text \<open>Upgrading an empty table seeds it, and upgrading again changes nothing: a value an
  administrator has set survives the replay.\<close>

theorem seed_once:
  "(setting_rows db = [] \<and> seed_settings db = Inr db' \<longrightarrow> seeded (setting_rows db') \<and> settings_valid (setting_rows db'))
   \<and> (settings_valid (setting_rows db) \<longrightarrow> seed_settings db = Inr db)"
proof -
  have keys: "map fst SEED = ALL_KEYS"
  proof -
    have "map fst SEED = map fst (map (\<lambda>(k, t, v, _). (k, t, v)) SEED)" by (simp add: comp_def case_prod_beta)
    also have "\<dots> = ALL_KEYS" unfolding seed_agrees_with_registry by (simp add: ALL_KEYS_def comp_def)
    finally show ?thesis .
  qed
  have "seeded (setting_rows db')" if "setting_rows db = []" "seed_settings db = Inr db'"
    using that seed_rows_ok [of SEED db db'] keys keys_distinct
    by (auto simp: seeded_def seed_settings_def setting_by_key_def)
  moreover have "seed_settings db = Inr db" if v: "settings_valid (setting_rows db)"
  proof -
    have "\<forall>s \<in> set SEED. setting_by_key (fst s) db \<noteq> None"
    proof
      fix s
      assume "s \<in> set SEED"
      then have "fst s \<in> set (map fst SEED)" by simp
      with v show "setting_by_key (fst s) db \<noteq> None"
        unfolding keys by (auto simp: settings_valid_def setting_by_key_def row_by_None_iff)
    qed
    then show ?thesis unfolding seed_settings_def by (rule seed_rows_known)
  qed
  ultimately show ?thesis using seeded_valid by blast
qed

section \<open>Reading from other contexts\<close>

definition platform :: "platform_error + 'a \<Rightarrow> 'a cmd" where
  "platform r = from_entity (map_sum Platform id r)"

text \<open>\<open>SettingsReader.get\<close>.\<close>

definition settings_get :: "string \<Rightarrow> pyval cmd" where
  "settings_get key =
     andthen (platform (definition_for key)) (\<lambda>d.
     andthen (query (setting_by_key key)) (\<lambda>found. case found of
       None \<Rightarrow> raise (Platform (SettingNotFoundError key))
     | Some s \<Rightarrow>
         if st_type s \<noteq> sd_type d
         then raise (Platform (SettingTypeMismatchError key (Declared (st_type s)) (Declared (sd_type d))))
         else platform (validate_value key (st_value s))))"

definition as_int :: "string \<Rightarrow> pyval \<Rightarrow> int cmd" where
  "as_int key value = (case value of PInt n \<Rightarrow> ret n
     | _ \<Rightarrow> raise (Platform (SettingTypeMismatchError key (Python_Type (py_type_name value)) (Python_Type ''int''))))"

definition get_duration_seconds :: "string \<Rightarrow> int cmd" where
  "get_duration_seconds key =
     andthen (platform (definition_for key)) (\<lambda>d.
       if sd_type d \<noteq> DURATION
       then raise (Platform (SettingTypeMismatchError key (Declared (sd_type d)) (Declared DURATION)))
       else andthen (settings_get key) (as_int key))"

definition get_int :: "string \<Rightarrow> int cmd" where
  "get_int key =
     andthen (platform (definition_for key)) (\<lambda>d.
       if sd_type d \<noteq> INTEGER
       then raise (Platform (SettingTypeMismatchError key (Declared (sd_type d)) (Declared INTEGER)))
       else andthen (settings_get key) (as_int key))"

definition get_bool :: "string \<Rightarrow> bool cmd" where
  "get_bool key =
     andthen (platform (definition_for key)) (\<lambda>d.
       if sd_type d \<noteq> BOOLEAN
       then raise (Platform (SettingTypeMismatchError key (Declared (sd_type d)) (Declared BOOLEAN)))
       else andthen (settings_get key) (\<lambda>value. case value of PBool b \<Rightarrow> ret b
         | _ \<Rightarrow> raise (Platform (SettingTypeMismatchError key (Python_Type (py_type_name value)) (Python_Type ''bool'')))))"

definition setting_updated_by :: "string \<Rightarrow> database \<Rightarrow> uuid option" where
  "setting_updated_by key db = (case setting_by_key key db of None \<Rightarrow> None | Some s \<Rightarrow> st_updated_by s)"

section \<open>Changing a setting\<close>

record update_setting_result =
  us_setting :: setting
  us_changed :: bool

definition setting_audit ::
  "string \<Rightarrow> pyval \<Rightarrow> setting \<Rightarrow> uuid \<Rightarrow> string option \<Rightarrow> string option \<Rightarrow> audit_args" where
  "setting_audit key before s actor request_id ip_hash =
     \<lparr>aa_actor_user_id = Some actor, aa_action = ''setting.updated'', aa_entity_type = ''Setting'',
      aa_entity_id = Some (st_id s),
      aa_before_data = Some [(''key'', PStr key), (''value'', before)],
      aa_after_data = Some [(''key'', PStr key), (''value'', st_value s)],
      aa_request_id = request_id, aa_ip_hash = ip_hash\<rparr>"

definition update_setting ::
  "timestamp \<Rightarrow> string \<Rightarrow> pyval \<Rightarrow> uuid \<Rightarrow> string option \<Rightarrow> string option \<Rightarrow> update_setting_result cmd" where
  "update_setting now key value actor_user_id request_id ip_hash =
     andthen (platform (definition_for key)) (\<lambda>_.
     andthen (query (setting_by_key key)) (\<lambda>found. case found of
       None \<Rightarrow> raise (Platform (SettingNotFoundError key))
     | Some s \<Rightarrow>
         andthen (platform (validate_value key value)) (\<lambda>validated.
         case change_value validated actor_user_id now s of (changed, s') \<Rightarrow>
           andthen (if changed then exec (setting_save s') else ret ()) (\<lambda>_.
           andthen (exec (audit_add (setting_audit key (st_value s) s' actor_user_id request_id ip_hash))) (\<lambda>_.
           ret \<lparr>us_setting = s', us_changed = changed\<rparr>)))))"

section \<open>What the reader and the command guarantee\<close>

lemma platform_Inr: "platform r db = (Inr a, db') \<longleftrightarrow> r = Inr a \<and> db' = db"
  by (cases r) (auto simp: platform_def from_entity_def)

lemma preserves_platform [keeps]: "preserves I (platform r)"
  by (simp add: platform_def keeps)

lemma setting_found: "setting_by_key key db = Some s \<Longrightarrow> s \<in> set (setting_rows db) \<and> st_key s = key"
  by (auto simp: setting_by_key_def dest: row_by_SomeD)

lemma wf_settings: "wf_db db \<Longrightarrow> settings_valid (setting_rows db)"
  by (simp add: wf_db_def wf_office_def)

lemma valid_setting:
  assumes "settings_valid (setting_rows db)" and "key \<in> set ALL_KEYS"
  obtains s d where "setting_by_key key db = Some s" and "st_key s = key" and "REGISTRY key = Some d"
    and "st_type s = sd_type d" and "satisfies d (st_value s)" and "validate_value key (st_value s) = Inr (st_value s)"
proof -
  from assms have "setting_by_key key db \<noteq> None"
    by (auto simp: settings_valid_def setting_by_key_def row_by_None_iff)
  then obtain s where s: "setting_by_key key db = Some s" by blast
  from setting_found [OF s] assms(1) have "row_valid s" "st_key s = key"
    by (auto simp: settings_valid_def list_all_iff)
  with s that show thesis
    by (auto simp: row_valid_def validate_value_iff satisfies_stored split: option.splits)
qed

lemma setting_by_own_id:
  "settings_valid (setting_rows db) \<Longrightarrow> s \<in> set (setting_rows db) \<Longrightarrow> setting_by_id (st_id s) db = Some s"
  by (auto simp: settings_valid_def setting_by_id_def intro: row_by_unique)

text \<open>On a valid table the reader returns the stored value of every registered key, whatever the
  declared type, and leaves the database as it is.\<close>

lemma settings_get_valid:
  assumes "wf_db db" and "key \<in> set ALL_KEYS"
  shows "\<exists>s d. setting_by_key key db = Some s \<and> REGISTRY key = Some d \<and> satisfies d (st_value s)
    \<and> settings_get key db = (Inr (st_value s), db)"
proof -
  obtain s d where "setting_by_key key db = Some s" "REGISTRY key = Some d" "st_type s = sd_type d"
    "satisfies d (st_value s)" "validate_value key (st_value s) = Inr (st_value s)"
    using valid_setting [OF wf_settings [OF assms(1)] assms(2)] by metis
  then show ?thesis
    by (auto simp: settings_get_def cmd_simps platform_def definition_for_def)
qed

text \<open>A duration read by a job is a whole number of seconds within the declared range.\<close>

theorem get_duration_in_range:
  assumes "wf_db db" and "REGISTRY key = Some d" and "sd_type d = DURATION" and "\<not> sd_nullable d"
  shows "\<exists>n. get_duration_seconds key db = (Inr n, db) \<and> in_range d n"
proof -
  from assms(2) have "key \<in> set ALL_KEYS" by (auto simp: registry_iff ALL_KEYS_def)
  from settings_get_valid [OF assms(1) this] assms(2) obtain s :: setting where
    "satisfies d (st_value s)" "settings_get key db = (Inr (st_value s), db)" by auto
  with assms(2-4) show ?thesis
    by (auto simp: satisfies_def get_duration_seconds_def as_int_def cmd_simps platform_def definition_for_def
        split: if_splits)
qed

lemma put_setting_valid:
  assumes "settings_valid rows" and "x \<in> set rows" and "st_id s = st_id x"
    and "REGISTRY (st_key x) = Some d" and "satisfies d (st_value s)"
  shows "settings_valid (put_row st_id (st_id s) (setting_stored db s) rows)"
proof -
  have same: "y = x" if "y \<in> set rows" "st_id y = st_id x" for y
    using assms(1,2) that by (auto simp: settings_valid_def distinct_map inj_on_def)
  have "row_valid r" if r: "r \<in> set (put_row st_id (st_id s) (setting_stored db s) rows)" for r
    using r
  proof (cases rule: set_put_rowE)
    case kept
    with assms(1) show ?thesis by (simp add: settings_valid_def list_all_iff)
  next
    case (changed y)
    with same assms(3) have "y = x" by simp
    moreover have "row_valid x" using assms(1,2) by (simp add: settings_valid_def list_all_iff)
    ultimately show ?thesis using changed assms(4,5) by (simp add: row_valid_def)
  qed
  with assms(1) show ?thesis
    by (simp add: settings_valid_def list_all_iff flip: set_map)
qed

lemma update_setting_success:
  assumes "update_setting now key v actor rid ih db = (Inr res, db')"
  obtains s w d1 where "setting_by_key key db = Some s" and "validate_value key v = Inr w"
    and "change_value w actor now s = (us_changed res, us_setting res)"
    and "if us_changed res then setting_save (us_setting res) db = Inr d1 else d1 = db"
    and "audit_add (setting_audit key (st_value s) (us_setting res) actor rid ih) d1 = Inr db'"
proof -
  from assms obtain s w where s: "setting_by_key key db = Some s" "validate_value key v = Inr w"
    and rest: "(case change_value w actor now s of (changed, s') \<Rightarrow>
           andthen (if changed then exec (setting_save s') else ret ()) (\<lambda>_.
           andthen (exec (audit_add (setting_audit key (st_value s) s' actor rid ih))) (\<lambda>_.
           ret \<lparr>us_setting = s', us_changed = changed\<rparr>))) db = (Inr res, db')"
    by (auto simp: update_setting_def andthen_Inr query_Inr platform_Inr split: option.splits)
  obtain c s' where cv: "change_value w actor now s = (c, s')" by (rule prod.exhaust)
  show thesis
  proof (cases c)
    case True
    with rest cv obtain d1 where "setting_save s' db = Inr d1"
      "audit_add (setting_audit key (st_value s) s' actor rid ih) d1 = Inr db'" "res = \<lparr>us_setting = s', us_changed = True\<rparr>"
      by (auto simp: succeeds)
    with s cv True show thesis by (intro that [of s w d1]) auto
  next
    case False
    with rest cv s show thesis by (intro that [of s w db]) (auto simp: succeeds)
  qed
qed

lemma setting_save_frame:
  assumes "setting_save s db = Inr db'"
  shows "db' = db\<lparr>setting_rows := put_row st_id (st_id s) (setting_stored db s) (setting_rows db)\<rparr>"
  using assms by (auto simp: setting_save_def split: option.splits if_splits)

lemma wf_db_settings:
  "wf_db db \<Longrightarrow> settings_valid rows \<Longrightarrow> wf_db (db\<lparr>setting_rows := rows\<rparr>)"
  by (simp add: wf_db_def wf_office_def)

lemma setting_key_unique:
  assumes "settings_valid (setting_rows db)" and "x \<in> set (setting_rows db)" and "y \<in> set (setting_rows db)"
  shows "st_id x = st_id y \<longleftrightarrow> st_key x = st_key y"
  using assms by (auto simp: settings_valid_def distinct_map inj_on_def)

text \<open>Saving the row that was read: the table then holds the entity, and nothing else has moved.\<close>

lemma setting_save_row:
  assumes "settings_valid (setting_rows db)" and "setting_by_key key db = Some s"
    and "change_value w actor now s = (True, s')" and "setting_save s' db = Inr d1"
  shows "setting_by_key key d1 = Some s'" and "k \<noteq> key \<Longrightarrow> setting_by_key k d1 = setting_by_key k db"
proof -
  note found = setting_found [OF assms(2)]
  have s': "s' = s\<lparr>st_value := w, st_updated_by := Some actor, st_updated_at := now\<rparr>"
    using assms(3) by (auto simp: change_value_def split: if_splits)
  have rows: "setting_rows d1 = put_row st_id (st_id s) (setting_stored db s') (setting_rows db)"
    by (simp add: setting_save_frame [OF assms(4)] s')
  have put: "put_row st_id (st_id s) f (setting_rows db) = put_row st_key key f (setting_rows db)" for f
    unfolding put_row_def using setting_key_unique [OF assms(1) _ conjunct1 [OF found]] found by auto
  have "setting_by_key k d1 = (if k = key then Some (setting_stored db s' s) else setting_by_key k db)" for k
    unfolding setting_by_key_def rows put
    using assms(2) by (auto simp: row_by_put_same row_by_put_other setting_by_key_def)
  moreover have "setting_stored db s' s = s'" by (simp add: setting_stored_def s')
  ultimately show "setting_by_key key d1 = Some s'" "k \<noteq> key \<Longrightarrow> setting_by_key k d1 = setting_by_key k db"
    by simp_all
qed

lemma audit_appends:
  assumes "audit_add a db = Inr db'"
  shows "\<exists>e. audit_logs db' = audit_logs db @ [e] \<and> al_actor_user_id e = aa_actor_user_id a
    \<and> al_action e = aa_action a \<and> al_entity_type e = aa_entity_type a \<and> al_entity_id e = aa_entity_id a
    \<and> al_before_data e = aa_before_data a \<and> al_after_data e = aa_after_data a" and "setting_rows db' = setting_rows db"
  using assms by (auto simp: audit_add_def split: if_splits)

definition only_settings :: "database \<Rightarrow> database \<Rightarrow> bool" where
  "only_settings db db' \<longleftrightarrow> users db' = users db \<and> sessions db' = sessions db \<and> categories db' = categories db
     \<and> materials db' = materials db \<and> colours db' = colours db \<and> notifications db' = notifications db
     \<and> email_outbox db' = email_outbox db"

lemma update_setting_view:
  assumes "wf_db db" and "update_setting now key v actor rid ih db = (Inr res, db')"
  obtains s s' w e where "setting_by_key key db = Some s" and "setting_by_key key db' = Some s'"
    and "validate_value key v = Inr w"
    and "s' = (if us_changed res then s\<lparr>st_value := w, st_updated_by := Some actor, st_updated_at := now\<rparr> else s)"
    and "us_changed res \<longleftrightarrow> \<not> (py_type_name (st_value s) = py_type_name w \<and> py_eq (st_value s) w)"
    and "\<forall>k. k \<noteq> key \<longrightarrow> setting_by_key k db' = setting_by_key k db"
    and "audit_logs db' = audit_logs db @ [e]" and "al_actor_user_id e = Some actor"
    and "al_action e = ''setting.updated''" and "al_entity_id e = Some (st_id s)"
    and "al_before_data e = Some [(''key'', PStr key), (''value'', st_value s)]"
    and "al_after_data e = Some [(''key'', PStr key), (''value'', st_value s')]"
    and "only_settings db db'" and "wf_db db'"
  using assms(2)
proof (rule update_setting_success)
  fix s w0 d1
  assume s: "setting_by_key key db = Some s" and w0: "validate_value key v = Inr w0"
    and cv: "change_value w0 actor now s = (us_changed res, us_setting res)"
    and sv: "if us_changed res then setting_save (us_setting res) db = Inr d1 else d1 = db"
    and au: "audit_add (setting_audit key (st_value s) (us_setting res) actor rid ih) d1 = Inr db'"
  note valid = wf_settings [OF assms(1)] and found = setting_found [OF s]
  from audit_appends(1) [OF au] obtain e where e: "audit_logs db' = audit_logs d1 @ [e]" "al_actor_user_id e = Some actor"
      "al_action e = ''setting.updated''" "al_entity_id e = Some (st_id s)"
      "al_before_data e = Some [(''key'', PStr key), (''value'', st_value s)]"
      "al_after_data e = Some [(''key'', PStr key), (''value'', st_value (us_setting res))]"
    using change_value_fields [OF cv] by (auto simp: setting_audit_def)
  have key: "setting_by_key k db' = setting_by_key k d1" for k
    by (simp add: setting_by_key_def audit_appends(2) [OF au])
  have d1: "setting_by_key key d1 = Some (us_setting res)" "\<And>k. k \<noteq> key \<Longrightarrow> setting_by_key k d1 = setting_by_key k db"
    using setting_save_row [OF valid s, of w0 actor now "us_setting res" d1] cv sv s
    by (auto simp: change_value_def split: if_splits)
  have frame: "only_settings db d1" "audit_logs d1 = audit_logs db"
    using sv by (auto simp: only_settings_def dest!: setting_save_frame split: if_splits)
  have "satisfies d w0" if "REGISTRY key = Some d" for d
    using w0 that by (auto simp: validate_value_iff)
  moreover obtain d where d: "REGISTRY key = Some d" using w0 by (auto simp: validate_value_iff)
  ultimately have sat: "satisfies d w0" by blast
  have "wf_db d1"
  proof (cases "us_changed res")
    case True
    with cv have s': "us_setting res = s\<lparr>st_value := w0, st_updated_by := Some actor, st_updated_at := now\<rparr>"
      by (auto simp: change_value_def split: if_splits)
    have "settings_valid (put_row st_id (st_id (us_setting res)) (setting_stored db (us_setting res)) (setting_rows db))"
      using put_setting_valid [OF valid conjunct1 [OF found], of "us_setting res" d db] d sat found by (simp add: s')
    with True sv wf_db_settings [OF assms(1)] show ?thesis by (auto dest!: setting_save_frame)
  next
    case False
    with sv assms(1) show ?thesis by simp
  qed
  with audit_keeps_wf [OF au] have "wf_db db'" by blast
  moreover have "only_settings db db'"
    using frame au by (auto simp: only_settings_def audit_add_def split: if_splits)
  moreover have "us_setting res = (if us_changed res then
        s\<lparr>st_value := w0, st_updated_by := Some actor, st_updated_at := now\<rparr> else s)"
    and "us_changed res \<longleftrightarrow> \<not> (py_type_name (st_value s) = py_type_name w0 \<and> py_eq (st_value s) w0)"
    using cv by (auto simp: change_value_def split: if_splits)
  ultimately show thesis
    using s w0 d1(1) e(2-6) by (intro that [of s "us_setting res" w0 e]) (simp_all add: key d1(2) e(1) frame(2))
qed

text \<open>A successful update replaces the value of its key by the validated one, moves nothing else but
  the audit log, and adds one audit row with the value it replaced and the value it left, also when
  both are the same.  A table that was valid stays valid.\<close>

theorem update_setting_audited:
  assumes "wf_db db" and "update_setting now key v actor rid ih db = (Inr res, db')"
  shows "\<exists>s s' w e. setting_by_key key db = Some s \<and> setting_by_key key db' = Some s'
    \<and> validate_value key v = Inr w
    \<and> s' = (if us_changed res then s\<lparr>st_value := w, st_updated_by := Some actor, st_updated_at := now\<rparr> else s)
    \<and> (us_changed res \<longleftrightarrow> \<not> (py_type_name (st_value s) = py_type_name w \<and> py_eq (st_value s) w))
    \<and> (\<forall>k. k \<noteq> key \<longrightarrow> setting_by_key k db' = setting_by_key k db)
    \<and> audit_logs db' = audit_logs db @ [e] \<and> al_actor_user_id e = Some actor
    \<and> al_before_data e = Some [(''key'', PStr key), (''value'', st_value s)]
    \<and> al_after_data e = Some [(''key'', PStr key), (''value'', st_value s')]
    \<and> only_settings db db' \<and> wf_db db'"
  by (rule update_setting_view [OF assms]) blast

text \<open>A valid value is not refused when the administrator exists.\<close>

lemma update_setting_succeeds:
  assumes "settings_valid (setting_rows db)" and "validate_value key v = Inr w" and "user_by_id actor db \<noteq> None"
    and "row_by al_id (next_uuid db) (audit_logs db) = None"
  shows "\<exists>res db'. update_setting now key v actor rid ih db = (Inr res, db')"
proof -
  from assms(2) obtain d where d: "REGISTRY key = Some d" by (auto simp: validate_value_iff)
  from valid_setting [OF assms(1) registered_key [OF d]] obtain s where s: "setting_by_key key db = Some s" by metis
  obtain changed s' where cv: "change_value w actor now s = (changed, s')" by (rule prod.exhaust)
  have "\<exists>d1. setting_save s' db = Inr d1 \<and> users d1 = users db \<and> audit_logs d1 = audit_logs db \<and> next_uuid d1 = next_uuid db"
    if "changed"
  proof -
    from cv that have "st_id s' = st_id s" "st_updated_by s' = Some actor" by (auto simp: change_value_def split: if_splits)
    with setting_by_own_id [OF assms(1)] setting_found [OF s] assms(3) show ?thesis
      by (auto simp: setting_save_def next_uuid_def)
  qed
  then obtain d1 where "if changed then setting_save s' db = Inr d1 else d1 = db"
    and "users d1 = users db \<and> audit_logs d1 = audit_logs db \<and> next_uuid d1 = next_uuid db" by (cases changed) auto
  with s d cv assms show ?thesis
    by (cases changed) (auto simp: update_setting_def cmd_simps platform_def definition_for_def audit_add_def
        setting_audit_def user_by_id_def)
qed

text \<open>Whatever its outcome, the command leaves a well-formed database.\<close>

lemma update_setting_fails:
  assumes "update_setting now key v actor rid ih db = (Inl e, db')"
  shows "db' = db \<or> (\<exists>s w s'. setting_by_key key db = Some s \<and> validate_value key v = Inr w
     \<and> change_value w actor now s = (True, s') \<and> setting_save s' db = Inr db')"
proof (cases "\<exists>s w. setting_by_key key db = Some s \<and> validate_value key v = Inr w")
  case True
  then obtain s w where "setting_by_key key db = Some s" "validate_value key v = Inr w" by blast
  moreover obtain c s' where "change_value w actor now s = (c, s')" by (rule prod.exhaust)
  ultimately show ?thesis
    using assms
    by (auto simp: update_setting_def cmd_simps platform_def validate_value_def split: sum.splits if_splits)
next
  case False
  with assms show ?thesis
    by (cases "validate_value key v"; cases "setting_by_key key db")
      (auto simp: update_setting_def cmd_simps platform_def split: sum.splits)
qed

lemma keeps_update_setting [keeps]: "preserves wf_db (update_setting now key v actor rid ih)"
  unfolding preserves_def
proof (intro allI impI)
  fix db
  assume wf: "wf_db db"
  obtain out db' where r: "update_setting now key v actor rid ih db = (out, db')" by (rule prod.exhaust)
  have "wf_db db'"
  proof (cases out)
    case (Inl e)
    from update_setting_fails [OF r [unfolded Inl]] show ?thesis
    proof (elim disjE exE conjE)
      fix s w s'
      assume a: "setting_by_key key db = Some s" "validate_value key v = Inr w"
        "change_value w actor now s = (True, s')" "setting_save s' db = Inr db'"
      then obtain d where "REGISTRY key = Some d" "satisfies d w" by (auto simp: validate_value_iff)
      with a setting_found [OF a(1)] have "settings_valid (put_row st_id (st_id s') (setting_stored db s') (setting_rows db))"
        by (intro put_setting_valid [OF wf_settings [OF wf], of s s' d]) (auto simp: change_value_def split: if_splits)
      with wf_db_settings [OF wf] show ?thesis by (simp add: setting_save_frame [OF a(4)])
    qed (use wf in simp)
  next
    case (Inr res)
    from update_setting_view [OF wf r [unfolded Inr]] show ?thesis by blast
  qed
  with r show "wf_db (snd (update_setting now key v actor rid ih db))" by simp
qed

section \<open>The history of a setting\<close>

text \<open>Administrators change one setting one after the other, each in a transaction of its own that
  begins at the given time.  The audit rows they add are read as pairs of the value replaced and the
  value left.\<close>

fun updates_in_turn ::
  "string \<Rightarrow> (timestamp \<times> pyval \<times> uuid) list \<Rightarrow> database \<Rightarrow> database option" where
  "updates_in_turn key [] db = Some db"
| "updates_in_turn key ((now, v, actor) # us) db =
     (case update_setting now key v actor None None (db\<lparr>tx_now := now\<rparr>) of
        (Inl e, _) \<Rightarrow> None
      | (Inr _, db') \<Rightarrow> updates_in_turn key us db')"

definition audited_value :: "(string \<times> pyval) list option \<Rightarrow> pyval option" where
  "audited_value d = (case d of None \<Rightarrow> None | Some e \<Rightarrow> map_of e ''value'')"

fun chained :: "'v \<Rightarrow> ('v \<times> 'v) list \<Rightarrow> 'v \<Rightarrow> bool" where
  "chained v [] w = (v = w)"
| "chained v ((before, after) # trail) w = (before = v \<and> chained after trail w)"

definition trail :: "audit_entry list \<Rightarrow> (pyval option \<times> pyval option) list" where
  "trail rows = map (\<lambda>a. (audited_value (al_before_data a), audited_value (al_after_data a))) rows"

definition value_of :: "string \<Rightarrow> database \<Rightarrow> pyval option" where
  "value_of key db = map_option st_value (setting_by_key key db)"

lemma setting_by_key_now [simp]: "setting_by_key key (db\<lparr>tx_now := t\<rparr>) = setting_by_key key db"
  by (simp add: setting_by_key_def)

text \<open>C22: Changes that follow each other are audited as one unbroken chain from the value before the
  first to the value after the last: no row claims to have replaced a value that was not there.\<close>

theorem setting_history_unbroken:
  assumes "wf_db db" and "updates_in_turn key us db = Some db'"
  shows "\<exists>rows. audit_logs db' = audit_logs db @ rows \<and> length rows = length us
    \<and> chained (value_of key db) (trail rows) (value_of key db')"
  using assms
proof (induction us arbitrary: db)
  case Nil
  then show ?case by (auto simp: trail_def)
next
  case (Cons u us)
  obtain now v actor where u: "u = (now, v, actor)" by (cases u) auto
  from Cons.prems(2) u obtain res d where
    up: "update_setting now key v actor None None (db\<lparr>tx_now := now\<rparr>) = (Inr res, d)"
    and rest: "updates_in_turn key us d = Some db'"
    by (auto split: prod.splits sum.splits)
  from Cons.prems(1) have "wf_db (db\<lparr>tx_now := now\<rparr>)" by simp
  from this up obtain s s' e where s: "setting_by_key key db = Some s" "setting_by_key key d = Some s'"
    and e: "audit_logs d = audit_logs db @ [e]"
      "al_before_data e = Some [(''key'', PStr key), (''value'', st_value s)]"
      "al_after_data e = Some [(''key'', PStr key), (''value'', st_value s')]" and wf: "wf_db d"
    by (rule update_setting_view) auto
  from Cons.IH [OF wf rest] obtain rows where rows: "audit_logs db' = audit_logs d @ rows" "length rows = length us"
    "chained (value_of key d) (trail rows) (value_of key db')" by blast
  have "chained (value_of key db) (trail (e # rows)) (value_of key db')"
    using rows(3) s e by (simp add: trail_def audited_value_def value_of_def)
  with rows e show ?case by (intro exI [of _ "e # rows"]) simp
qed

end
