(* ===== verification/Jobs.thy ===== *)
theory Jobs
  imports Account_View Settings_Store
begin

text \<open>
  The worker's jobs on these tables: jobs/outbox.py and jobs/purge_unverified.py.  The mail
  provider is a function that returns \<open>None\<close> or the text of the exception it raised; the
  clock readings of an iteration are its arguments, in the order the code takes them.
\<close>

section \<open>Dispatching mail\<close>

definition BATCH_SIZE :: nat where "BATCH_SIZE = 20"
definition RETRY_BASE_SECONDS :: int where "RETRY_BASE_SECONDS = 60"

record tick =
  tk_claim :: timestamp
  tk_retry :: timestamp
  tk_at :: timestamp

type_synonym provider = "timestamp \<Rightarrow> string \<Rightarrow> string \<Rightarrow> (string \<times> pyval) list \<Rightarrow> string option"

definition attempt_send :: "provider \<Rightarrow> tick \<Rightarrow> outbox_message \<Rightarrow> outbox_message" where
  "attempt_send send tk m =
     (case send (tk_claim tk) (ob_recipient_email m) (ob_template m) (ob_payload m) of
        Some err \<Rightarrow> ob_mark_failed err
          (tk_retry tk + seconds (RETRY_BASE_SECONDS * 2 ^ nat (ob_attempt_count m))) (tk_at tk) m
      | None \<Rightarrow> ob_mark_sent (tk_at tk) m)"

text \<open>One transaction per message; \<open>locked\<close> are the rows another worker holds.\<close>

fun dispatch_loop ::
  "provider \<Rightarrow> (uuid \<Rightarrow> bool) \<Rightarrow> tick list \<Rightarrow> nat \<Rightarrow> database \<Rightarrow> (app_error + nat) \<times> database" where
  "dispatch_loop send locked [] processed db = (Inr processed, db)"
| "dispatch_loop send locked (tk # tks) processed db =
     (case claim_due 1 (tk_claim tk) locked db of
        [] \<Rightarrow> (Inr processed, db)
      | m # _ \<Rightarrow> (case outbox_save (attempt_send send tk m) db of
            Inl e \<Rightarrow> (Inl e, db)
          | Inr db' \<Rightarrow> dispatch_loop send locked tks (Suc processed) db'))"

definition dispatch_outbox ::
  "provider \<Rightarrow> (uuid \<Rightarrow> bool) \<Rightarrow> tick list \<Rightarrow> database \<Rightarrow> (app_error + nat) \<times> database" where
  "dispatch_outbox send locked tks db = dispatch_loop send locked (take BATCH_SIZE tks) 0 db"

section \<open>Purging unverified accounts\<close>

text \<open>The job's transaction: the retention period is read from the settings, without a fallback,
  before the accounts are deleted.\<close>

definition purge_unverified_accounts :: "timestamp \<Rightarrow> nat cmd" where
  "purge_unverified_accounts now =
     andthen (get_duration_seconds ''unverified_account_purge_period'') (\<lambda>retention_seconds.
       bulk (purge_never_verified_before (now - seconds retention_seconds)))"

section \<open>The life of an outbox row\<close>

text \<open>A row that will not be sent again holds no secret; a pending row has attempts left.\<close>

definition ob_ok :: "outbox_message \<Rightarrow> bool" where
  "ob_ok m = ((ob_status m = SENT \<or> ob_status m = FAILED \<longrightarrow> redacted m)
     \<and> 0 \<le> ob_attempt_count m \<and> ob_attempt_count m \<le> MAX_OUTBOX_ATTEMPTS
     \<and> (ob_status m = PENDING \<longrightarrow> ob_attempt_count m < MAX_OUTBOX_ATTEMPTS)
     \<and> (ob_status m = FAILED \<longrightarrow> ob_attempt_count m = MAX_OUTBOX_ATTEMPTS))"

definition outbox_ok :: "database \<Rightarrow> bool" where
  "outbox_ok db = (distinct (map ob_id (email_outbox db)) \<and> (\<forall>m \<in> set (email_outbox db). ob_ok m))"

lemma claimed:
  assumes "claim_due n now locked db = m # rest"
  shows "m \<in> set (email_outbox db)" and "due now m" and "\<not> locked (ob_id m)"
proof -
  have "m \<in> set (take n (sort_key ob_send_after (filter (\<lambda>m. due now m \<and> \<not> locked (ob_id m)) (email_outbox db))))"
    using assms by (simp add: claim_due_def)
  then have "m \<in> set (filter (\<lambda>m. due now m \<and> \<not> locked (ob_id m)) (email_outbox db))"
    by (metis in_set_takeD set_sort)
  then show "m \<in> set (email_outbox db)" "due now m" "\<not> locked (ob_id m)" by auto
qed

lemma attempt_send_id [simp]: "ob_id (attempt_send send tk m) = ob_id m"
  by (simp add: attempt_send_def split: option.split)

lemma redacted_stored: "redacted (ob_stored db m row) = redacted m"
  by (simp add: redacted_def)

lemma ob_ok_stored: "ob_ok (ob_stored db m row) = ob_ok m"
  by (simp add: ob_ok_def redacted_stored)

lemma attempt_send_ok:
  assumes "ob_ok m" and "due now m"
  shows "ob_ok (attempt_send send tk m)"
  using assms
  by (auto simp: attempt_send_def ob_ok_def due_def ob_mark_sent_def ob_mark_failed_def Let_def
      MAX_OUTBOX_ATTEMPTS_def redact_payload_def redacted_def split: option.splits)

lemma outbox_saved:
  assumes "outbox_save m db = Inr db'"
  shows "email_outbox db' = put_row ob_id (ob_id m) (ob_stored db m) (email_outbox db)"
  using assms by (auto simp: outbox_save_def split: option.splits if_splits)

lemma outbox_save_ok:
  assumes "outbox_ok db" and "outbox_save m db = Inr db'" and "ob_ok m"
  shows "outbox_ok db'"
  using assms(1,3)
  by (auto simp: outbox_ok_def outbox_saved [OF assms(2)] ob_ok_stored elim!: set_put_rowE)

lemma outbox_save_succeeds:
  assumes "m0 \<in> set (email_outbox db)" and "ob_id m = ob_id m0" and "ob_ok m"
  shows "\<exists>db'. outbox_save m db = Inr db'"
proof -
  have "ob_by_id (ob_id m) db \<noteq> None"
    using assms(1,2) by (auto simp: ob_by_id_def row_by_None_iff)
  then show ?thesis using assms(3) by (auto simp: outbox_save_def ob_ok_def)
qed

lemma dispatch_loop_ok:
  "outbox_ok db \<Longrightarrow> \<exists>n db'. dispatch_loop send locked tks k db = (Inr (k + n), db') \<and> n \<le> length tks
     \<and> outbox_ok db' \<and> map ob_id (email_outbox db') = map ob_id (email_outbox db)"
proof (induction tks arbitrary: k db)
  case (Cons tk tks)
  show ?case
  proof (cases "claim_due 1 (tk_claim tk) locked db")
    case Nil
    with Cons.prems show ?thesis by (intro exI [of _ 0]) simp
  next
    case (Cons m ms)
    note c = claimed [OF Cons]
    have ok: "ob_ok (attempt_send send tk m)"
      using c Cons.prems by (intro attempt_send_ok [OF _ c(2)]) (simp add: outbox_ok_def)
    from outbox_save_succeeds [OF c(1) _ ok] obtain d where d: "outbox_save (attempt_send send tk m) db = Inr d"
      by auto
    from Cons.IH [OF outbox_save_ok [OF Cons.prems d ok], of "Suc k"] obtain n db' where
      "dispatch_loop send locked tks (Suc k) d = (Inr (Suc k + n), db')" "n \<le> length tks" "outbox_ok db'"
      "map ob_id (email_outbox db') = map ob_id (email_outbox d)" by blast
    with Cons d outbox_saved [OF d] show ?thesis by (intro exI [of _ "Suc n"]) simp
  qed
qed (auto intro: exI [of _ 0])

text \<open>C33: a run of the job never fails on a well-formed outbox, handles at most 20 messages, loses
  none, and leaves every row either pending with attempts left or finished: a message that was
  sent or given up, after its fifth attempt, carries no token any more.\<close>

theorem dispatch_keeps_outbox_ok:
  assumes "outbox_ok db"
  shows "\<exists>n db'. dispatch_outbox send locked tks db = (Inr n, db') \<and> n \<le> 20 \<and> outbox_ok db'
    \<and> map ob_id (email_outbox db') = map ob_id (email_outbox db)"
  using dispatch_loop_ok [OF assms, of send locked "take BATCH_SIZE tks" 0]
  by (auto simp: dispatch_outbox_def BATCH_SIZE_def)

section \<open>Progress\<close>

definition waiting :: "timestamp \<Rightarrow> (uuid \<Rightarrow> bool) \<Rightarrow> database \<Rightarrow> nat" where
  "waiting now locked db = count_where (\<lambda>m. due now m \<and> \<not> locked (ob_id m)) (email_outbox db)"

lemma sort_key_Nil_iff: "sort_key f xs = [] \<longleftrightarrow> xs = []"
  by (metis length_0_conv length_sort)

lemma claim_due_none: "claim_due 1 now locked db = [] \<longleftrightarrow> waiting now locked db = 0"
  by (simp add: claim_due_def waiting_def count_where_def sort_key_Nil_iff)

lemma not_due_after:
  assumes "now < tk_retry tk + seconds 60"
  shows "\<not> due now (attempt_send send tk m)"
proof -
  have "(1::int) \<le> 2 ^ nat (ob_attempt_count m)" by simp
  then have "seconds 60 \<le> seconds (60 * 2 ^ nat (ob_attempt_count m))" by simp
  with assms have "\<not> tk_retry tk + seconds (60 * 2 ^ nat (ob_attempt_count m)) \<le> now" by linarith
  then show ?thesis
    by (auto simp: attempt_send_def due_def ob_mark_sent_def ob_mark_failed_def redact_payload_def Let_def
        RETRY_BASE_SECONDS_def split: option.splits)
qed

lemma dispatch_loop_progress:
  assumes "outbox_ok db" and "\<forall>tk \<in> set tks. tk_claim tk = now \<and> now < tk_retry tk + seconds 60"
  shows "\<exists>db'. dispatch_loop send locked tks k db = (Inr (k + min (length tks) (waiting now locked db)), db')
    \<and> waiting now locked db' = waiting now locked db - length tks"
  using assms
proof (induction tks arbitrary: k db)
  case (Cons tk tks)
  have now: "tk_claim tk = now" and late: "now < tk_retry tk + seconds 60" using Cons.prems(2) by auto
  show ?case
  proof (cases "claim_due 1 now locked db")
    case Nil
    with claim_due_none [of now locked db] now show ?thesis by simp
  next
    case (Cons m ms)
    note c = claimed [OF Cons]
    have okm: "ob_ok m" using c Cons.prems(1) by (simp add: outbox_ok_def)
    have ok: "ob_ok (attempt_send send tk m)" by (rule attempt_send_ok [OF okm c(2)])
    from outbox_save_succeeds [OF c(1) _ ok] obtain d where d: "outbox_save (attempt_send send tk m) db = Inr d"
      by auto
    have stays: "\<not> (due now (ob_stored db (attempt_send send tk m) m) \<and> \<not> locked (ob_id (ob_stored db (attempt_send send tk m) m)))"
      using not_due_after [OF late, of send m] by (auto simp: due_def)
    have "distinct (map ob_id (email_outbox db))" using Cons.prems(1) by (simp add: outbox_ok_def)
    from count_where_put_one [OF this c(1), of "\<lambda>m. due now m \<and> \<not> locked (ob_id m)"
        "ob_stored db (attempt_send send tk m)"] c(2,3) stays
    have w: "Suc (waiting now locked d) = waiting now locked db"
      by (simp add: waiting_def outbox_saved [OF d])
    from Cons.IH [OF outbox_save_ok [OF Cons.prems(1) d ok], of "Suc k"] Cons.prems(2) obtain db' where
      "dispatch_loop send locked tks (Suc k) d = (Inr (Suc k + min (length tks) (waiting now locked d)), db')"
      "waiting now locked db' = waiting now locked d - length tks" by auto
    with Cons d now w show ?thesis by (intro exI [of _ db']) auto
  qed
qed simp


section \<open>What the purge removes\<close>

lemma purge_effect:
  assumes "wf_db db" and "purge_never_verified_before cutoff db = (n, db')"
  shows "(\<forall>i. account_of i db' = (case user_by_id i db of None \<Rightarrow> None
        | Some u \<Rightarrow> if u_email_verified_at u = None \<and> u_created_at u < cutoff then None else account_of i db))
    \<and> n + length (users db') = length (users db)
    \<and> (\<forall>s \<in> set (sessions db'). user_by_id (s_user_id s) db' \<noteq> None)
    \<and> map al_id (audit_logs db') = map al_id (audit_logs db) \<and> map ob_id (email_outbox db') = map ob_id (email_outbox db)"
proof -
  let ?P = "purgeable cutoff"
  from assms(2) have us: "users db' = filter (\<lambda>u. \<not> ?P u) (users db)"
    and se: "sessions db' = filter (\<lambda>s. s_user_id s \<notin> u_id ` {u \<in> set (users db). ?P u}) (sessions db)"
    and rt: "reset_tokens db' = filter (\<lambda>t. rt_user_id t \<notin> u_id ` {u \<in> set (users db). ?P u}) (reset_tokens db)"
    and n: "n = length (filter ?P (users db))"
    and rest: "map al_id (audit_logs db') = map al_id (audit_logs db)" "map ob_id (email_outbox db') = map ob_id (email_outbox db)"
    by (auto simp: purge_never_verified_before_def Let_def o_def)
  have one: "u = v" if "u \<in> set (users db)" "v \<in> set (users db)" "u_id u = u_id v" for u v
    using assms(1) that by (simp add: wf_db_def distinct_map inj_on_def)
  define dead where "dead = u_id ` {u \<in> set (users db). ?P u}"
  have acc: "account_of i db' = (case user_by_id i db of None \<Rightarrow> None
        | Some u \<Rightarrow> if ?P u then None else account_of i db)" for i
  proof (cases "user_by_id i db")
    case None
    then have "user_by_id i db' = None" by (auto simp: user_by_id_def us row_by_None_iff)
    with None show ?thesis by (simp add: account_of_def)
  next
    case (Some u)
    note f = user_found [OF Some]
    show ?thesis
    proof (cases "?P u")
      case True
      then have "user_by_id i db' = None"
        using f one by (auto simp: user_by_id_def us row_by_None_iff)
      with Some True show ?thesis by (simp add: account_of_def)
    next
      case False
      have notgone: "i \<notin> dead" using f one False by (auto simp: dead_def)
      have "distinct (map u_id (users db'))" using assms(1) by (simp add: us wf_db_def distinct_map_filter_rows)
      then have "user_by_id i db' = Some u" using f False by (auto simp: user_by_id_def us intro: row_by_unique)
      moreover have "filter (live_of i) (sessions db') = filter (live_of i) (sessions db)"
        unfolding se dead_def [symmetric] using notgone by (auto simp: live_of_def intro!: filter_cong)
      moreover have "filter (outstanding_of i) (reset_tokens db') = filter (outstanding_of i) (reset_tokens db)"
        unfolding rt dead_def [symmetric] using notgone by (auto simp: outstanding_of_def intro!: filter_cong)
      ultimately show ?thesis
        using Some False by (simp add: account_of_def live_sessions_def open_resets_def)
    qed
  qed
  have sess: "user_by_id (s_user_id s) db' \<noteq> None" if "s \<in> set (sessions db')" for s
  proof -
    from that have "s \<in> set (sessions db)" and g: "s_user_id s \<notin> u_id ` {u \<in> set (users db). ?P u}" by (auto simp: se)
    with assms(1) obtain u where u: "u \<in> set (users db)" "s_user_id s = u_id u" by (fastforce simp: wf_db_def)
    with g have "\<not> ?P u" by auto
    with u show ?thesis by (auto simp: user_by_id_def us row_by_None_iff)
  qed
  have "n + length (users db') = length (users db)"
    using sum_length_filter_compl [of ?P "users db"] by (simp add: n us)
  with acc [unfolded purgeable_def] sess rest show ?thesis by simp
qed

lemma purge_period_definition: "REGISTRY ''unverified_account_purge_period'' = Some unverified_account_purge_period_definition"
  by (simp add: registry_iff DEFINITIONS_def setting_definitions)

text \<open>C35: on a well-formed database the purge never fails.  It takes the retention period from the
  settings, where it is between 7 and 90 days; it deletes exactly the accounts that were never
  verified and are older than that, with their sessions, and reports their number; it changes no other
  account, and keeps every audit row and every mail.\<close>

theorem purge_exact:
  assumes "wf_db db"
  shows "\<exists>retention n db'. value_of ''unverified_account_purge_period'' db = Some (PInt retention)
    \<and> 7 * 86400 \<le> retention \<and> retention \<le> 90 * 86400
    \<and> purge_unverified_accounts now db = (Inr n, db')
    \<and> (\<forall>i. account_of i db' = (case user_by_id i db of None \<Rightarrow> None
        | Some u \<Rightarrow> if u_email_verified_at u = None \<and> u_created_at u < now - seconds retention then None
                   else account_of i db))
    \<and> n + length (users db') = length (users db)
    \<and> (\<forall>s \<in> set (sessions db'). user_by_id (s_user_id s) db' \<noteq> None)
    \<and> map al_id (audit_logs db') = map al_id (audit_logs db) \<and> map ob_id (email_outbox db') = map ob_id (email_outbox db)"
proof -
  have key: "''unverified_account_purge_period'' \<in> set ALL_KEYS"
    by (rule registered_key [OF purge_period_definition])
  from settings_get_valid [OF assms key] purge_period_definition obtain s :: setting where
    s: "setting_by_key ''unverified_account_purge_period'' db = Some s"
      "satisfies unverified_account_purge_period_definition (st_value s)"
      "settings_get ''unverified_account_purge_period'' db = (Inr (st_value s), db)" by auto
  from s(2) obtain r where r: "st_value s = PInt r" "7 * 86400 \<le> r" "r \<le> 90 * 86400"
    by (auto simp: satisfies_def in_range_def setting_definitions split: if_splits)
  have read: "get_duration_seconds ''unverified_account_purge_period'' db = (Inr r, db)"
    using s(3) r(1) purge_period_definition
    by (simp add: get_duration_seconds_def as_int_def cmd_simps platform_def definition_for_def setting_definitions)
  obtain n db' where p: "purge_never_verified_before (now - seconds r) db = (n, db')" by (rule prod.exhaust)
  then have "purge_unverified_accounts now db = (Inr n, db')"
    by (simp add: purge_unverified_accounts_def andthen_def read bulk_def)
  with purge_effect [OF assms p] s(1) r show ?thesis
    by (intro exI [of _ r] exI [of _ n] exI [of _ db']) (simp add: value_of_def)
qed

end
