(* ===== verification/Catalogue_Store.thy ===== *)
theory Catalogue_Store
  imports Unit_Of_Work Keyset_Paging "HOL-Library.List_Lexorder"
begin

text \<open>
  The catalogue tables: \<open>CategoryRepository\<close>, \<open>MaterialRepository\<close> and \<open>ColourRepository\<close>
  (catalog/infrastructure/repositories.py and models.py).  The partial unique index
  \<open>ix_categories_live_slug\<close> is part of the two statements that write a category: a violation is
  translated to \<open>SlugConflictError\<close>.
\<close>

section \<open>Lists\<close>

text \<open>\<open>ORDER BY name, id\<close> and the row-value comparison with a cursor.\<close>

definition value_key :: "collation \<Rightarrow> 'a reference_value_scheme \<Rightarrow> nat list \<times> uuid" where
  "value_key coll v = (coll (rv_name v), rv_id v)"

definition public_rows :: "collation \<Rightarrow> nat \<Rightarrow> 'a reference_value_scheme list \<Rightarrow> 'a reference_value_scheme list" where
  "public_rows coll limit rows = take limit (sort_key (value_key coll)
     (filter (\<lambda>v. rv_deleted_at v = None \<and> rv_is_active v) rows))"

definition listed :: "bool \<Rightarrow> 'a reference_value_scheme \<Rightarrow> bool" where
  "listed include_deleted v = (include_deleted \<or> rv_deleted_at v = None)"

definition page_rows :: "collation \<Rightarrow> bool \<Rightarrow> 'a reference_value_scheme list \<Rightarrow> nat \<Rightarrow> (string \<times> uuid) option
    \<Rightarrow> 'a reference_value_scheme list" where
  "page_rows coll include_deleted rows limit after = take limit (sort_key (value_key coll)
     (filter (\<lambda>v. listed include_deleted v
        \<and> (case after of None \<Rightarrow> True | Some (n, i) \<Rightarrow> (coll n, i) < value_key coll v)) rows))"

section \<open>Categories\<close>

definition category_by_id :: "uuid \<Rightarrow> database \<Rightarrow> category option" where
  "category_by_id i db = row_by rv_id i (categories db)"

definition slug_taken :: "string \<Rightarrow> category list \<Rightarrow> bool" where
  "slug_taken slug cs = (\<exists>c \<in> set (live_categories cs). cat_slug c = slug)"

definition category_add :: "string \<Rightarrow> string \<Rightarrow> bool \<Rightarrow> database \<Rightarrow> app_error + category \<times> database" where
  "category_add name slug is_active db =
     (if category_by_id (next_uuid db) db \<noteq> None then Inl IntegrityError
      else if slug_taken slug (categories db) then Inl (Catalog (SlugConflictError slug))
      else let c = \<lparr>rv_id = next_uuid db, rv_name = name, rv_is_active = is_active, rv_deleted_at = None,
             rv_created_at = tx_now db, rv_updated_at = tx_now db, cat_slug = slug\<rparr>
           in Inr (c, (drawn db)\<lparr>categories := categories db @ [c]\<rparr>))"

definition category_stored :: "database \<Rightarrow> category \<Rightarrow> category \<Rightarrow> category" where
  "category_stored db c row = row\<lparr>rv_name := rv_name c, cat_slug := cat_slug c, rv_is_active := rv_is_active c,
     rv_deleted_at := rv_deleted_at c, rv_updated_at := rv_updated_at c\<rparr>"

text \<open>The written row enters the index when it is live; the index then holds the other live rows.\<close>

definition slug_free :: "category \<Rightarrow> database \<Rightarrow> bool" where
  "slug_free c db = (rv_deleted_at c \<noteq> None
     \<or> \<not> slug_taken (cat_slug c) (filter (\<lambda>r. rv_id r \<noteq> rv_id c) (categories db)))"

definition category_save :: "category \<Rightarrow> database \<Rightarrow> app_error + database" where
  "category_save c db = (case category_by_id (rv_id c) db of
       None \<Rightarrow> Inl (Uncaught ValueError)
     | Some row \<Rightarrow> if \<not> slug_free c db then Inl (Catalog (SlugConflictError (cat_slug c)))
         else Inr (db\<lparr>categories := put_row rv_id (rv_id c) (category_stored db c) (categories db)\<rparr>))"

definition category_list_public :: "collation \<Rightarrow> nat \<Rightarrow> database \<Rightarrow> category list" where
  "category_list_public coll limit db = public_rows coll limit (categories db)"

definition category_list_page :: "collation \<Rightarrow> bool \<Rightarrow> database \<Rightarrow> nat \<Rightarrow> (string \<times> uuid) option \<Rightarrow> category list" where
  "category_list_page coll include_deleted db limit after = page_rows coll include_deleted (categories db) limit after"

lemma category_stored_fields [simp]:
  "rv_id (category_stored db c row) = rv_id row" "rv_name (category_stored db c row) = rv_name c"
  "cat_slug (category_stored db c row) = cat_slug c" "rv_is_active (category_stored db c row) = rv_is_active c"
  "rv_deleted_at (category_stored db c row) = rv_deleted_at c"
  "rv_created_at (category_stored db c row) = rv_created_at row"
  "rv_updated_at (category_stored db c row) = rv_updated_at c"
  by (simp_all add: category_stored_def)

interpretation cats: row_store category_by_id category_save rv_id category_stored slug_free
  by unfold_locales
    (auto simp: category_by_id_def category_save_def row_simps split: option.splits if_splits)

section \<open>Materials and colours\<close>

definition new_value :: "database \<Rightarrow> string \<Rightarrow> bool \<Rightarrow> reference_value" where
  "new_value db name is_active = \<lparr>rv_id = next_uuid db, rv_name = name, rv_is_active = is_active,
     rv_deleted_at = None, rv_created_at = tx_now db, rv_updated_at = tx_now db\<rparr>"

lemma new_value_id [simp]: "rv_id (new_value db name a) = next_uuid db"
  by (simp add: new_value_def)

definition value_stored :: "reference_value \<Rightarrow> reference_value \<Rightarrow> reference_value" where
  "value_stored v row = row\<lparr>rv_name := rv_name v, rv_is_active := rv_is_active v,
     rv_deleted_at := rv_deleted_at v, rv_updated_at := rv_updated_at v\<rparr>"

definition material_by_id :: "uuid \<Rightarrow> database \<Rightarrow> reference_value option" where
  "material_by_id i db = row_by rv_id i (materials db)"

definition material_add :: "string \<Rightarrow> bool \<Rightarrow> database \<Rightarrow> app_error + reference_value \<times> database" where
  "material_add name is_active db =
     (if material_by_id (next_uuid db) db \<noteq> None then Inl IntegrityError
      else let v = new_value db name is_active in Inr (v, (drawn db)\<lparr>materials := materials db @ [v]\<rparr>))"

definition material_save :: "reference_value \<Rightarrow> database \<Rightarrow> app_error + database" where
  "material_save v db = (case material_by_id (rv_id v) db of
       None \<Rightarrow> Inl (Uncaught ValueError)
     | Some row \<Rightarrow> Inr (db\<lparr>materials := put_row rv_id (rv_id v) (value_stored v) (materials db)\<rparr>))"

definition material_list_public :: "collation \<Rightarrow> nat \<Rightarrow> database \<Rightarrow> reference_value list" where
  "material_list_public coll limit db = public_rows coll limit (materials db)"

definition material_list_page :: "collation \<Rightarrow> bool \<Rightarrow> database \<Rightarrow> nat \<Rightarrow> (string \<times> uuid) option \<Rightarrow> reference_value list" where
  "material_list_page coll include_deleted db limit after = page_rows coll include_deleted (materials db) limit after"

definition colour_by_id :: "uuid \<Rightarrow> database \<Rightarrow> reference_value option" where
  "colour_by_id i db = row_by rv_id i (colours db)"

definition colour_add :: "string \<Rightarrow> bool \<Rightarrow> database \<Rightarrow> app_error + reference_value \<times> database" where
  "colour_add name is_active db =
     (if colour_by_id (next_uuid db) db \<noteq> None then Inl IntegrityError
      else let v = new_value db name is_active in Inr (v, (drawn db)\<lparr>colours := colours db @ [v]\<rparr>))"

definition colour_save :: "reference_value \<Rightarrow> database \<Rightarrow> app_error + database" where
  "colour_save v db = (case colour_by_id (rv_id v) db of
       None \<Rightarrow> Inl (Uncaught ValueError)
     | Some row \<Rightarrow> Inr (db\<lparr>colours := put_row rv_id (rv_id v) (value_stored v) (colours db)\<rparr>))"

definition colour_list_public :: "collation \<Rightarrow> nat \<Rightarrow> database \<Rightarrow> reference_value list" where
  "colour_list_public coll limit db = public_rows coll limit (colours db)"

definition colour_list_page :: "collation \<Rightarrow> bool \<Rightarrow> database \<Rightarrow> nat \<Rightarrow> (string \<times> uuid) option \<Rightarrow> reference_value list" where
  "colour_list_page coll include_deleted db limit after = page_rows coll include_deleted (colours db) limit after"

lemma value_stored_fields [simp]:
  "rv_id (value_stored v row) = rv_id row" "rv_name (value_stored v row) = rv_name v"
  "rv_is_active (value_stored v row) = rv_is_active v" "rv_deleted_at (value_stored v row) = rv_deleted_at v"
  "rv_created_at (value_stored v row) = rv_created_at row" "rv_updated_at (value_stored v row) = rv_updated_at v"
  by (simp_all add: value_stored_def)

section \<open>The interface of the two value repositories\<close>

text \<open>\<open>_ValueRepository\<close>, the protocol the shared commands are written against.\<close>

record value_repository =
  vr_add :: "string \<Rightarrow> bool \<Rightarrow> database \<Rightarrow> app_error + reference_value \<times> database"
  vr_get_for_update :: "uuid \<Rightarrow> database \<Rightarrow> reference_value option"
  vr_save :: "reference_value \<Rightarrow> database \<Rightarrow> app_error + database"

definition material_repository :: value_repository where
  "material_repository = \<lparr>vr_add = material_add, vr_get_for_update = material_by_id, vr_save = material_save\<rparr>"

definition colour_repository :: value_repository where
  "colour_repository = \<lparr>vr_add = colour_add, vr_get_for_update = colour_by_id, vr_save = colour_save\<rparr>"


section \<open>What the two lists serve\<close>

lemma public_rows_sorted: "sorted (map (value_key coll) (public_rows coll limit rows))"
  by (simp add: public_rows_def sorted_wrt_take flip: take_map)

lemma public_rows_length: "length (public_rows coll limit rows) \<le> limit"
  by (simp add: public_rows_def)

lemma public_rows_visible: "v \<in> set (public_rows coll limit rows) \<Longrightarrow> v \<in> set rows \<and> is_publicly_visible v"
  by (auto simp: public_rows_def is_publicly_visible_def dest: in_set_takeD)

lemma public_rows_all:
  assumes "length (filter is_publicly_visible rows) \<le> limit"
  shows "set (public_rows coll limit rows) = {v \<in> set rows. is_publicly_visible v}"
  using assms by (auto simp: public_rows_def is_publicly_visible_def cong: filter_cong)

text \<open>When the limit cuts the list, what is left out comes after everything that is served.\<close>

lemma public_rows_first:
  assumes "v \<in> set (public_rows coll limit rows)" and "w \<in> set rows" and "is_publicly_visible w"
    and "w \<notin> set (public_rows coll limit rows)"
  shows "value_key coll v \<le> value_key coll w"
proof -
  let ?s = "sort_key (value_key coll) (filter is_publicly_visible rows)"
  have eq: "public_rows coll limit rows = take limit ?s"
    by (simp add: public_rows_def is_publicly_visible_def [abs_def])
  have "w \<in> set ?s" using assms(2,3) by simp
  with assms(4) have "w \<in> set (drop limit ?s)"
    unfolding eq by (metis Un_iff append_take_drop_id set_append)
  moreover have "sorted (map (value_key coll) (take limit ?s) @ map (value_key coll) (drop limit ?s))"
    by (simp flip: map_append)
  ultimately show ?thesis using assms(1) unfolding eq by (auto simp: sorted_append)
qed

definition value_beyond :: "collation \<Rightarrow> string \<times> uuid \<Rightarrow> 'a reference_value_scheme \<Rightarrow> bool" where
  "value_beyond coll c v = (case c of (n, i) \<Rightarrow> (coll n, i) < value_key coll v)"

definition value_cursor :: "'a reference_value_scheme \<Rightarrow> string \<times> uuid" where
  "value_cursor v = (rv_name v, rv_id v)"

definition matching_values :: "collation \<Rightarrow> bool \<Rightarrow> 'a reference_value_scheme list \<Rightarrow> 'a reference_value_scheme list" where
  "matching_values coll include_deleted rows = sort_key (value_key coll) (filter (listed include_deleted) rows)"

lemma distinct_value_keys: "distinct (map rv_id rows) \<Longrightarrow> distinct (map (value_key coll) (filter P rows))"
  by (rule distinct_map_filter_rows) (auto simp: distinct_map inj_on_def value_key_def)

interpretation value_list: keyset value_cursor "value_beyond coll" "page_rows coll include_deleted"
    "matching_values coll include_deleted" "\<lambda>rows. distinct (map rv_id rows)"
proof unfold_locales
  show "page_rows coll include_deleted rows n None = take n (matching_values coll include_deleted rows)"
    for rows :: "'a reference_value_scheme list" and n
    by (simp add: page_rows_def matching_values_def)
  show "page_rows coll include_deleted rows n (Some (value_cursor r))
      = take n (filter (value_beyond coll (value_cursor r)) (matching_values coll include_deleted rows))"
    for rows :: "'a reference_value_scheme list" and n r
    by (simp add: page_rows_def matching_values_def value_beyond_def value_cursor_def filter_sort conj_commute)
  show "\<not> value_beyond coll (value_cursor r) r" for r :: "'a reference_value_scheme"
    by (simp add: value_beyond_def value_cursor_def value_key_def)
  show "sorted_wrt (apart value_cursor (value_beyond coll)) (matching_values coll include_deleted rows)"
    if "distinct (map rv_id rows)" for rows :: "'a reference_value_scheme list"
    using sort_ascending [OF distinct_value_keys [OF that, of coll "listed include_deleted"]]
    unfolding matching_values_def
    by (rule sorted_wrt_mono_rel [rotated]) (auto simp: apart_def value_beyond_def value_cursor_def value_key_def)
qed

section \<open>The tables as a store of reference values\<close>

text \<open>
  What the mutating commands rely on, for each of the three tables: a row is read by its id, saving
  the row that was read leaves exactly the new values in its place, touches neither the audit log nor
  any other table, and keeps the schema.
\<close>

definition only_catalogue :: "database \<Rightarrow> database \<Rightarrow> bool" where
  "only_catalogue db db' \<longleftrightarrow> users db' = users db \<and> sessions db' = sessions db
     \<and> setting_rows db' = setting_rows db \<and> notifications db' = notifications db \<and> email_outbox db' = email_outbox db"

locale reference_table =
  fixes rows :: "database \<Rightarrow> 'z reference_value_scheme list"
    and get :: "uuid \<Rightarrow> database \<Rightarrow> 'z reference_value_scheme option"
    and save :: "'z reference_value_scheme \<Rightarrow> database \<Rightarrow> app_error + database"
  assumes get_row: "get i db = row_by rv_id i (rows db)"
    and save_row: "get i db = Some v \<Longrightarrow> rv_id w = i \<Longrightarrow> rv_created_at w = rv_created_at v \<Longrightarrow> wf_db db
      \<Longrightarrow> save w db = Inr db' \<Longrightarrow> rows db' = put_row rv_id i (\<lambda>_. w) (rows db)"
    and save_log: "save w db = Inr db' \<Longrightarrow> audit_logs db' = audit_logs db"
    and save_frame: "save w db = Inr db' \<Longrightarrow> only_catalogue db db'"
    and save_wf: "wf_db db \<Longrightarrow> save w db = Inr db' \<Longrightarrow> wf_db db'"
    and audit_row: "audit_add a db = Inr db' \<Longrightarrow> rows db' = rows db"
    and distinct_ids: "wf_db db \<Longrightarrow> distinct (map rv_id (rows db))"
begin

text \<open>The common tail of an update and an archiving: save when something changed, then audit.\<close>

lemma save_then_audit:
  assumes "wf_db db" and "get i db = Some v" and "rv_id w = i" and "rv_created_at w = rv_created_at v"
    and "if changed then save w db = Inr d1 else d1 = db \<and> w = v" and "audit_add a d1 = Inr db'"
  shows "rows db' = put_row rv_id i (\<lambda>_. w) (rows db) \<and> wf_db db' \<and> only_catalogue db db'
    \<and> (\<exists>e. audit_logs db' = audit_logs db @ [e] \<and> logged a e)"
proof -
  have same: "put_row rv_id i (\<lambda>_. v) (rows db) = rows db"
    using assms(2) row_by_unique [OF distinct_ids [OF assms(1)]]
    by (auto simp: put_row_def get_row intro!: map_idI)
  have "rows d1 = put_row rv_id i (\<lambda>_. w) (rows db)" "wf_db d1" "only_catalogue db d1" "audit_logs d1 = audit_logs db"
    using assms(5) same save_row [OF assms(2-4,1)] save_wf [OF assms(1)] save_frame save_log assms(1)
    by (auto simp: only_catalogue_def split: if_splits)
  moreover have "only_catalogue d1 db'" using assms(6) by (auto simp: only_catalogue_def audit_add_def split: if_splits)
  ultimately show ?thesis
    using audit_row [OF assms(6)] audit_logged [OF assms(6)] audit_keeps_wf [OF assms(6)]
    by (auto simp: only_catalogue_def)
qed

text \<open>Replacing a row that is not archived leaves every archived row where it is.\<close>

lemma archived_rows_stay:
  assumes "wf_db db" and "get i db = Some v" and "\<not> is_archived v" and "r \<in> set (rows db)" and "is_archived r"
  shows "r \<in> set (put_row rv_id i (\<lambda>_. w) (rows db))"
proof -
  have "rv_id r \<noteq> i"
    using assms row_by_unique [OF distinct_ids [OF assms(1)] assms(4)] by (auto simp: get_row)
  with assms(4) show ?thesis by (force simp: put_row_def)
qed

lemma keeps_save: "preserves wf_db (exec (save w))"
  by (rule preserves_exec) (rule save_wf)

end

text \<open>A repository of materials or of colours: the shared commands see it through \<open>_ValueRepository\<close>.\<close>

locale value_store = reference_table rows "vr_get_for_update R" "vr_save R"
    for R :: value_repository and rows :: "database \<Rightarrow> reference_value list" +
  assumes add_row: "vr_add R name is_active db = Inr (v, db') \<Longrightarrow> rows db' = rows db @ [v] \<and> v = new_value db name is_active"
    and add_log: "vr_add R name is_active db = Inr (v, db') \<Longrightarrow> audit_logs db' = audit_logs db"
    and add_frame: "vr_add R name is_active db = Inr (v, db') \<Longrightarrow> only_catalogue db db'"
    and add_wf: "wf_db db \<Longrightarrow> vr_add R name is_active db = Inr (v, db') \<Longrightarrow> wf_db db'"
begin

lemma keeps_add: "preserves wf_db (insert_row (vr_add R name is_active))"
  by (rule preserves_insert) (rule add_wf)

end

lemma live_slugs_put:
  assumes "distinct (map rv_id cs)" and "distinct (map cat_slug (live_categories cs))"
    and "rv_deleted_at c \<noteq> None \<or> \<not> slug_taken (cat_slug c) (filter (\<lambda>r. rv_id r \<noteq> i) cs)"
  shows "distinct (map cat_slug (live_categories (put_row rv_id i (category_stored db c) cs)))"
  using assms
proof (induction cs)
  case (Cons a cs)
  show ?case
  proof (cases "rv_id a = i")
    case True
    with Cons.prems(1) have "put_row rv_id i (category_stored db c) cs = cs" "filter (\<lambda>r. rv_id r \<noteq> i) cs = cs"
      by (auto simp: put_row_def image_iff filter_id_conv intro!: map_idI)
    with True Cons.prems show ?thesis
      by (auto simp: live_categories_def put_row_def slug_taken_def split: if_splits)
  next
    case False
    with Cons.prems have IH: "distinct (map cat_slug (live_categories (put_row rv_id i (category_stored db c) cs)))"
      by (intro Cons.IH) (auto simp: live_categories_def slug_taken_def split: if_splits)
    have "cat_slug a \<noteq> cat_slug x" if "x \<in> set (put_row rv_id i (category_stored db c) cs)" "rv_deleted_at x = None"
        "rv_deleted_at a = None" for x
      using that(1)
    proof (cases rule: set_put_rowE)
      case kept
      with that Cons.prems(2) show ?thesis by (auto simp: live_categories_def)
    next
      case (changed y)
      with that Cons.prems(3) False show ?thesis by (auto simp: slug_taken_def live_categories_def)
    qed
    with IH False show ?thesis by (auto simp: live_categories_def put_row_def)
  qed
qed (simp add: live_categories_def put_row_def)

lemma category_save_frame:
  assumes "category_save c db = Inr db'"
  shows "db' = db\<lparr>categories := put_row rv_id (rv_id c) (category_stored db c) (categories db)\<rparr>" and "slug_free c db"
  using assms by (auto simp: category_save_def split: option.splits if_splits)

lemma category_save_wf: "wf_db db \<Longrightarrow> category_save c db = Inr db' \<Longrightarrow> wf_db db'"
  using live_slugs_put [of "categories db" c "rv_id c" db] category_save_frame [of c db db']
  by (simp add: wf_db_def wf_office_def slug_free_def)

lemma category_add_wf: "wf_db db \<Longrightarrow> category_add name slug a db = Inr (c, db') \<Longrightarrow> wf_db db'"
  by (auto simp: category_add_def wf_db_def wf_office_def category_by_id_def row_by_None_iff live_categories_def
      slug_taken_def Let_def image_iff split: if_splits)

lemma put_stored_own:
  assumes "distinct (map rv_id rows)" and "row_by rv_id i rows = Some v" and "f v = w"
  shows "put_row rv_id i f rows = put_row rv_id i (\<lambda>_. w) rows"
proof -
  have "f r = w" if "r \<in> set rows" "rv_id r = i" for r
    using row_by_unique [OF assms(1) that(1)] that(2) assms(2,3) by simp
  then show ?thesis by (auto simp: put_row_def)
qed

lemma category_stored_own:
  "rv_id v = rv_id w \<Longrightarrow> rv_created_at v = rv_created_at w \<Longrightarrow> category_stored db w v = w"
  by (cases v, cases w) (simp add: category_stored_def)

interpretation category_table: reference_table categories category_by_id category_save
proof unfold_locales
  fix i db v w db'
  assume got: "category_by_id i db = Some v" and w: "rv_id w = i" "rv_created_at w = rv_created_at v" and wf: "wf_db db"
    and sv: "category_save w db = Inr db'"
  have "rv_id v = i" using got by (auto simp: category_by_id_def dest: row_by_SomeD)
  with w have "category_stored db w v = w" by (intro category_stored_own) simp_all
  with got wf have "put_row rv_id i (category_stored db w) (categories db) = put_row rv_id i (\<lambda>_. w) (categories db)"
    by (intro put_stored_own) (auto simp: wf_db_def wf_office_def category_by_id_def)
  then show "categories db' = put_row rv_id i (\<lambda>_. w) (categories db)"
    using category_save_frame(1) [OF sv] by (simp add: w(1))
next
  show "audit_logs db' = audit_logs db" if "category_save w db = Inr db'" for w db db'
    using category_save_frame(1) [OF that] by simp
  show "only_catalogue db db'" if "category_save w db = Inr db'" for w db db'
    using category_save_frame(1) [OF that] by (simp add: only_catalogue_def)
  show "wf_db db'" if "wf_db db" "category_save w db = Inr db'" for w db db'
    using that by (rule category_save_wf)
qed (auto simp: category_by_id_def audit_add_def wf_db_def wf_office_def split: if_splits)

lemma value_stored_own: "rv_id v = rv_id w \<Longrightarrow> rv_created_at v = rv_created_at w \<Longrightarrow> value_stored w v = w"
  by (simp add: value_stored_def)

lemma value_save_frame:
  "material_save v db = Inr db' \<Longrightarrow> db' = db\<lparr>materials := put_row rv_id (rv_id v) (value_stored v) (materials db)\<rparr>"
  "colour_save v db = Inr db' \<Longrightarrow> db' = db\<lparr>colours := put_row rv_id (rv_id v) (value_stored v) (colours db)\<rparr>"
  by (auto simp: material_save_def colour_save_def split: option.splits)

lemma value_add_frame:
  "material_add name a db = Inr (v, db') \<Longrightarrow> v = new_value db name a
     \<and> db' = (drawn db)\<lparr>materials := materials db @ [v]\<rparr> \<and> next_uuid db \<notin> rv_id ` set (materials db)"
  "colour_add name a db = Inr (v, db') \<Longrightarrow> v = new_value db name a
     \<and> db' = (drawn db)\<lparr>colours := colours db @ [v]\<rparr> \<and> next_uuid db \<notin> rv_id ` set (colours db)"
  by (auto simp: material_add_def colour_add_def material_by_id_def colour_by_id_def row_by_None_iff Let_def
      split: if_splits)

lemma put_value_stored:
  assumes "distinct (map rv_id rows)" and "row_by rv_id i rows = Some v" and "rv_id w = i"
    and "rv_created_at w = rv_created_at v"
  shows "put_row rv_id i (value_stored w) rows = put_row rv_id i (\<lambda>_. w) rows"
  using assms by (intro put_stored_own [of rows i v] value_stored_own) (auto dest: row_by_SomeD(2))

lemma wf_value_tables:
  "wf_db db \<Longrightarrow> distinct (map rv_id (materials db))" "wf_db db \<Longrightarrow> distinct (map rv_id (colours db))"
  "wf_db db \<Longrightarrow> distinct (map rv_id ms) \<Longrightarrow> wf_db (db\<lparr>materials := ms\<rparr>)"
  "wf_db db \<Longrightarrow> distinct (map rv_id ms) \<Longrightarrow> wf_db (db\<lparr>colours := ms\<rparr>)"
  "wf_db db \<Longrightarrow> distinct (map rv_id ms) \<Longrightarrow> wf_db (db\<lparr>gen_ctr := n, materials := ms\<rparr>)"
  "wf_db db \<Longrightarrow> distinct (map rv_id ms) \<Longrightarrow> wf_db (db\<lparr>gen_ctr := n, colours := ms\<rparr>)"
  by (simp_all add: wf_db_def wf_office_def)

lemmas value_repositories = material_repository_def colour_repository_def

lemmas value_table_simps = value_repositories material_by_id_def colour_by_id_def only_catalogue_def
  audit_add_def put_value_stored wf_value_tables

interpretation material_table: value_store material_repository materials
  by unfold_locales
    (auto simp: value_table_simps dest!: value_save_frame(1) value_add_frame(1) split: if_splits)

interpretation colour_table: value_store colour_repository colours
  by unfold_locales
    (auto simp: value_table_simps dest!: value_save_frame(2) value_add_frame(2) split: if_splits)

end
