(* ===== verification/Catalogue_Commands.thy ===== *)
theory Catalogue_Commands
  imports Catalogue_Store
begin

text \<open>
  The administrator's operations on the catalogue: commands/category_admin.py, and
  commands/value_admin.py, which is written once for materials and colours over the repository
  protocol.  \<open>now\<close> is the \<open>datetime.now(UTC)\<close> the command reads.
\<close>

definition catalog :: "catalog_error + 'a \<Rightarrow> 'a cmd" where
  "catalog r = from_entity (map_sum Catalog id r)"

definition value_audit :: "string \<Rightarrow> string \<Rightarrow> uuid \<Rightarrow> (string \<times> pyval) list option \<Rightarrow> (string \<times> pyval) list
    \<Rightarrow> uuid \<Rightarrow> string option \<Rightarrow> string option \<Rightarrow> audit_args" where
  "value_audit action entity_type entity_id before after actor request_id ip_hash =
     \<lparr>aa_actor_user_id = Some actor, aa_action = action, aa_entity_type = entity_type,
      aa_entity_id = Some entity_id, aa_before_data = before, aa_after_data = Some after,
      aa_request_id = request_id, aa_ip_hash = ip_hash\<rparr>"

section \<open>Categories\<close>

definition CATEGORY :: string where "CATEGORY = ''Category''"

record category_mutation_result =
  cm_category :: category
  cm_changed :: bool

definition create_category ::
  "string \<Rightarrow> string \<Rightarrow> bool \<Rightarrow> uuid \<Rightarrow> string option \<Rightarrow> string option \<Rightarrow> category cmd" where
  "create_category name slug is_active actor_user_id request_id ip_hash =
     andthen (catalog (normalise_slug slug)) (\<lambda>s.
     andthen (insert_row (category_add name s is_active)) (\<lambda>c.
     andthen (exec (audit_add (value_audit ''category.created'' CATEGORY (rv_id c) None
       (category_audit_snapshot c) actor_user_id request_id ip_hash))) (\<lambda>_.
     ret c)))"

definition update_category ::
  "timestamp \<Rightarrow> uuid \<Rightarrow> string option \<Rightarrow> string option \<Rightarrow> bool option \<Rightarrow> uuid \<Rightarrow> string option \<Rightarrow> string option
     \<Rightarrow> category_mutation_result cmd" where
  "update_category now category_id name slug is_active actor_user_id request_id ip_hash =
     andthen (query (category_by_id category_id)) (\<lambda>found. case found of
       None \<Rightarrow> raise (Catalog (ReferenceValueNotFoundError CATEGORY category_id))
     | Some c \<Rightarrow>
         if is_archived c then raise (Catalog (ArchivedValueNotMutableError CATEGORY category_id))
         else
           andthen (case slug of None \<Rightarrow> ret None
             | Some s \<Rightarrow> andthen (catalog (normalise_slug s)) (\<lambda>n. ret (Some n))) (\<lambda>normal.
           case apply_category_update name normal is_active now c of (changed, c') \<Rightarrow>
             andthen (if changed then exec (category_save c') else ret ()) (\<lambda>_.
             andthen (exec (audit_add (value_audit ''category.updated'' CATEGORY (rv_id c')
               (Some (category_audit_snapshot c)) (category_audit_snapshot c') actor_user_id request_id ip_hash))) (\<lambda>_.
             ret \<lparr>cm_category = c', cm_changed = changed\<rparr>))))"

definition archive_category ::
  "timestamp \<Rightarrow> uuid \<Rightarrow> uuid \<Rightarrow> string option \<Rightarrow> string option \<Rightarrow> category cmd" where
  "archive_category now category_id actor_user_id request_id ip_hash =
     andthen (query (category_by_id category_id)) (\<lambda>found. case found of
       None \<Rightarrow> raise (Catalog (ReferenceValueNotFoundError CATEGORY category_id))
     | Some c \<Rightarrow>
         if is_archived c then raise (Catalog (ArchivedValueNotMutableError CATEGORY category_id))
         else
           (let c' = archive now c in
            andthen (exec (category_save c')) (\<lambda>_.
            andthen (exec (audit_add (value_audit ''category.archived'' CATEGORY (rv_id c')
              (Some (category_audit_snapshot c)) (category_audit_snapshot c') actor_user_id request_id ip_hash))) (\<lambda>_.
            ret c'))))"

section \<open>Materials and colours\<close>

record value_mutation_result =
  vm_value :: reference_value
  vm_changed :: bool

definition create_reference_value ::
  "value_repository \<Rightarrow> string \<Rightarrow> string \<Rightarrow> bool \<Rightarrow> uuid \<Rightarrow> string option \<Rightarrow> string option \<Rightarrow> reference_value cmd" where
  "create_reference_value R entity_type name is_active actor_user_id request_id ip_hash =
     andthen (insert_row (vr_add R name is_active)) (\<lambda>v.
     andthen (exec (audit_add (value_audit (py_lower entity_type @ ''.created'') entity_type (rv_id v) None
       (audit_snapshot v) actor_user_id request_id ip_hash))) (\<lambda>_.
     ret v))"

definition update_reference_value ::
  "value_repository \<Rightarrow> string \<Rightarrow> timestamp \<Rightarrow> uuid \<Rightarrow> string option \<Rightarrow> bool option \<Rightarrow> uuid \<Rightarrow> string option \<Rightarrow> string option
     \<Rightarrow> value_mutation_result cmd" where
  "update_reference_value R entity_type now value_id name is_active actor_user_id request_id ip_hash =
     andthen (query (vr_get_for_update R value_id)) (\<lambda>found. case found of
       None \<Rightarrow> raise (Catalog (ReferenceValueNotFoundError entity_type value_id))
     | Some v \<Rightarrow>
         if is_archived v then raise (Catalog (ArchivedValueNotMutableError entity_type value_id))
         else
           (case apply_update name is_active now v of (changed, v') \<Rightarrow>
              andthen (if changed then exec (vr_save R v') else ret ()) (\<lambda>_.
              andthen (exec (audit_add (value_audit (py_lower entity_type @ ''.updated'') entity_type (rv_id v')
                (Some (audit_snapshot v)) (audit_snapshot v') actor_user_id request_id ip_hash))) (\<lambda>_.
              ret \<lparr>vm_value = v', vm_changed = changed\<rparr>))))"

definition archive_reference_value ::
  "value_repository \<Rightarrow> string \<Rightarrow> timestamp \<Rightarrow> uuid \<Rightarrow> uuid \<Rightarrow> string option \<Rightarrow> string option \<Rightarrow> reference_value cmd" where
  "archive_reference_value R entity_type now value_id actor_user_id request_id ip_hash =
     andthen (query (vr_get_for_update R value_id)) (\<lambda>found. case found of
       None \<Rightarrow> raise (Catalog (ReferenceValueNotFoundError entity_type value_id))
     | Some v \<Rightarrow>
         if is_archived v then raise (Catalog (ArchivedValueNotMutableError entity_type value_id))
         else
           (let v' = archive now v in
            andthen (exec (vr_save R v')) (\<lambda>_.
            andthen (exec (audit_add (value_audit (py_lower entity_type @ ''.archived'') entity_type (rv_id v')
              (Some (audit_snapshot v)) (audit_snapshot v') actor_user_id request_id ip_hash))) (\<lambda>_.
            ret v'))))"

section \<open>What an update does to a category\<close>

lemma row_by_replaced:
  assumes "key w = i"
  shows "row_by key j (put_row key i (\<lambda>_. w) rows)
    = (if j = i then map_option (\<lambda>_. w) (row_by key j rows) else row_by key j rows)"
  unfolding put_row_def using assms by (induction rows) auto

lemma catalog_Inr: "catalog r db = (Inr a, db') \<longleftrightarrow> r = Inr a \<and> db' = db"
  by (cases r) (auto simp: catalog_def from_entity_def)

lemma preserves_catalog [keeps]: "preserves I (catalog r)"
  by (simp add: catalog_def keeps)

text \<open>The slug a request asks for, in the form it is stored in.\<close>

definition slug_wanted :: "string option \<Rightarrow> category \<Rightarrow> string" where
  "slug_wanted slug c = (case slug of None \<Rightarrow> cat_slug c | Some s \<Rightarrow> py_lower (py_strip s))"

lemma update_category_view:
  assumes "wf_db db" and "update_category now i name slug is_active actor rid ih db = (Inr res, db')"
  obtains c normal e where "category_by_id i db = Some c" and "\<not> is_archived c"
    and "case slug of None \<Rightarrow> normal = None | Some s \<Rightarrow> \<exists>n. normalise_slug s = Inr n \<and> normal = Some n"
    and "apply_category_update name normal is_active now c = (cm_changed res, cm_category res)"
    and "categories db' = put_row rv_id i (\<lambda>_. cm_category res) (categories db)"
    and "wf_db db'" and "only_catalogue db db'" and "audit_logs db' = audit_logs db @ [e]"
    and "logged (value_audit ''category.updated'' CATEGORY i (Some (category_audit_snapshot c))
           (category_audit_snapshot (cm_category res)) actor rid ih) e"
proof -
  from assms(2) obtain c normal where c: "category_by_id i db = Some c" "\<not> is_archived c"
    and n: "case slug of None \<Rightarrow> normal = None | Some s \<Rightarrow> \<exists>n. normalise_slug s = Inr n \<and> normal = Some n"
    and rest: "(case apply_category_update name normal is_active now c of (changed, c') \<Rightarrow>
             andthen (if changed then exec (category_save c') else ret ()) (\<lambda>_.
             andthen (exec (audit_add (value_audit ''category.updated'' CATEGORY (rv_id c')
               (Some (category_audit_snapshot c)) (category_audit_snapshot c') actor rid ih))) (\<lambda>_.
             ret \<lparr>cm_category = c', cm_changed = changed\<rparr>))) db = (Inr res, db')"
    by (auto simp: update_category_def andthen_Inr query_Inr catalog_Inr ret_Inr split: option.splits if_splits)
  obtain changed c' where up: "apply_category_update name normal is_active now c = (changed, c')" by (rule prod.exhaust)
  note spec = apply_category_update_spec [OF up]
  have id: "rv_id c = i" using c(1) by (auto simp: category_by_id_def dest: row_by_SomeD(2))
  from rest obtain d1 where d1: "if changed then category_save c' db = Inr d1 else d1 = db"
    and au: "audit_add (value_audit ''category.updated'' CATEGORY (rv_id c') (Some (category_audit_snapshot c))
       (category_audit_snapshot c') actor rid ih) d1 = Inr db'" and res: "res = \<lparr>cm_category = c', cm_changed = changed\<rparr>"
    unfolding up by (cases changed) (auto simp: succeeds)
  from d1 spec(9) have "if changed then category_save c' db = Inr d1 else d1 = db \<and> c' = c" by simp
  note view = category_table.save_then_audit [OF assms(1) c(1) trans [OF spec(4) id] spec(6) this au]
  then obtain e where "audit_logs db' = audit_logs db @ [e]"
    "logged (value_audit ''category.updated'' CATEGORY (rv_id c') (Some (category_audit_snapshot c))
       (category_audit_snapshot c') actor rid ih) e" by blast
  with view show thesis
    using spec(4) id by (intro that [OF c n, of e]) (simp_all add: res up)
qed

text \<open>A successful update of a category changes that row only, to the values asked for, moves the
  timestamp exactly when a field moved, and is audited with the row as it was and as it is, whether or
  not anything changed; the schema holds afterwards, and so the new slug is free.\<close>

theorem update_category_audited:
  assumes "wf_db db" and "update_category now i name slug is_active actor rid ih db = (Inr res, db')"
  shows "\<exists>c c' e. category_by_id i db = Some c \<and> category_by_id i db' = Some c' \<and> c' = cm_category res
    \<and> (\<forall>j. j \<noteq> i \<longrightarrow> category_by_id j db' = category_by_id j db)
    \<and> rv_name c' = (case name of None \<Rightarrow> rv_name c | Some n \<Rightarrow> n) \<and> cat_slug c' = slug_wanted slug c
    \<and> rv_is_active c' = (case is_active of None \<Rightarrow> rv_is_active c | Some a \<Rightarrow> a)
    \<and> rv_deleted_at c = None \<and> rv_deleted_at c' = None
    \<and> (cm_changed res \<longleftrightarrow> category_audit_snapshot c' \<noteq> category_audit_snapshot c)
    \<and> rv_updated_at c' = (if cm_changed res then now else rv_updated_at c)
    \<and> audit_logs db' = audit_logs db @ [e]
    \<and> logged (value_audit ''category.updated'' CATEGORY i (Some (category_audit_snapshot c))
           (category_audit_snapshot c') actor rid ih) e
    \<and> only_catalogue db db' \<and> wf_db db'"
  using assms
proof (rule update_category_view)
  fix c normal e
  assume c: "category_by_id i db = Some c" "\<not> is_archived c"
    and n: "case slug of None \<Rightarrow> normal = None | Some s \<Rightarrow> \<exists>n. normalise_slug s = Inr n \<and> normal = Some n"
    and up: "apply_category_update name normal is_active now c = (cm_changed res, cm_category res)"
    and rows: "categories db' = put_row rv_id i (\<lambda>_. cm_category res) (categories db)"
    and rest: "wf_db db'" "only_catalogue db db'" "audit_logs db' = audit_logs db @ [e]"
      "logged (value_audit ''category.updated'' CATEGORY i (Some (category_audit_snapshot c))
           (category_audit_snapshot (cm_category res)) actor rid ih) e"
  note spec = apply_category_update_spec [OF up]
  have id: "rv_id c = i" using c(1) by (auto simp: category_by_id_def dest: row_by_SomeD(2))
  have "category_by_id j db' = (if j = i then Some (cm_category res) else category_by_id j db)" for j
    using c(1) spec(4) id by (simp add: category_by_id_def rows row_by_replaced)
  moreover have "cat_slug (cm_category res) = slug_wanted slug c"
    using spec(2) n by (auto simp: slug_wanted_def normalise_slug_iff split: option.splits)
  moreover have "cm_changed res \<longleftrightarrow> category_audit_snapshot (cm_category res) \<noteq> category_audit_snapshot c"
    using spec(5,8) by (auto simp: category_audit_snapshot_def audit_snapshot_def)
  ultimately show ?thesis
    using c rest spec(1,3,5,7) by (intro exI [of _ c] exI [of _ "cm_category res"] exI [of _ e]) (simp add: is_archived_def)
qed

section \<open>Archiving a category\<close>

lemma archive_category_view:
  assumes "wf_db db" and "archive_category now i actor rid ih db = (Inr c', db')"
  obtains c e where "category_by_id i db = Some c" and "\<not> is_archived c" and "c' = archive now c"
    and "categories db' = put_row rv_id i (\<lambda>_. c') (categories db)"
    and "wf_db db'" and "only_catalogue db db'" and "audit_logs db' = audit_logs db @ [e]"
    and "logged (value_audit ''category.archived'' CATEGORY i (Some (category_audit_snapshot c))
           (category_audit_snapshot c') actor rid ih) e"
proof -
  from assms(2) obtain c d1 where c: "category_by_id i db = Some c" "\<not> is_archived c" and c': "c' = archive now c"
    and d1: "category_save c' db = Inr d1"
    and au: "audit_add (value_audit ''category.archived'' CATEGORY (rv_id c') (Some (category_audit_snapshot c))
       (category_audit_snapshot c') actor rid ih) d1 = Inr db'"
    by (auto simp: archive_category_def succeeds Let_def split: option.splits if_splits)
  have id: "rv_id c = i" using c(1) by (auto simp: category_by_id_def dest: row_by_SomeD(2))
  have "if True then category_save c' db = Inr d1 else d1 = db \<and> c' = c" using d1 by simp
  note view = category_table.save_then_audit [OF assms(1) c(1) _ _ this au]
  then obtain e where "audit_logs db' = audit_logs db @ [e]"
    "logged (value_audit ''category.archived'' CATEGORY (rv_id c') (Some (category_audit_snapshot c))
       (category_audit_snapshot c') actor rid ih) e" using id(1) unfolding c' by auto
  moreover have "rv_id c' = i" "rv_created_at c' = rv_created_at c" using c' id by simp_all
  ultimately show thesis
    using view by (intro that [OF c c', of e]) simp_all
qed

lemma live_after_archiving:
  "is_archived w \<Longrightarrow> live_categories (put_row rv_id i (\<lambda>_. w) cs) = filter (\<lambda>r. rv_id r \<noteq> i) (live_categories cs)"
  by (induction cs) (auto simp: live_categories_def put_row_def is_archived_def)

text \<open>Archiving keeps the row, with its name and slug, and hides it; it releases the slug, so that a new
  category can take it at once; no other category changes.\<close>

theorem archive_releases_slug:
  assumes "wf_db db" and "archive_category now i actor rid ih db = (Inr c', db')"
  shows "(\<exists>c. category_by_id i db = Some c \<and> \<not> is_archived c \<and> category_by_id i db' = Some (archive now c))
    \<and> (\<forall>j. j \<noteq> i \<longrightarrow> category_by_id j db' = category_by_id j db)
    \<and> is_archived c' \<and> \<not> is_publicly_visible c' \<and> \<not> slug_taken (cat_slug c') (categories db')
    \<and> (\<forall>s. slug_taken s (categories db') \<longleftrightarrow> slug_taken s (categories db) \<and> s \<noteq> cat_slug c')"
  using assms
proof (rule archive_category_view)
  fix c e
  assume c: "category_by_id i db = Some c" "\<not> is_archived c" and c': "c' = archive now c"
    and rows: "categories db' = put_row rv_id i (\<lambda>_. c') (categories db)"
  have id: "rv_id c = i" "c \<in> set (categories db)"
    using c(1) by (auto simp: category_by_id_def dest: row_by_SomeD)
  have slug: "cat_slug c' = cat_slug c" by (simp add: c' archive_def)
  have row: "category_by_id j db' = (if j = i then Some c' else category_by_id j db)" for j
    using c(1) id by (simp add: category_by_id_def rows row_by_replaced c')
  have ids: "r = c" if "r \<in> set (categories db)" "rv_id r = i" for r
    using that id assms(1) by (auto simp: wf_db_def wf_office_def distinct_map inj_on_def)
  have live: "live_categories (categories db') = filter (\<lambda>r. rv_id r \<noteq> i) (live_categories (categories db))"
    unfolding rows by (rule live_after_archiving) (simp add: c')
  have one: "r = c" if "r \<in> set (live_categories (categories db))" "cat_slug r = cat_slug c" for r
    using that assms(1) id c(2)
    by (auto simp: wf_db_def wf_office_def distinct_map inj_on_def live_categories_def is_archived_def)
  have other: "rv_id r \<noteq> i \<longleftrightarrow> cat_slug r \<noteq> cat_slug c" if "r \<in> set (live_categories (categories db))" for r
  proof -
    have "r \<in> set (categories db)" using that by (simp add: live_categories_def)
    with ids one that id(1) show ?thesis by metis
  qed
  have "slug_taken s (categories db') \<longleftrightarrow> slug_taken s (categories db) \<and> s \<noteq> cat_slug c'" for s
    unfolding slug_taken_def slug live set_filter using other by blast
  then show ?thesis
    using c row by (auto simp: c')
qed

section \<open>Creating a category\<close>


lemma create_category_view:
  assumes "create_category name slug is_active actor rid ih db = (Inr c, db')"
  shows "\<exists>s. normalise_slug slug = Inr s \<and> cat_slug c = s \<and> categories db' = categories db @ [c] \<and> \<not> is_archived c
    \<and> only_catalogue db db'"
  using assms
  by (auto simp: create_category_def succeeds catalog_Inr category_add_def audit_add_def Let_def is_archived_def
      only_catalogue_def split: if_splits)

lemma keeps_category_commands [keeps]:
  "preserves wf_db (create_category name slug is_active actor rid ih)"
  "preserves wf_db (update_category now i name' slug' is_active' actor rid ih)"
  "preserves wf_db (archive_category now i actor rid ih)"
proof -
  have add: "preserves wf_db (insert_row (category_add name s is_active))" for s
    by (rule preserves_insert) (rule category_add_wf)
  show "preserves wf_db (create_category name slug is_active actor rid ih)"
    unfolding create_category_def by (intro keeps add)
  show "preserves wf_db (update_category now i name' slug' is_active' actor rid ih)"
    unfolding update_category_def by (intro keeps category_table.keeps_save)
  show "preserves wf_db (archive_category now i actor rid ih)"
    unfolding archive_category_def Let_def by (intro keeps category_table.keeps_save)
qed

section \<open>Materials and colours, over the repository protocol\<close>

context value_store
begin

lemma create_value:
  assumes "create_reference_value R ty name is_active actor rid ih db = (Inr v, db')"
  shows "rows db' = rows db @ [v] \<and> rv_name v = name \<and> rv_is_active v = is_active \<and> \<not> is_archived v
    \<and> only_catalogue db db'
    \<and> (\<exists>e. audit_logs db' = audit_logs db @ [e] \<and> logged (value_audit (py_lower ty @ ''.created'') ty (rv_id v) None
           (audit_snapshot v) actor rid ih) e)"
proof -
  from assms obtain d where add: "vr_add R name is_active db = Inr (v, d)"
    and au: "audit_add (value_audit (py_lower ty @ ''.created'') ty (rv_id v) None (audit_snapshot v) actor rid ih) d = Inr db'"
    by (auto simp: create_reference_value_def succeeds)
  have "only_catalogue d db'" using au by (auto simp: only_catalogue_def audit_add_def split: if_splits)
  then show ?thesis
    using add_row [OF add] add_log [OF add] add_frame [OF add] audit_row [OF au] audit_logged [OF au]
    by (auto simp: new_value_def is_archived_def only_catalogue_def)
qed

lemma update_value:
  assumes "wf_db db" and "update_reference_value R ty now i name is_active actor rid ih db = (Inr res, db')"
  obtains v e where "vr_get_for_update R i db = Some v" and "\<not> is_archived v"
    and "apply_update name is_active now v = (vm_changed res, vm_value res)"
    and "rows db' = put_row rv_id i (\<lambda>_. vm_value res) (rows db)"
    and "wf_db db'" and "only_catalogue db db'" and "audit_logs db' = audit_logs db @ [e]"
    and "logged (value_audit (py_lower ty @ ''.updated'') ty i (Some (audit_snapshot v))
           (audit_snapshot (vm_value res)) actor rid ih) e"
proof -
  from assms(2) obtain v where v: "vr_get_for_update R i db = Some v" "\<not> is_archived v"
    and rest: "(case apply_update name is_active now v of (changed, v') \<Rightarrow>
              andthen (if changed then exec (vr_save R v') else ret ()) (\<lambda>_.
              andthen (exec (audit_add (value_audit (py_lower ty @ ''.updated'') ty (rv_id v')
                (Some (audit_snapshot v)) (audit_snapshot v') actor rid ih))) (\<lambda>_.
              ret \<lparr>vm_value = v', vm_changed = changed\<rparr>))) db = (Inr res, db')"
    by (auto simp: update_reference_value_def andthen_Inr query_Inr split: option.splits if_splits)
  obtain changed v' where up: "apply_update name is_active now v = (changed, v')" by (rule prod.exhaust)
  note spec = apply_update_spec [OF up]
  have id: "rv_id v = i" using v(1) by (auto simp: get_row dest: row_by_SomeD(2))
  from rest obtain d1 where d1: "if changed then vr_save R v' db = Inr d1 else d1 = db"
    and au: "audit_add (value_audit (py_lower ty @ ''.updated'') ty (rv_id v') (Some (audit_snapshot v))
       (audit_snapshot v') actor rid ih) d1 = Inr db'" and res: "res = \<lparr>vm_value = v', vm_changed = changed\<rparr>"
    unfolding up by (cases changed) (auto simp: succeeds)
  from d1 spec(8) have "if changed then vr_save R v' db = Inr d1 else d1 = db \<and> v' = v" by simp
  note view = save_then_audit [OF assms(1) v(1) trans [OF spec(3) id] spec(5) this au]
  then obtain e where "audit_logs db' = audit_logs db @ [e]"
    "logged (value_audit (py_lower ty @ ''.updated'') ty (rv_id v') (Some (audit_snapshot v))
       (audit_snapshot v') actor rid ih) e" by blast
  with view show thesis
    using spec(3) id by (intro that [OF v, of e]) (simp_all add: res up)
qed

lemma archive_value:
  assumes "wf_db db" and "archive_reference_value R ty now i actor rid ih db = (Inr v', db')"
  obtains v e where "vr_get_for_update R i db = Some v" and "\<not> is_archived v" and "v' = archive now v"
    and "rows db' = put_row rv_id i (\<lambda>_. v') (rows db)"
    and "wf_db db'" and "only_catalogue db db'" and "audit_logs db' = audit_logs db @ [e]"
    and "logged (value_audit (py_lower ty @ ''.archived'') ty i (Some (audit_snapshot v)) (audit_snapshot v') actor rid ih) e"
proof -
  from assms(2) obtain v d1 where v: "vr_get_for_update R i db = Some v" "\<not> is_archived v" and v': "v' = archive now v"
    and d1: "vr_save R v' db = Inr d1"
    and au: "audit_add (value_audit (py_lower ty @ ''.archived'') ty (rv_id v') (Some (audit_snapshot v))
       (audit_snapshot v') actor rid ih) d1 = Inr db'"
    by (auto simp: archive_reference_value_def succeeds Let_def split: option.splits if_splits)
  have id: "rv_id v' = i" "rv_created_at v' = rv_created_at v"
    using v(1) by (auto simp: v' get_row dest: row_by_SomeD(2))
  have "if True then vr_save R v' db = Inr d1 else d1 = db \<and> v' = v" using d1 by simp
  note view = save_then_audit [OF assms(1) v(1) id this au]
  then obtain e where "audit_logs db' = audit_logs db @ [e]"
    "logged (value_audit (py_lower ty @ ''.archived'') ty (rv_id v') (Some (audit_snapshot v))
       (audit_snapshot v') actor rid ih) e" by blast
  with view show thesis
    using id by (intro that [OF v v', of e]) simp_all
qed

text \<open>The three commands together: the rows they touch, and what they record.\<close>

lemma update_value_audited:
  assumes "wf_db db" and "update_reference_value R ty now i name is_active actor rid ih db = (Inr res, db')"
  shows "\<exists>v w e. vr_get_for_update R i db = Some v \<and> vr_get_for_update R i db' = Some w \<and> w = vm_value res
    \<and> (\<forall>j. j \<noteq> i \<longrightarrow> vr_get_for_update R j db' = vr_get_for_update R j db)
    \<and> rv_name w = (case name of None \<Rightarrow> rv_name v | Some n \<Rightarrow> n)
    \<and> rv_is_active w = (case is_active of None \<Rightarrow> rv_is_active v | Some a \<Rightarrow> a)
    \<and> rv_deleted_at v = None \<and> rv_deleted_at w = None
    \<and> (vm_changed res \<longleftrightarrow> audit_snapshot w \<noteq> audit_snapshot v)
    \<and> rv_updated_at w = (if vm_changed res then now else rv_updated_at v)
    \<and> audit_logs db' = audit_logs db @ [e]
    \<and> logged (value_audit (py_lower ty @ ''.updated'') ty i (Some (audit_snapshot v)) (audit_snapshot w) actor rid ih) e"
  using assms
proof (rule update_value)
  fix v e
  assume v: "vr_get_for_update R i db = Some v" "\<not> is_archived v"
    and up: "apply_update name is_active now v = (vm_changed res, vm_value res)"
    and rows: "rows db' = put_row rv_id i (\<lambda>_. vm_value res) (rows db)"
    and rest: "audit_logs db' = audit_logs db @ [e]" "logged (value_audit (py_lower ty @ ''.updated'') ty i
      (Some (audit_snapshot v)) (audit_snapshot (vm_value res)) actor rid ih) e"
  note spec = apply_update_spec [OF up]
  have id: "rv_id v = i" using v(1) by (auto simp: get_row dest: row_by_SomeD(2))
  have "vr_get_for_update R j db' = (if j = i then Some (vm_value res) else vr_get_for_update R j db)" for j
    using v(1) spec(3) id by (simp add: get_row rows row_by_replaced)
  moreover have "vm_changed res \<longleftrightarrow> audit_snapshot (vm_value res) \<noteq> audit_snapshot v"
    using spec(4,7) by (auto simp: audit_snapshot_def)
  ultimately show ?thesis
    using v rest spec(1,2,4,6) by (intro exI [of _ v] exI [of _ "vm_value res"] exI [of _ e]) (simp add: is_archived_def)
qed

lemma keeps_value_commands:
  "preserves wf_db (create_reference_value R ty name is_active actor rid ih)"
  "preserves wf_db (update_reference_value R ty now i name' is_active' actor rid ih)"
  "preserves wf_db (archive_reference_value R ty now i actor rid ih)"
  unfolding create_reference_value_def update_reference_value_def archive_reference_value_def Let_def
  by (intro keeps keeps_add keeps_save)+

end

text \<open>The update of a material and of a colour: the same command, the row of either table, and
  the action named after the table.\<close>

theorem update_value_audited_everywhere:
  assumes "wf_db db" and "R = material_repository \<and> ty = ''Material'' \<or> R = colour_repository \<and> ty = ''Colour''"
    and "update_reference_value R ty now i name is_active actor rid ih db = (Inr res, db')"
  shows "\<exists>v w e. vr_get_for_update R i db = Some v \<and> vr_get_for_update R i db' = Some w \<and> w = vm_value res
    \<and> (\<forall>j. j \<noteq> i \<longrightarrow> vr_get_for_update R j db' = vr_get_for_update R j db)
    \<and> rv_name w = (case name of None \<Rightarrow> rv_name v | Some n \<Rightarrow> n)
    \<and> rv_is_active w = (case is_active of None \<Rightarrow> rv_is_active v | Some a \<Rightarrow> a)
    \<and> rv_deleted_at v = None \<and> rv_deleted_at w = None
    \<and> (vm_changed res \<longleftrightarrow> audit_snapshot w \<noteq> audit_snapshot v)
    \<and> rv_updated_at w = (if vm_changed res then now else rv_updated_at v)
    \<and> audit_logs db' = audit_logs db @ [e]
    \<and> logged (value_audit (py_lower ty @ ''.updated'') ty i (Some (audit_snapshot v)) (audit_snapshot w) actor rid ih) e"
  using assms(2)
proof
  assume "R = material_repository \<and> ty = ''Material''"
  with assms(1,3) material_table.update_value_audited show ?thesis by blast
next
  assume "R = colour_repository \<and> ty = ''Colour''"
  with assms(1,3) colour_table.update_value_audited show ?thesis by blast
qed

lemmas [keeps] = material_table.keeps_value_commands colour_table.keeps_value_commands

end
