(* ===== verification/Notification_Centre.thy ===== *)
theory Notification_Centre
  imports Api_Boundary Keyset_Paging Page_Cursors
begin

text \<open>
  A customer's notifications: engagement/infrastructure/repositories.py, the write port
  \<open>create_notification\<close> of engagement/application/services/notification_writer.py, and the two
  routes of engagement/api/notifications.py with their schemas.
\<close>

section \<open>The repository\<close>

definition notification_by_id :: "uuid \<Rightarrow> database \<Rightarrow> notification option" where
  "notification_by_id i db = row_by nt_id i (notifications db)"

definition notification_add ::
  "uuid \<Rightarrow> notification_type \<Rightarrow> (string \<times> pyval) list \<Rightarrow> database \<Rightarrow> app_error + notification \<times> database" where
  "notification_add user_id ty payload db =
     (if user_by_id user_id db = None \<or> notification_by_id (next_uuid db) db \<noteq> None then Inl IntegrityError
      else let n = \<lparr>nt_id = next_uuid db, nt_user_id = user_id, nt_type = ty, nt_payload = payload,
             nt_read_at = None, nt_created_at = tx_now db\<rparr>
           in Inr (n, (drawn db)\<lparr>notifications := notifications db @ [n]\<rparr>))"

definition notification_key :: "notification \<Rightarrow> timestamp \<times> uuid" where
  "notification_key n = (nt_created_at n, nt_id n)"

definition notification_matches :: "uuid \<Rightarrow> bool option \<Rightarrow> notification \<Rightarrow> bool" where
  "notification_matches user_id read n = (nt_user_id n = user_id
     \<and> (case read of None \<Rightarrow> True | Some True \<Rightarrow> nt_read_at n \<noteq> None | Some False \<Rightarrow> nt_read_at n = None))"

definition notification_list_page ::
  "uuid \<Rightarrow> bool option \<Rightarrow> database \<Rightarrow> nat \<Rightarrow> (timestamp \<times> uuid) option \<Rightarrow> notification list" where
  "notification_list_page user_id read db limit after =
     take limit (rev (sort_key notification_key (filter
       (\<lambda>n. notification_matches user_id read n
          \<and> (case after of None \<Rightarrow> True | Some k \<Rightarrow> notification_key n < k)) (notifications db))))"

text \<open>\<open>UPDATE ... WHERE id = ... AND user_id = ... RETURNING\<close>, with \<open>COALESCE(read_at, now())\<close> for
  marking read.\<close>

definition own_notification :: "uuid \<Rightarrow> uuid \<Rightarrow> notification \<Rightarrow> bool" where
  "own_notification notification_id user_id n = (nt_id n = notification_id \<and> nt_user_id n = user_id)"

definition read_marked :: "bool \<Rightarrow> timestamp \<Rightarrow> notification \<Rightarrow> notification" where
  "read_marked read now n = n\<lparr>nt_read_at := (if read
     then Some (case nt_read_at n of None \<Rightarrow> now | Some t \<Rightarrow> t) else None)\<rparr>"

definition set_read_state :: "uuid \<Rightarrow> uuid \<Rightarrow> bool \<Rightarrow> database \<Rightarrow> notification option \<times> database" where
  "set_read_state notification_id user_id read db =
     (map_option (read_marked read (tx_now db)) (find (own_notification notification_id user_id) (notifications db)),
      db\<lparr>notifications := update_where (own_notification notification_id user_id)
           (read_marked read (tx_now db)) (notifications db)\<rparr>)"

section \<open>The write port\<close>

definition create_notification ::
  "(int \<Rightarrow> int \<Rightarrow> string) \<Rightarrow> uuid \<Rightarrow> notification_type \<Rightarrow> pyval \<Rightarrow> notification cmd" where
  "create_notification fl user_id ty payload =
     andthen (from_entity (map_sum Engagement id (validate_payload fl payload))) (\<lambda>validated.
     insert_row (notification_add user_id ty validated))"

section \<open>The routes\<close>

record notification_read =
  nr_id :: uuid
  nr_type :: notification_type
  nr_payload :: "(string \<times> pyval) list"
  nr_read :: bool
  nr_created_at :: timestamp

record notification_page =
  np_items :: "notification_read list"
  np_next_cursor :: "string option"

definition from_notification :: "notification \<Rightarrow> notification_read" where
  "from_notification n = \<lparr>nr_id = nt_id n, nr_type = nt_type n, nr_payload = nt_payload n,
     nr_read = is_read n, nr_created_at = nt_created_at n\<rparr>"

definition decode_notification_cursor :: "string option \<Rightarrow> failure + (timestamp \<times> uuid) option" where
  "decode_notification_cursor raw = (case raw of None \<Rightarrow> Inr None
     | Some r \<Rightarrow> (case parse_notification_cursor r of None \<Rightarrow> Inl validation_error | Some k \<Rightarrow> Inr (Some k)))"

definition list_notifications ::
  "app \<Rightarrow> timestamp \<Rightarrow> request \<Rightarrow> string option \<Rightarrow> nat \<Rightarrow> bool option \<Rightarrow> notification_page route" where
  "list_notifications A now rq cursor limit read =
     depends (\<lambda>w. current_user A now rq (w_db w)) (\<lambda>u.
     valid_body (1 \<le> limit \<and> limit \<le> 100) (\<lambda>w.
       (case decode_notification_cursor cursor of
          Inl f \<Rightarrow> (Inl f, w)
        | Inr after \<Rightarrow>
            (case page_of limit (notification_list_page (u_id u) read (w_db w)) notification_key after of
               (page, next) \<Rightarrow> (Inr \<lparr>an_status = 200, an_headers = [], an_cookies = [],
                  an_body = \<lparr>np_items = map from_notification page,
                    np_next_cursor = map_option encode_notification_cursor next\<rparr>\<rparr>, w)))))"

definition set_notification_read_state :: "app \<Rightarrow> timestamp \<Rightarrow> request \<Rightarrow> uuid \<Rightarrow> bool \<Rightarrow> notification_read route" where
  "set_notification_read_state A now rq notification_id read =
     depends (\<lambda>w. require_csrf A now rq (w_db w)) (\<lambda>_.
     depends (\<lambda>w. current_verified_user A now rq (w_db w)) (\<lambda>u w.
       (case set_read_state notification_id (u_id u) read (w_db w) of
          (None, db') \<Rightarrow> (Inl not_found_error, w)
        | (Some n, db') \<Rightarrow> (Inr \<lparr>an_status = 200, an_headers = [], an_cookies = [],
             an_body = from_notification n\<rparr>, w\<lparr>w_db := db'\<rparr>))))"

section \<open>The schema\<close>

lemma read_marked_fields [simp]:
  "nt_id (read_marked r t n) = nt_id n" "nt_user_id (read_marked r t n) = nt_user_id n"
  "nt_type (read_marked r t n) = nt_type n" "nt_payload (read_marked r t n) = nt_payload n"
  "nt_created_at (read_marked r t n) = nt_created_at n" "is_read (read_marked r t n) = r"
  by (simp_all add: read_marked_def is_read_def)

lemma read_marked_again [simp]: "read_marked r t' (read_marked r t n) = read_marked r t n"
  by (simp add: read_marked_def)

lemma keeps_notification [keeps]:
  "preserves wf_db (create_notification fl user_id ty payload)"
  "preserves wf_db (bulk (set_read_state i user_id r))"
proof -
  have "preserves wf_db (insert_row (notification_add user_id ty d))" for d
    by (rule preserves_insert)
      (auto simp: notification_add_def wf_db_def notification_by_id_def user_by_id_def row_by_None_iff Let_def
        dest!: row_by_SomeD split: if_splits)
  then show "preserves wf_db (create_notification fl user_id ty payload)"
    unfolding create_notification_def by (intro keeps)
  show "preserves wf_db (bulk (set_read_state i user_id r))"
    by (rule preserves_bulk) (auto simp: set_read_state_def wf_db_def elim!: set_update_whereE)
qed

section \<open>Read state\<close>

lemma find_own:
  assumes "wf_db db" and "n \<in> set (notifications db)" and "own_notification i user_id n"
  shows "find (own_notification i user_id) (notifications db) = Some n"
proof -
  obtain m where m: "find (own_notification i user_id) (notifications db) = Some m"
    using assms(2,3) by (cases "find (own_notification i user_id) (notifications db)") (auto simp: find_None_iff)
  then have "m \<in> set (notifications db)" "own_notification i user_id m" by (auto simp: find_Some_iff)
  with assms have "m = n" by (auto simp: wf_db_def own_notification_def distinct_map inj_on_def)
  with m show ?thesis by simp
qed

lemma set_read_state_missing:
  assumes "\<not> (\<exists>n \<in> set (notifications db). own_notification i user_id n)"
  shows "set_read_state i user_id r db = (None, db)"
proof -
  have "update_where (own_notification i user_id) f (notifications db) = notifications db" for f
    using assms by (auto simp: update_where_def intro: map_idI)
  moreover have "find (own_notification i user_id) (notifications db) = None"
    using assms by (auto simp: find_None_iff)
  ultimately show ?thesis by (simp add: set_read_state_def)
qed

text \<open>C29: Marking a notification changes at most that row of its owner, in its read time only; the time
  of the first reading stays, repeating the call at any later time changes nothing, and a
  notification of somebody else is as good as none.\<close>

theorem read_state_owned_and_idempotent:
  assumes "wf_db db" and "set_read_state i user_id r db = (out, db')"
  shows "(out = None \<longleftrightarrow> \<not> (\<exists>n \<in> set (notifications db). nt_id n = i \<and> nt_user_id n = user_id))
    \<and> (out = None \<longrightarrow> db' = db)
    \<and> (\<forall>n'. out = Some n' \<longrightarrow> (\<exists>n. notification_by_id i db = Some n \<and> nt_user_id n = user_id
         \<and> notification_by_id i db' = Some n' \<and> n' = n\<lparr>nt_read_at := nt_read_at n'\<rparr> \<and> is_read n' = r
         \<and> (is_read n \<and> r \<longrightarrow> nt_read_at n' = nt_read_at n)
         \<and> (\<forall>j. j \<noteq> i \<longrightarrow> notification_by_id j db' = notification_by_id j db)
         \<and> (\<forall>t. set_read_state i user_id r (db'\<lparr>tx_now := t\<rparr>) = (Some n', db'\<lparr>tx_now := t\<rparr>))))"
proof (cases "\<exists>n \<in> set (notifications db). own_notification i user_id n")
  case False
  from set_read_state_missing [OF this] assms(2) have "out = None" "db' = db" by simp_all
  with False show ?thesis by (auto simp: own_notification_def)
next
  case True
  then obtain n where n: "n \<in> set (notifications db)" "own_notification i user_id n" by blast
  let ?n = "read_marked r (tx_now db) n"
  from assms find_own [OF assms(1) n] have out: "out = Some ?n"
    and db': "db' = db\<lparr>notifications := update_where (own_notification i user_id) (read_marked r (tx_now db)) (notifications db)\<rparr>"
    by (simp_all add: set_read_state_def)
  have own: "own_notification i user_id (read_marked r t m) = own_notification i user_id m" for t m
    by (simp add: own_notification_def)
  have row: "notification_by_id j db'
      = map_option (\<lambda>m. if own_notification i user_id m then read_marked r (tx_now db) m else m) (notification_by_id j db)" for j
    by (simp add: notification_by_id_def db' row_by_update_where)
  have uniq: "notification_by_id i db = Some n"
    using n assms(1) by (auto simp: notification_by_id_def own_notification_def wf_db_def intro: row_by_unique)
  have "m \<in> set (notifications db) \<and> nt_id m = j" if "notification_by_id j db = Some m" for m j
    using that by (auto simp: notification_by_id_def dest: row_by_SomeD)
  then have other: "notification_by_id j db' = notification_by_id j db" if "j \<noteq> i" for j
    using that by (cases "notification_by_id j db") (auto simp: row own_notification_def)
  have "wf_db db'"
    using preservesD [OF keeps_notification(2) [of i user_id r], of db "Inr out" db'] assms by (simp add: bulk_def)
  moreover have "?n \<in> set (notifications db')" using n by (auto simp: db' update_where_def)
  ultimately have "find (own_notification i user_id) (notifications db') = Some ?n"
    using n(2) own by (intro find_own) auto
  moreover have "update_where (own_notification i user_id) (read_marked r t) (notifications db') = notifications db'" for t
    by (auto simp: db' update_where_def own)
  ultimately have "set_read_state i user_id r (db'\<lparr>tx_now := t\<rparr>) = (Some ?n, db'\<lparr>tx_now := t\<rparr>)" for t
    by (simp add: set_read_state_def)
  moreover have "notification_by_id i db' = Some ?n" using uniq n by (simp add: row)
  moreover have "?n = n\<lparr>nt_read_at := nt_read_at ?n\<rparr>" "is_read n \<and> r \<longrightarrow> nt_read_at ?n = nt_read_at n"
    by (auto simp: read_marked_def is_read_def)
  ultimately show ?thesis using uniq other n by (auto simp: out own_notification_def)
qed

text \<open>The route: a notification of another customer and an id that does not exist get the same 404
  with nothing written, and no route call changes a notification of anyone but the caller.\<close>

theorem foreign_notification_is_missing:
  assumes "set_notification_read_state A now rq i r w = (out, w')"
  shows "(\<forall>u c. require_csrf A now rq (w_db w) = Inr c \<and> current_verified_user A now rq (w_db w) = Inr u
        \<and> (\<forall>n \<in> set (notifications (w_db w)). nt_id n = i \<longrightarrow> nt_user_id n \<noteq> u_id u)
        \<longrightarrow> out = Inl not_found_error \<and> w' = w)
    \<and> (\<forall>n \<in> set (notifications (w_db w)). n \<notin> set (notifications (w_db w')) \<longrightarrow>
         nt_id n = i \<and> (\<exists>u. current_verified_user A now rq (w_db w) = Inr u \<and> u_id u = nt_user_id n))"
proof (cases "\<exists>c u. require_csrf A now rq (w_db w) = Inr c \<and> current_verified_user A now rq (w_db w) = Inr u")
  case False
  with assms have "w' = w"
    by (auto simp: set_notification_read_state_def depends_def split: sum.splits)
  with False show ?thesis by auto
next
  case True
  then obtain c u where ok: "require_csrf A now rq (w_db w) = Inr c" "current_verified_user A now rq (w_db w) = Inr u"
    by blast
  obtain x db' where st: "set_read_state i (u_id u) r (w_db w) = (x, db')" by (rule prod.exhaust)
  from assms ok st have out: "(out, w') = (case x of None \<Rightarrow> (Inl not_found_error, w)
      | Some n \<Rightarrow> (Inr \<lparr>an_status = 200, an_headers = [], an_cookies = [], an_body = from_notification n\<rparr>, w\<lparr>w_db := db'\<rparr>))"
    by (simp add: set_notification_read_state_def depends_def split: option.splits)
  have "x = None" if "\<forall>n \<in> set (notifications (w_db w)). nt_id n = i \<longrightarrow> nt_user_id n \<noteq> u_id u"
    using st set_read_state_missing [of "w_db w" i "u_id u" r] that by (auto simp: own_notification_def)
  moreover have "nt_id n = i \<and> u_id u = nt_user_id n"
    if "n \<in> set (notifications (w_db w))" "n \<notin> set (notifications db')" for n
    using st that by (force simp: set_read_state_def update_where_def own_notification_def)
  ultimately show ?thesis
    using out ok by (cases x) auto
qed

section \<open>The list\<close>

definition matching_notifications :: "uuid \<Rightarrow> bool option \<Rightarrow> database \<Rightarrow> notification list" where
  "matching_notifications user_id read db =
     rev (sort_key notification_key (filter (notification_matches user_id read) (notifications db)))"

lemma notification_matches_iff:
  "notification_matches user_id read n \<longleftrightarrow> nt_user_id n = user_id \<and> (read = None \<or> read = Some (is_read n))"
  by (cases read) (auto simp: notification_matches_def is_read_def split: bool.split)

lemma distinct_notification_keys:
  "wf_db db \<Longrightarrow> distinct (map notification_key (filter P (notifications db)))"
  by (auto simp: wf_db_def distinct_map inj_on_def notification_key_def)

interpretation notification_list: keyset notification_key "\<lambda>k n. notification_key n < k"
    "notification_list_page user_id read" "matching_notifications user_id read" wf_db
proof unfold_locales
  show "notification_list_page user_id read db n None = take n (matching_notifications user_id read db)" for db n
    by (simp add: notification_list_page_def matching_notifications_def)
  show "notification_list_page user_id read db n (Some (notification_key r))
      = take n (filter (\<lambda>m. notification_key m < notification_key r) (matching_notifications user_id read db))" for db n r
    by (simp add: notification_list_page_def matching_notifications_def conj_commute flip: rev_filter filter_sort)
  show "wf_db db \<Longrightarrow> sorted_wrt (apart notification_key (\<lambda>k n. notification_key n < k)) (matching_notifications user_id read db)" for db
    unfolding matching_notifications_def by (rule rev_sort_apart) (rule distinct_notification_keys)
qed simp

text \<open>The texts of the route: the stored instants are those a \<open>datetime\<close> can hold.\<close>

definition cursor_times_ok :: "uuid \<Rightarrow> database \<Rightarrow> bool" where
  "cursor_times_ok user_id db \<longleftrightarrow> (\<forall>n \<in> set (notifications db). nt_user_id n = user_id \<longrightarrow> representable (nt_created_at n))"

interpretation notification_texts: text_keyset notification_key "\<lambda>k n. notification_key n < k"
    "notification_list_page user_id read" "matching_notifications user_id read"
    "\<lambda>db. wf_db db \<and> cursor_times_ok user_id db" encode_notification_cursor parse_notification_cursor
proof unfold_locales
  show "parse_notification_cursor (encode_notification_cursor (notification_key r)) = Some (notification_key r)"
    if "wf_db db \<and> cursor_times_ok user_id db" and "r \<in> set (matching_notifications user_id read db)" for db r
    using that user_cursor_roundtrip [of "nt_created_at r" "nt_id r"]
    by (auto simp: matching_notifications_def notification_matches_def cursor_times_ok_def notification_key_def same_cursors)
qed (auto intro: notification_list.first_page notification_list.next_page notification_list.in_order)

definition notification_page_at ::
  "app \<Rightarrow> timestamp \<Rightarrow> request \<Rightarrow> nat \<Rightarrow> bool option \<Rightarrow> world \<Rightarrow> string option \<Rightarrow> (notification_read list \<times> string option) option" where
  "notification_page_at A now rq limit read w cursor = (case fst (list_notifications A now rq cursor limit read w) of
       Inl f \<Rightarrow> None | Inr a \<Rightarrow> Some (np_items (an_body a), np_next_cursor (an_body a)))"

lemma notification_route_page:
  assumes "current_user A now rq (w_db w) = Inr u" and "1 \<le> limit" and "limit \<le> 100"
    and "notification_texts.reads c k"
  shows "notification_page_at A now rq limit read w c = Some (answered from_notification encode_notification_cursor
      (page_of limit (notification_list_page (u_id u) read (w_db w)) notification_key k))"
proof -
  have "decode_notification_cursor c = Inr k"
    using assms(4) by (cases c; cases k) (auto simp: notification_texts.reads_def decode_notification_cursor_def)
  with assms(1-3) show ?thesis
    by (simp add: notification_page_at_def list_notifications_def depends_def valid_body_def answered_def split: prod.split)
qed

text \<open>C30: A customer who follows the cursors of the route is shown every own notification with the read
  state asked for exactly once, newest first, nobody else's, and reaches the end.\<close>

theorem notification_list_complete:
  assumes "wf_db (w_db w)" and "current_user A now rq (w_db w) = Inr u" and "1 \<le> limit" and "limit \<le> 100"
    and "length (notifications (w_db w)) < fuel * limit" and "cursor_times_ok (u_id u) (w_db w)"
  shows "\<exists>pages. follow_route fuel (notification_page_at A now rq limit read w) None = Some (map (map from_notification) pages)
    \<and> (\<forall>p \<in> set pages. length p \<le> limit) \<and> distinct (concat pages)
    \<and> set (concat pages) = {n \<in> set (notifications (w_db w)). nt_user_id n = u_id u \<and> (read = None \<or> read = Some (is_read n))}
    \<and> sorted_wrt (\<lambda>a b. notification_key b < notification_key a) (concat pages)"
proof -
  let ?M = "matching_notifications (u_id u) read (w_db w)"
  have "length ?M \<le> length (notifications (w_db w))"
    and all: "set ?M = {n \<in> set (notifications (w_db w)). nt_user_id n = u_id u \<and> (read = None \<or> read = Some (is_read n))}"
    by (auto simp: matching_notifications_def notification_matches_iff)
  with assms(5) have few: "length ?M < fuel * limit" by simp
  have sorted: "sorted_wrt (\<lambda>a b. notification_key b < notification_key a) ?M"
    unfolding matching_notifications_def by (rule rev_sort_descending) (rule distinct_notification_keys [OF assms(1)])
  show ?thesis
    using assms(1,3,6)
    by (intro notification_texts.route_complete [OF _ _ few all sorted] notification_route_page [OF assms(2-4)]) auto
qed

section \<open>Creation\<close>

text \<open>The write port stores exactly the valid payloads, unread and stamped with the time of the
  transaction, and writes nothing when it refuses one.\<close>

theorem create_notification_exact:
  assumes "user_by_id user_id db \<noteq> None" and "notification_by_id (next_uuid db) db = None"
  shows "case validate_payload fl payload of
      Inl e \<Rightarrow> create_notification fl user_id ty payload db = (Inl (Engagement e), db)
    | Inr d \<Rightarrow> \<exists>n db'. create_notification fl user_id ty payload db = (Inr n, db')
        \<and> notifications db' = notifications db @ [n] \<and> nt_user_id n = user_id \<and> nt_type n = ty
        \<and> PDict (nt_payload n) = payload \<and> \<not> is_read n \<and> nt_created_at n = tx_now db"
proof (cases "validate_payload fl payload")
  case (Inl e)
  then show ?thesis by (simp add: create_notification_def cmd_simps)
next
  case (Inr d)
  moreover have "payload = PDict d"
    using Inr by (auto simp: validate_payload_def Let_def split: pyval.splits if_splits)
  ultimately show ?thesis
    using assms by (auto simp: create_notification_def cmd_simps notification_add_def is_read_def Let_def)
qed

end
