(* ===== verification/Table_History.thy ===== *)
theory Table_History
  imports Auth_Routes Mfa_Routes Jobs Catalogue_Commands Notification_Centre
begin

text \<open>
  What one transaction of the service can do to accounts and sessions: epochs do not fall, sessions
  stay and stay revoked, and no account appears but through registration.  Every command is shown to
  keep to that, and the commands that leave both tables alone are collected as \<open>frames\<close>.
\<close>

definition committed :: "(app_error \<Rightarrow> bool) \<Rightarrow> 'a cmd \<Rightarrow> database \<Rightarrow> database" where
  "committed cm c db = snd (in_transaction cm c db)"

section \<open>How tables evolve\<close>

text \<open>Epochs do not fall; as long as its owner exists a session stays, and it stays revoked.\<close>

definition continues :: "session \<Rightarrow> session \<Rightarrow> bool" where
  "continues s s' = (s_id s' = s_id s \<and> s_user_id s' = s_user_id s \<and> (is_revoked s \<longrightarrow> is_revoked s'))"

definition history :: "database \<Rightarrow> database \<Rightarrow> bool" where
  "history db db' \<longleftrightarrow>
     (\<forall>i u u'. user_by_id i db = Some u \<and> user_by_id i db' = Some u' \<longrightarrow> u_auth_epoch u \<le> u_auth_epoch u')
   \<and> (\<forall>s \<in> set (sessions db). user_by_id (s_user_id s) db' \<noteq> None
        \<longrightarrow> (\<exists>s' \<in> set (sessions db'). continues s s'))"

lemma continues_refl [simp]: "continues s s"
  by (simp add: continues_def)

lemma history_same_users:
  assumes "users db' = users db"
    and "\<And>s. s \<in> set (sessions db) \<Longrightarrow> \<exists>s' \<in> set (sessions db'). continues s s'"
  shows "history db db'"
  using assms by (auto simp: history_def user_by_id_def)

lemma history_same_sessions:
  assumes "sessions db' = sessions db"
    and "\<And>i u u'. user_by_id i db = Some u \<Longrightarrow> user_by_id i db' = Some u' \<Longrightarrow> u_auth_epoch u \<le> u_auth_epoch u'"
  shows "history db db'"
  using assms unfolding history_def by (metis continues_refl)

lemma history_refl: "users db' = users db \<Longrightarrow> sessions db' = sessions db \<Longrightarrow> history db db'"
  by (rule history_same_sessions) (auto simp: user_by_id_def)

lemma history_new_session:
  assumes "users db' = users db" and "sessions db' = sessions db @ [s0]"
  shows "history db db'"
  by (rule history_same_users) (use assms in \<open>auto intro: continues_refl\<close>)

lemma history_session_save:
  assumes "wf_db db" and "session_save e db = Inr db'" and "session_by_id (s_id e) db = Some s"
    and "is_revoked s \<Longrightarrow> is_revoked e"
  shows "history db db'"
proof (rule history_same_users)
  fix a
  assume a: "a \<in> set (sessions db)"
  from assms(2) have db': "sessions db' = put_row s_id (s_id e) (session_stored db e) (sessions db)"
    by (auto simp: session_save_def split: option.splits if_splits)
  show "\<exists>s' \<in> set (sessions db'). continues a s'"
  proof (cases "s_id a = s_id e")
    case True
    from assms(3) have "s \<in> set (sessions db)" "s_id s = s_id e"
      by (auto simp: session_by_id_def dest: row_by_SomeD)
    with a True assms(1) have "a = s" by (auto simp: wf_db_def distinct_map inj_on_def)
    with assms(4) have "continues a (session_stored db e a)"
      by (simp add: continues_def session_stored_def is_revoked_def)
    then show ?thesis using a True by (auto simp: db' put_row_def)
  next
    case False
    then have "a \<in> set (sessions db')" using a by (auto simp: db' put_row_def)
    then show ?thesis using continues_refl by blast
  qed
qed (use assms(2,3) in \<open>auto simp: session_save_def split: if_splits\<close>)

lemma history_revoke_all:
  assumes "users db' = users db" and "sessions db' = sessions (snd (revoke_all_for_user i now db))"
  shows "history db db'"
proof (rule history_same_users)
  fix s
  assume s: "s \<in> set (sessions db)"
  let ?s' = "if live_of i s then s\<lparr>s_revoked_at := Some now\<rparr> else s"
  have "?s' \<in> set (sessions db')"
    using s unfolding assms(2) by (auto simp: revoke_all_for_user_def update_where_def)
  moreover have "continues s ?s'" by (simp add: continues_def is_revoked_def)
  ultimately show "\<exists>s' \<in> set (sessions db'). continues s s'" by blast
qed (rule assms(1))

section \<open>What each transaction does to accounts and sessions\<close>

definition evolves :: "uuid set \<Rightarrow> database \<Rightarrow> database \<Rightarrow> bool" where
  "evolves ids db db' \<longleftrightarrow> wf_db db' \<and> history db db'
     \<and> (\<forall>i \<in> ids. user_by_id i db = None \<longrightarrow> user_by_id i db' = None)"

lemma evolves_same:
  assumes "wf_db db" and "wf_db db'" and "users db' = users db" and "sessions db' = sessions db"
  shows "evolves ids db db'"
  using assms by (auto simp: evolves_def user_by_id_def intro: history_refl)

lemma committed_plain:
  assumes "\<And>a db'. c db = (Inr a, db') \<Longrightarrow> P db'" and "\<And>n. P (db\<lparr>gen_ctr := n\<rparr>)"
  shows "P (committed (\<lambda>_. False) c db)"
  using assms by (auto simp: committed_def in_transaction_def split: prod.splits sum.splits)

lemma committed_evolves:
  assumes "wf_db db" and "preserves wf_db c"
    and "\<And>a db'. c db = (Inr a, db') \<Longrightarrow> wf_db db' \<Longrightarrow> evolves ids db db'"
  shows "evolves ids db (committed (\<lambda>_. False) c db)"
proof (rule committed_plain [where P = "evolves ids db"])
  fix a db'
  assume c: "c db = (Inr a, db')"
  from preservesD [OF assms(2) c assms(1)] have "wf_db db'" .
  with c assms(3) show "evolves ids db db'" by blast
qed (rule evolves_same, use assms(1) in simp_all)

text \<open>Commands that leave both tables alone.\<close>

definition same_core :: "database \<Rightarrow> database \<Rightarrow> bool" where
  "same_core db db' = (users db' = users db \<and> sessions db' = sessions db)"

named_theorems frames \<open>commands that leave accounts and sessions alone\<close>

lemmas [frames] = preserves_ret preserves_raise preserves_query preserves_from_entity preserves_andthen
  preserves_if preserves_case_option preserves_case_prod

lemma frames_statements [frames]:
  "preserves (same_core db0) (exec (vt_add i h e))" "preserves (same_core db0) (exec (vt_save v))"
  "preserves (same_core db0) (exec (rt_add i h e))" "preserves (same_core db0) (exec (rt_save r))"
  "preserves (same_core db0) (exec (mc_add i m ct))" "preserves (same_core db0) (exec (mc_save c))"
  "preserves (same_core db0) (exec (rc_save rc))" "preserves (same_core db0) (exec (rc_add_set i hs))"
  "preserves (same_core db0) (bulk (rc_delete_unused i))"
  "preserves (same_core db0) (exec (outbox_add o1 rcpt tm pl))" "preserves (same_core db0) (exec (audit_add a))"
  by (rule preserves_exec preserves_bulk, auto simp: same_core_def vt_add_def vt_save_def rt_add_def rt_save_def
      mc_add_def mc_save_def rc_save_def rc_delete_unused_def outbox_add_def audit_add_def
      dest!: rc_add_set_tables split: if_splits option.splits)+

lemma frames_evolves:
  assumes "preserves (same_core db) c" and "c db = (Inr a, db')" and "wf_db db" and "wf_db db'"
  shows "evolves ids db db'"
  using assms by (intro evolves_same) (auto simp: preserves_def same_core_def dest!: spec [of _ db])

lemma frames_commands:
  "preserves (same_core db0) (resend_verification A now raw email rid ih)"
  "preserves (same_core db0) (request_password_reset A now raw email rid ih)"
  "preserves (same_core db0) (mfa_setup A secret nonce i pw rid ih)"
  "preserves (same_core db0) (mfa_confirm_setup A now draws i code rid ih)"
  "preserves (same_core db0) (mfa_regenerate_recovery_codes A now draws i pw rid ih)"
  unfolding resend_verification_def request_password_reset_def mfa_setup_def mfa_confirm_setup_def
    mfa_regenerate_recovery_codes_def issue_verification_email_def issue_password_reset_email_def
    perform_dummy_hash_def Let_def
  by (intro frames | auto intro!: frames split: argon2_outcome.split)+

lemma frames_back_office:
  "preserves (same_core db0) (update_setting now key v actor rid ih)"
  "preserves (same_core db0) (create_category name slug act actor rid ih)"
  "preserves (same_core db0) (update_category now i name' slug' act' actor rid ih)"
  "preserves (same_core db0) (archive_category now i actor rid ih)"
  "preserves (same_core db0) (create_notification fl i ty payload)"
  "preserves (same_core db0) (bulk (set_read_state i j r))"
proof -
  have save: "preserves (same_core db0) (exec (setting_save s))" "preserves (same_core db0) (exec (category_save c))"
    for s c
    by (rule preserves_exec, auto simp: same_core_def dest!: setting_save_frame category_save_frame(1))+
  have add: "preserves (same_core db0) (insert_row (category_add n s b))"
    "preserves (same_core db0) (insert_row (notification_add i ty d))" for n s b d
    by (rule preserves_insert, auto simp: same_core_def category_add_def notification_add_def Let_def split: if_splits)+
  note [frames] = save add preserves_platform preserves_catalog
  show "preserves (same_core db0) (update_setting now key v actor rid ih)"
    unfolding update_setting_def by (intro frames)
  show "preserves (same_core db0) (create_category name slug act actor rid ih)"
    unfolding create_category_def by (intro frames)
  show "preserves (same_core db0) (update_category now i name' slug' act' actor rid ih)"
    unfolding update_category_def by (intro frames)
  show "preserves (same_core db0) (archive_category now i actor rid ih)"
    unfolding archive_category_def Let_def by (intro frames)
  show "preserves (same_core db0) (create_notification fl i ty payload)"
    unfolding create_notification_def by (intro frames)
  show "preserves (same_core db0) (bulk (set_read_state i j r))"
    by (rule preserves_bulk) (simp add: same_core_def set_read_state_def)
qed

context value_store
begin

lemma frames_values:
  "preserves (same_core db0) (create_reference_value R ty name act actor rid ih)"
  "preserves (same_core db0) (update_reference_value R ty now i name' act' actor rid ih)"
  "preserves (same_core db0) (archive_reference_value R ty now i actor rid ih)"
proof -
  have "preserves (same_core db0) (exec (vr_save R v))" for v
    by (rule preserves_exec) (auto simp: same_core_def only_catalogue_def dest!: save_frame)
  moreover have "preserves (same_core db0) (insert_row (vr_add R n b))" for n b
    by (rule preserves_insert) (auto simp: same_core_def only_catalogue_def dest!: add_frame)
  moreover note [frames] = calculation
  show "preserves (same_core db0) (create_reference_value R ty name act actor rid ih)"
    "preserves (same_core db0) (update_reference_value R ty now i name' act' actor rid ih)"
    "preserves (same_core db0) (archive_reference_value R ty now i actor rid ih)"
    unfolding create_reference_value_def update_reference_value_def archive_reference_value_def Let_def
    by (intro frames)+
qed

end

lemma frames_mfa_verify: "preserves (same_core db0) (mfa_verify A now i code rcode rid ih)"
  unfolding mfa_verify_def verify_recovery_def verify_totp_def Let_def
  by (intro frames)

lemma keeps_resend: "preserves wf_db (resend_verification A now raw email rid ih)"
  unfolding resend_verification_def perform_dummy_hash_def Let_def
  by (intro keeps | auto intro!: keeps split: argon2_outcome.split)+

lemma evolves_new_user:
  assumes "wf_db db" and "wf_db db'" and "users db' = users db @ [u]" and "u_id u \<notin> ids"
    and "sessions db' = sessions db"
  shows "evolves ids db db'"
proof -
  have "user_by_id i db' = user_by_id i db" if "user_by_id i db \<noteq> None \<or> i \<noteq> u_id u" for i
    using that assms(3) by (auto simp: user_by_id_def row_by_append split: option.splits)
  moreover have "history db db'"
    using calculation by (intro history_same_sessions [OF assms(5)]) force
  ultimately show ?thesis
    using assms(2,4) unfolding evolves_def by (metis (no_types))
qed

lemma register_users:
  assumes "register_user A now salt raw email pw rid ih db = (Inr (), db')"
  shows "sessions db' = sessions db \<and> (users db' = users db \<or> (\<exists>u. users db' = users db @ [u] \<and> u_id u = next_uuid db))"
proof (cases "user_by_email email db")
  case None
  with assms obtain u d1 d2 where add: "user_add email (hash_password (app_lib A) salt pw) db = Inr (u, d1)"
    and iss: "issue_verification_email A now raw u d1 = (Inr (), d2)"
    and aud: "audit_add (audit_user u ''user.registered'' rid ih) d2 = Inr db'"
    by (auto simp: register_user_def Let_def succeeds)
  from add have "users d1 = users db @ [u]" "u_id u = next_uuid db" "sessions d1 = sessions db"
    by (auto simp: user_add_def Let_def split: if_splits)
  with audit_tables(1,2) [OF aud] issue_verification_email_effect(1,2) [OF iss] show ?thesis by auto
next
  case (Some u)
  with assms show ?thesis
    by (auto simp: register_user_def Let_def succeeds dest: issue_verification_email_effect(1,2) split: if_splits)
qed

lemma register_evolves:
  assumes "wf_db db" and "next_uuid db \<notin> ids"
  shows "evolves ids db (committed (\<lambda>_. False) (register_user A now salt raw email pw rid ih) db)"
proof (rule committed_evolves [OF assms(1) keeps_register])
  fix a db'
  assume "register_user A now salt raw email pw rid ih db = (Inr a, db')" and wf: "wf_db db'"
  with register_users [of A now salt raw email pw rid ih db db'] assms show "evolves ids db db'"
    by (auto intro: evolves_same evolves_new_user)
qed

text \<open>A saved account whose epoch has not fallen.\<close>

lemma evolves_user_save:
  assumes "wf_db db" and "wf_db db'" and "user_by_id i db = Some u" and "u_id v = i"
    and "u_auth_epoch u \<le> u_auth_epoch v"
    and "users db' = put_row u_id i (user_stored d v) (users db)" and "sessions db' = sessions db \<or>
       sessions db' = sessions (snd (revoke_all_for_user j now db))"
  shows "evolves ids db db'"
proof -
  have row: "user_by_id k db' = (if k = i then map_option (user_stored d v) (user_by_id k db) else user_by_id k db)" for k
    using assms(6) by (simp add: user_by_id_def row_simps)
  have up: "u_auth_epoch x \<le> u_auth_epoch y" if "user_by_id k db = Some x" "user_by_id k db' = Some y" for k x y
    using that assms(3,5) by (auto simp: row split: if_splits)
  have sess: "\<exists>s' \<in> set (sessions db'). continues s s'" if s: "s \<in> set (sessions db)" for s
  proof -
    have "history db (db\<lparr>sessions := sessions db'\<rparr>)"
      using assms(7) by (auto intro: history_refl history_revoke_all)
    moreover have "user_by_id (s_user_id s) (db\<lparr>sessions := sessions db'\<rparr>) \<noteq> None"
      using s assms(1) by (auto simp: wf_db_def user_by_id_def row_by_None_iff)
    ultimately show ?thesis using s by (auto simp: history_def)
  qed
  have "history db db'" using up sess unfolding history_def by blast
  then show ?thesis using assms(2) row by (auto simp: evolves_def)
qed

lemma verify_email_evolves:
  assumes "wf_db db"
  shows "evolves ids db (committed (\<lambda>_. False) (verify_email now raw rid ih) db)"
proof (rule committed_evolves [OF assms keeps_verify_email])
  fix a db'
  assume ok: "verify_email now raw rid ih db = (Inr a, db')" and wf: "wf_db db'"
  from ok obtain t t' :: verification_token and u u' d1 d2 where u: "user_by_id (vt_user_id t) db = Some u"
    and u': "mark_verified now u = Inr u'" and d1: "user_save u' db = Inr d1"
    and d2: "vt_save t' d1 = Inr d2" and aud: "audit_add (audit_user u' ''user.email_verified'' rid ih) d2 = Inr db'"
    by (auto simp: verify_email_def succeeds split: option.splits)
  from u' have u'_eq: "u' = u\<lparr>u_email_verified_at := Some now, u_updated_at := now\<rparr>"
    by (auto simp: mark_verified_def split: if_splits)
  have "users d2 = users d1" "sessions d2 = sessions d1"
    using d2 by (auto simp: vt_save_def split: option.splits)
  moreover have "users d1 = put_row u_id (u_id u) (user_stored db u') (users db)" "sessions d1 = sessions db"
    using d1 by (auto simp: user_save_def u'_eq split: option.splits)
  ultimately show "evolves ids db db'"
    using audit_tables(1,2) [OF aud] user_found [OF u] wf assms u u'_eq
    by (intro evolves_user_save [where i = "u_id u" and u = u and v = u']) auto
qed

lemma confirm_reset_evolves:
  assumes "wf_db db" and "confirm_password_reset A now salt raw pw rid ih db = (Inr (), db')"
  shows "evolves ids db db'"
  using assms(2)
proof (rule confirm_success)
  fix t t' :: reset_token and u :: user and d1 d2 :: database and n :: nat
  let ?u = "invalidate_credentials now (change_password (hash_password (app_lib A) salt pw) now u)"
  assume u: "user_by_id (rt_user_id t) db = Some u" and d1: "rt_save t' db = Inr d1" and d2: "user_save ?u d1 = Inr d2"
    and aud: "audit_add \<lparr>aa_actor_user_id = Some (rt_user_id t), aa_action = ''user.password_reset'',
            aa_entity_type = ''User'', aa_entity_id = Some (rt_user_id t), aa_before_data = None,
            aa_after_data = Some [(''sessions_revoked'', PInt (int n))], aa_request_id = rid, aa_ip_hash = ih\<rparr>
          (snd (revoke_all_for_user (rt_user_id t) now (snd (consume_outstanding_for_user (rt_user_id t) now d2)))) = Inr db'"
  have "wf_db db'"
    by (rule preservesD [OF keeps_confirm_password_reset assms(2,1)])
  moreover have "users d2 = put_row u_id (u_id u) (user_stored d1 ?u) (users db)"
    using d2 rts_tables(1) [OF d1] by (auto simp: user_save_def split: option.splits)
  ultimately show ?thesis
    using user_found [OF u] u assms(1) audit_tables(1,2) [OF aud] us_tables(1) [OF d2] rts_tables(2) [OF d1]
    by (intro evolves_user_save [where i = "u_id u" and u = u and v = ?u and j = "rt_user_id t" and now = now])
      (auto simp: revoke_all_for_user_def consume_outstanding_for_user_def user_methods)
qed

lemma set_active_evolves:
  assumes "wf_db db" and "set_user_active now i b actor rid ih db = (Inr r, db')"
  shows "evolves ids db db'"
proof (cases r)
  case None
  with assms show ?thesis
    by (auto simp: set_user_active_def succeeds Let_def split: option.splits if_splits prod.splits bool.splits
        intro: evolves_same)
next
  case (Some res)
  have wf: "wf_db db'"
    by (rule preservesD [OF keeps_set_user_active assms(2,1)])
  from assms(2) Some have "set_user_active now i b actor rid ih db = (Inr (Some res), db')" by simp
  then show ?thesis
  proof (cases rule: set_active_cases)
    case (same u)
    with assms(1) wf show ?thesis by (auto intro: evolves_same)
  next
    case (changed u d1 d2 a)
    let ?v = "let v = u\<lparr>u_is_active := b, u_updated_at := now\<rparr> in if b then v else invalidate_credentials now v"
    from changed(5) have "users d1 = put_row u_id (u_id ?v) (user_stored db ?v) (users db)" "sessions d1 = sessions db"
      by (auto simp: user_save_def split: option.splits)
    with changed wf assms(1) audit_tables(1,2) [OF changed(7)] user_found [OF changed(1)] show ?thesis
      by (intro evolves_user_save [where i = i and u = u and v = ?v and j = i and now = now])
        (auto simp: revoke_all_for_user_def invalidate_credentials_def Let_def split: if_splits)
  qed
qed

lemma settings_valid_map:
  "settings_valid rows \<Longrightarrow> settings_valid (map (\<lambda>s. s\<lparr>st_updated_by := f s\<rparr>) rows)"
proof -
  have "row_valid (s\<lparr>st_updated_by := x\<rparr>) = row_valid s" for s x
    by (simp add: row_valid_def split: option.split)
  then show "settings_valid rows \<Longrightarrow> settings_valid (map (\<lambda>s. s\<lparr>st_updated_by := f s\<rparr>) rows)"
    by (simp add: settings_valid_def list_all_iff comp_def)
qed

lemma purge_evolves:
  assumes "wf_db db"
  shows "evolves ids db (snd (purge_never_verified_before cutoff db))" (is "evolves ids db ?db'")
proof -
  let ?dead = "\<lambda>i. i \<in> u_id ` {u \<in> set (users db). purgeable cutoff u}"
  have us: "users ?db' = filter (\<lambda>u. \<not> purgeable cutoff u) (users db)"
    and se: "sessions ?db' = filter (\<lambda>s. \<not> ?dead (s_user_id s)) (sessions db)"
    by (simp_all add: purge_never_verified_before_def Let_def)
  have "\<exists>f. reset_tokens ?db' = filter f (reset_tokens db)" "\<exists>f. mfa_credentials ?db' = filter f (mfa_credentials db)"
    "\<exists>f. recovery_codes ?db' = filter f (recovery_codes db)"
    by (auto simp: purge_never_verified_before_def Let_def)
  then have dist: "distinct (map rt_token_hash (reset_tokens ?db'))" "distinct (map rt_id (reset_tokens ?db'))"
    "distinct (map mc_user_id (mfa_credentials ?db'))" "distinct (map rc_id (recovery_codes ?db'))"
    "distinct (map rc_code_hash (recovery_codes ?db'))" "distinct (map u_id (users ?db'))" "distinct (map s_id (sessions ?db'))"
    using assms unfolding us se by (auto simp: wf_db_def distinct_map_filter_rows)
  have owner: "i \<in> u_id ` set (users ?db')" if "i \<in> u_id ` set (users db)" "\<not> ?dead i" for i
    using that unfolding us by fastforce
  have nt: "notifications ?db' = filter (\<lambda>n. \<not> ?dead (nt_user_id n)) (notifications db)"
    by (simp add: purge_never_verified_before_def Let_def)
  have "\<forall>s \<in> set (sessions ?db'). s_user_id s \<in> u_id ` set (users ?db')"
    "\<forall>n \<in> set (notifications ?db'). nt_user_id n \<in> u_id ` set (users ?db')"
    using assms owner unfolding se nt by (auto simp: wf_db_def)
  moreover have "distinct (map nt_id (notifications ?db'))"
    using assms unfolding nt by (simp add: wf_db_def distinct_map_filter_rows)
  moreover have "wf_office (setting_rows ?db') (categories ?db') (materials ?db') (colours ?db')"
    using assms by (auto simp: purge_never_verified_before_def Let_def wf_db_def wf_office_def intro: settings_valid_map)
  ultimately have wf: "wf_db ?db'"
    using dist assms us by (auto simp: wf_db_def)
  have found: "user_by_id i db = Some u" if "user_by_id i ?db' = Some u" for i u
    using that user_by_own_id [OF assms, of u] by (auto simp: us dest!: user_found)
  have "s \<in> set (sessions ?db')" if s: "s \<in> set (sessions db)" and own: "user_by_id (s_user_id s) ?db' \<noteq> None" for s
  proof -
    from own obtain u where u: "u \<in> set (users ?db')" "u_id u = s_user_id s" by (auto dest: user_found)
    from u(1) have kept: "u \<in> set (users db)" "\<not> purgeable cutoff u" by (simp_all add: us)
    have "inj_on u_id (set (users db))" using assms by (simp add: wf_db_def distinct_map)
    then have "x = u" if "x \<in> set (users db)" "u_id x = s_user_id s" for x
      using that kept(1) u(2) by (simp add: inj_on_def)
    with kept(2) have "\<not> ?dead (s_user_id s)" by fastforce
    with s show ?thesis by (simp add: se)
  qed
  then have "\<exists>s' \<in> set (sessions ?db'). continues s s'"
    if "s \<in> set (sessions db)" "user_by_id (s_user_id s) ?db' \<noteq> None" for s
    using that continues_refl by blast
  moreover have "u_auth_epoch u \<le> u_auth_epoch u'" if "user_by_id i db = Some u" "user_by_id i ?db' = Some u'" for i u u'
    using found [OF that(2)] that(1) by simp
  ultimately have "history db ?db'" unfolding history_def by blast
  moreover have "user_by_id i ?db' = None" if "user_by_id i db = None" for i
    using that found by (cases "user_by_id i ?db'") auto
  ultimately show ?thesis using wf by (simp add: evolves_def)
qed

lemma settings_reads:
  "get_duration_seconds key db = (Inr n, db') \<Longrightarrow> db' = db"
proof -
  have "db' = db" if "as_int key v db = (Inr n, db')" for v db
    using that by (cases v) (auto simp: as_int_def ret_Inr)
  then show "get_duration_seconds key db = (Inr n, db') \<Longrightarrow> db' = db"
    by (auto simp: get_duration_seconds_def settings_get_def andthen_Inr query_Inr platform_Inr
        split: if_splits option.splits)
qed

lemma purge_job_evolves:
  assumes "wf_db db"
  shows "evolves ids db (committed (\<lambda>_. False) (purge_unverified_accounts now) db)"
proof (rule committed_plain [where P = "evolves ids db"])
  fix a db'
  assume "purge_unverified_accounts now db = (Inr a, db')"
  then obtain n where "purge_never_verified_before (now - seconds n) db = (a, db')"
    by (auto simp: purge_unverified_accounts_def andthen_Inr bulk_Inr dest!: settings_reads)
  with purge_evolves [OF assms, of ids "now - seconds n"] show "evolves ids db db'" by simp
qed (rule evolves_same, use assms in simp_all)

lemma outbox_save_frame:
  assumes "outbox_save m db = Inr db'"
  shows "same_core db db'" and "wf_db db \<Longrightarrow> wf_db db'"
  using assms by (auto simp: outbox_save_def same_core_def elim!: wf_db_other_tables split: option.splits if_splits)

lemma dispatch_loop_frame:
  "dispatch_loop send locked tks k db = (out, db') \<Longrightarrow> wf_db db \<Longrightarrow> wf_db db' \<and> same_core db db'"
proof (induction send locked tks k db rule: dispatch_loop.induct)
  case (2 send locked tk tks k db)
  show ?case
  proof (cases "claim_due 1 (tk_claim tk) locked db")
    case (Cons m ms)
    show ?thesis
    proof (cases "outbox_save (attempt_send send tk m) db")
      case (Inr d)
      note f = outbox_save_frame [OF Inr]
      from 2(2) Cons Inr have "dispatch_loop send locked tks (Suc k) d = (out, db')" by simp
      from 2(1) [OF Cons Inr this f(2) [OF 2(3)]] f(1) show ?thesis by (simp add: same_core_def)
    qed (use 2 Cons in \<open>simp add: same_core_def\<close>)
  qed (use 2 in \<open>simp add: same_core_def\<close>)
qed (simp add: same_core_def)

lemma dispatch_evolves:
  assumes "wf_db db"
  shows "evolves ids db (snd (dispatch_outbox send locked tks db))"
proof -
  obtain out db' where "dispatch_outbox send locked tks db = (out, db')" by (rule prod.exhaust)
  with dispatch_loop_frame [of send locked "take BATCH_SIZE tks" 0 db out db'] assms show ?thesis
    by (auto simp: dispatch_outbox_def same_core_def intro: evolves_same)
qed

lemma open_session_evolves:
  assumes "wf_db db" and "wf_db db'" and "open_session A now sid mfa u ih ua rid db = (Inr res, db')"
  shows "evolves ids db db'"
proof -
  note eff = open_session_effect [OF assms(3)]
  have "history db db'"
    by (rule history_new_session [OF eff(1,2)])
  with assms(2) eff(1) show ?thesis by (auto simp: evolves_def user_by_id_def)
qed

lemma login_locked_evolves:
  assumes "wf_db db" and "login_locked A now sid a i h db = (Inr out, db')"
  shows "evolves ids db db'"
proof -
  have wf: "wf_db db'"
    by (rule preservesD [OF keeps_login_locked assms(2,1)])
  show ?thesis
  proof (cases out)
    case (LoggedIn res)
    with assms wf show ?thesis by (auto elim!: login_locked_LoggedIn intro: open_session_evolves)
  next
    case (MfaChallengeRequired j e)
    with assms wf show ?thesis by (auto elim!: login_locked_challenge intro: evolves_same)
  qed
qed

lemma verify_and_complete_evolves:
  assumes "wf_db db" and "verify_and_complete A now sid p b rq db = (Inr res, db')"
  shows "evolves ids db db' \<and> (\<exists>u. user_by_id (pc_user_id p) db = Some u \<and> can_authenticate u
    \<and> pc_epoch p = u_auth_epoch u \<and> lr_session_id res = sid
    \<and> lr_access_token res = issue_access_token (app_lib A) (app_cfg A) (claims_of u sid True) now)"
proof -
  from assms(2) obtain r d where mv: "mfa_verify A now (pc_user_id p) (vq_code b) (vq_recovery_code b) (rq_request_id rq)
        (client_ip_hash (app_cfg A) rq) db = (Inr r, d)"
    and co: "complete_mfa_login A now sid (pc_user_id p) (pc_epoch p) (client_ip_hash (app_cfg A) rq)
        (user_agent rq) (rq_request_id rq) d = (Inr res, db')"
    by (auto simp: verify_and_complete_def andthen_Inr)
  have wfd: "wf_db d"
    by (rule preservesD [OF keeps_mfa_verify mv assms(1)])
  have same: "users d = users db" "sessions d = sessions db"
    using preservesD [OF frames_mfa_verify mv, of db] by (simp_all add: same_core_def)
  from co show ?thesis
  proof (rule complete_mfa_login_success)
    fix u
    assume u: "user_by_id (pc_user_id p) d = Some u" "can_authenticate u" "pc_epoch p = u_auth_epoch u"
      and op: "open_session A now sid True u (client_ip_hash (app_cfg A) rq) (user_agent rq) (rq_request_id rq) d = (Inr res, db')"
    have "wf_db db'"
      by (rule preservesD [OF keeps_open_session op wfd])
    then have "evolves ids d db'" by (rule open_session_evolves [OF wfd _ op])
    with same have "evolves ids db db'"
      by (simp add: evolves_def history_def user_by_id_def)
    with u same open_session_effect(4,7) [OF op] show ?thesis by (auto simp: user_by_id_def)
  qed
qed

text \<open>The only writes of a failed attempt that are kept are those of a replay, before the
  completion began.\<close>

lemma fails_second_factor_evolves:
  assumes "wf_db db"
    and "in_transaction (\<lambda>e. e = MfaCodeReplayedError) (verify_and_complete A now sid p b rq) db = (Inl e, db')"
  shows "evolves ids db db'"
proof -
  let ?mv = "mfa_verify A now (pc_user_id p) (vq_code b) (vq_recovery_code b) (rq_request_id rq) (client_ip_hash (app_cfg A) rq)"
  let ?co = "complete_mfa_login A now sid (pc_user_id p) (pc_epoch p) (client_ip_hash (app_cfg A) rq)
        (user_agent rq) (rq_request_id rq)"
  have no_replay: "fst (?co d) \<noteq> Inl MfaCodeReplayedError" for d
    by (auto simp: complete_mfa_login_def open_session_def cmd_simps Let_def session_add_def audit_add_def
        split: option.splits if_splits)
  have kept: "wf_db d \<and> same_core db d" if "?mv db = (x, d)" for x d
    using preservesD [OF keeps_mfa_verify that assms(1)] preservesD [OF frames_mfa_verify that, of db]
    by (simp add: same_core_def)
  show ?thesis
  proof (cases "?mv db")
    case (Pair x d)
    note k = kept [OF Pair]
    have "evolves ids db d" using k assms(1) by (intro evolves_same) (auto simp: same_core_def)
    moreover have "evolves ids db (db\<lparr>gen_ctr := n\<rparr>)" for n using assms(1) by (intro evolves_same) simp_all
    ultimately show ?thesis
      using assms(2) Pair no_replay [of d]
      by (auto simp: in_transaction_def verify_and_complete_def andthen_def split: sum.splits prod.splits if_splits)
  qed
qed

lemma session_save_evolves:
  assumes "wf_db db" and "session_save e db = Inr d" and "session_by_id (s_id e) db = Some s"
    and "is_revoked s \<Longrightarrow> is_revoked e" and "users db' = users d" and "sessions db' = sessions d" and "wf_db db'"
  shows "evolves ids db db'"
proof -
  have "history db d" by (rule history_session_save [OF assms(1-4)])
  moreover have "users d = users db" using session_saved(3) [OF assms(2,3)] .
  ultimately show ?thesis
    using assms(5-7) by (simp add: evolves_def history_def user_by_id_def)
qed

lemma logout_evolves:
  assumes "wf_db db"
  shows "evolves ids db (committed (\<lambda>_. False) (logout now sid rid ih) db)"
proof (rule committed_evolves [OF assms keeps_logout])
  fix a db'
  assume ok: "logout now sid rid ih db = (Inr a, db')" and wf: "wf_db db'"
  show "evolves ids db db'"
  proof (cases "db' = db")
    case True
    with wf show ?thesis by (auto intro: evolves_same)
  next
    case False
    with ok obtain s d where s: "session_by_id sid db = Some s" and d: "session_save (revoke now s) db = Inr d"
      and aud: "audit_add (audit_session s ''user.logged_out'' rid ih) d = Inr db'"
      by (auto simp: logout_def succeeds split: option.splits if_splits)
    have "session_by_id (s_id (revoke now s)) db = Some s" using session_id_found [OF s] s by simp
    from session_save_evolves [OF assms d this _ audit_tables(1,2) [OF aud] wf] show ?thesis
      by (simp add: revoke_def)
  qed
qed

lemma refresh_evolves:
  assumes "wf_db db" and "in_transaction is_session_terminated (refresh_session A now raw rid ih mfa) db = (out, db')"
  shows "evolves ids db db'"
proof -
  obtain r d where rs: "refresh_session A now raw rid ih mfa db = (r, d)" by (rule prod.exhaust)
  have wfd: "wf_db d" by (rule preservesD [OF keeps_refresh rs assms(1)])
  have undone: "evolves ids db (db\<lparr>gen_ctr := n\<rparr>)" for n using assms(1) by (intro evolves_same) simp_all
  have "evolves ids db d" if r: "(case r of Inl e \<Rightarrow> is_session_terminated e | Inr x \<Rightarrow> True)"
  proof (cases "\<exists>claims s. decode_refresh_token (app_lib A) (app_cfg A) now raw = Inr claims
      \<and> session_by_id (rf_session_id claims) db = Some s")
    case True
    then obtain claims s where dec: "decode_refresh_token (app_lib A) (app_cfg A) now raw = Inr claims"
      and s: "session_by_id (rf_session_id claims) db = Some s" by blast
    have sid: "session_by_id (s_id s) db = Some s" using session_id_found [OF s] s by simp
    have saved: "evolves ids db d" if "session_save e db = Inr x" "s_id e = s_id s" "is_revoked s \<Longrightarrow> is_revoked e"
      "users d = users x" "sessions d = sessions x" for e x
      using session_save_evolves [OF assms(1) that(1) _ that(3) that(4,5) wfd] sid that(2) by simp
    note eq = rs [unfolded refresh_session_eq [OF dec s]]
    show ?thesis
    proof (cases "authorize_rotation (hash_token raw) (rf_token_version claims) now s")
      case None
      then have live: "\<not> is_revoked s" by (simp add: authorize_rotation_accepts_iff is_live_def)
      with eq None r show ?thesis
        by (auto simp: cmd_simps is_session_terminated_def Let_def live
            split: option.splits if_splits sum.splits intro: saved evolves_same simp: wfd)
    next
      case (Some e)
      show ?thesis
      proof (cases "\<exists>i. e = RefreshTokenReuseError i")
        case True
        with Some eq r show ?thesis
          by (auto simp: cmd_simps is_session_terminated_def split: sum.splits dest: audit_tables(1,2)
              intro: saved evolves_same simp: session_methods wfd)
      next
        case False
        with Some eq show ?thesis
          by (auto split: app_error.splits intro: evolves_same simp: wfd)
      qed
    qed
  next
    case False
    with rs have "d = db"
      by (auto simp: refresh_session_def cmd_simps session_owner_id_def session_by_id_def
          split: sum.splits option.splits)
    then show ?thesis using assms(1) wfd by (auto intro: evolves_same)
  qed
  then show ?thesis
    using assms(2) rs undone by (auto simp: in_transaction_def split: sum.splits if_splits)
qed

end
