(* ===== verification/Auth_System.thy ===== *)
theory Auth_System
  imports Table_History
begin

text \<open>
  The service as a whole, all contexts and jobs: one step is one committed or rolled back transaction,
  or one change of Redis, of one request or job; they interleave freely between these steps.  A login and
  the completion of a login by second factor hold state between two steps: the account and hash
  the password was checked against, and the challenge that was resolved.  The claims of every
  access token the service has signed are recorded.  PostgreSQL's random identifiers are taken
  not to repeat.
\<close>

record system =
  sy_db :: database
  sy_redis :: redis
  sy_claims :: "access_claims set"
  sy_checked :: "(uuid \<times> string) set"
  sy_resolved :: "pending_challenge set"
  sy_ids :: "uuid set"

abbreviation plain :: "'a cmd \<Rightarrow> system \<Rightarrow> system" where
  "plain c S \<equiv> S\<lparr>sy_db := committed (\<lambda>_. False) c (sy_db S)\<rparr>"

definition known_ids :: "system \<Rightarrow> system" where
  "known_ids S = S\<lparr>sy_ids := sy_ids S \<union> u_id ` set (users (sy_db S))\<rparr>"

inductive auth_step :: "app \<Rightarrow> system \<Rightarrow> system \<Rightarrow> bool" for A :: app where
  registers: "next_uuid (sy_db S) \<notin> sy_ids S
    \<Longrightarrow> auth_step A S (known_ids (plain (register_user A now salt raw email pw rid ih) S))"
| resends: "auth_step A S (plain (resend_verification A now raw email rid ih) S)"
| verifies: "auth_step A S (plain (verify_email now raw rid ih) S)"
| requests_reset: "auth_step A S (plain (request_password_reset A now raw email rid ih) S)"
| resets: "auth_step A S (plain (confirm_password_reset A now salt raw pw rid ih) S)"
| sets_active: "auth_step A S (plain (set_user_active now i b actor rid ih) S)"
| purges: "auth_step A S (plain (purge_unverified_accounts now) S)"
| sends_mail: "auth_step A S (S\<lparr>sy_db := snd (dispatch_outbox send locked tks (sy_db S))\<rparr>)"
| changes_setting: "auth_step A S (plain (update_setting now key v actor rid ih) S)"
| creates_category: "auth_step A S (plain (create_category name slug act actor rid ih) S)"
| updates_category: "auth_step A S (plain (update_category now i name' slug' act' actor rid ih) S)"
| archives_category: "auth_step A S (plain (archive_category now i actor rid ih) S)"
| creates_value: "R \<in> {material_repository, colour_repository}
    \<Longrightarrow> auth_step A S (plain (create_reference_value R ty name act actor rid ih) S)"
| updates_value: "R \<in> {material_repository, colour_repository}
    \<Longrightarrow> auth_step A S (plain (update_reference_value R ty now i name' act' actor rid ih) S)"
| archives_value: "R \<in> {material_repository, colour_repository}
    \<Longrightarrow> auth_step A S (plain (archive_reference_value R ty now i actor rid ih) S)"
| notifies: "auth_step A S (plain (create_notification fl i nty payload) S)"
| marks_notification: "auth_step A S (plain (bulk (set_read_state i j r)) S)"
| checks_password: "login_unlocked A now a (sy_db S) (sy_redis S) = (out, r')
    \<Longrightarrow> auth_step A S (S\<lparr>sy_redis := r',
          sy_checked := (case out of Inl e \<Rightarrow> sy_checked S | Inr u \<Rightarrow> insert (u_id u, u_password_hash u) (sy_checked S))\<rparr>)"
| opens_session: "(i, h) \<in> sy_checked S \<Longrightarrow> login_locked A now sid a i h (sy_db S) = (Inr (LoggedIn res), db')
    \<Longrightarrow> user_by_id i (sy_db S) = Some u
    \<Longrightarrow> auth_step A S (S\<lparr>sy_db := db', sy_claims := insert (claims_of u sid False) (sy_claims S)\<rparr>)"
| issues_challenge: "(i, h) \<in> sy_checked S
    \<Longrightarrow> login_locked A now sid a i h (sy_db S) = (Inr (MfaChallengeRequired uid ep), db')
    \<Longrightarrow> auth_step A S (S\<lparr>sy_db := db', sy_redis := create_login_challenge now cid uid ep (sy_redis S)\<rparr>)"
| refreshes: "in_transaction is_session_terminated (refresh_session A now raw rid ih mfa) (sy_db S) = (out, db')
    \<Longrightarrow> new = (case out of Inl e \<Rightarrow> {} | Inr res \<Rightarrow> {c. \<exists>s u. session_by_id (rr_session_id res) (sy_db S) = Some s
          \<and> user_by_id (s_user_id s) (sy_db S) = Some u \<and> c = claims_of u (s_id s) mfa})
    \<Longrightarrow> auth_step A S (S\<lparr>sy_db := db', sy_claims := sy_claims S \<union> new\<rparr>)"
| logs_out: "auth_step A S (plain (logout now sid rid ih) S)"
| sets_up_mfa: "auth_step A S (plain (mfa_setup A secret nonce i pw rid ih) S)"
| confirms_mfa: "c \<in> sy_claims S
    \<Longrightarrow> mfa_confirm_setup A now draws (ac_user_id c) code rid ih (sy_db S) = (Inr res, db')
    \<Longrightarrow> auth_step A S (S\<lparr>sy_db := db', sy_claims := insert (c\<lparr>ac_mfa_completed := True\<rparr>) (sy_claims S),
          sy_redis := mark_completed now (ac_session_id c) (completed_ttl (app_cfg A)) (sy_redis S)\<rparr>)"
| regenerates: "auth_step A S (plain (mfa_regenerate_recovery_codes A now draws i pw rid ih) S)"
| resolves_challenge: "resolve_login_challenge now cid (sy_redis S) = Some p
    \<Longrightarrow> auth_step A S (S\<lparr>sy_redis := consume_login_challenge cid (sy_redis S), sy_resolved := insert p (sy_resolved S)\<rparr>)"
| completes_login: "p \<in> sy_resolved S \<Longrightarrow> verify_and_complete A now sid p b rq (sy_db S) = (Inr res, db')
    \<Longrightarrow> user_by_id (pc_user_id p) (sy_db S) = Some u
    \<Longrightarrow> auth_step A S (S\<lparr>sy_db := db', sy_claims := insert (claims_of u sid True) (sy_claims S),
          sy_redis := mark_completed now sid (completed_ttl (app_cfg A)) (sy_redis S)\<rparr>)"
| fails_second_factor: "p \<in> sy_resolved S
    \<Longrightarrow> in_transaction (\<lambda>e. e = MfaCodeReplayedError) (verify_and_complete A now sid p b rq) (sy_db S) = (Inl e, db')
    \<Longrightarrow> auth_step A S (S\<lparr>sy_db := db'\<rparr>)"
| rolls_back: "auth_step A S (S\<lparr>sy_db := (sy_db S)\<lparr>gen_ctr := n\<rparr>\<rparr>)"
| begins: "auth_step A S (S\<lparr>sy_db := (sy_db S)\<lparr>tx_now := t\<rparr>\<rparr>)"
| rate_limits: "rate_limiter key lim win now host (sy_redis S) = Some (out, r')
    \<Longrightarrow> auth_step A S (S\<lparr>sy_redis := r'\<rparr>)"

inductive_cases auth_stepE: "auth_step A S S'"

text \<open>The service starts with the schema freshly migrated: empty tables, and the seeded settings.\<close>

definition initial :: "system \<Rightarrow> bool" where
  "initial S \<longleftrightarrow> users (sy_db S) = [] \<and> sessions (sy_db S) = [] \<and> reset_tokens (sy_db S) = []
     \<and> mfa_credentials (sy_db S) = [] \<and> recovery_codes (sy_db S) = [] \<and> notifications (sy_db S) = []
     \<and> categories (sy_db S) = [] \<and> materials (sy_db S) = [] \<and> colours (sy_db S) = []
     \<and> verification_tokens (sy_db S) = [] \<and> email_outbox (sy_db S) = [] \<and> audit_logs (sy_db S) = []
     \<and> seeded (setting_rows (sy_db S)) \<and> (\<forall>s \<in> set (setting_rows (sy_db S)). st_updated_by s = None)
     \<and> sy_redis S = (\<lambda>_. None)
     \<and> sy_claims S = {} \<and> sy_checked S = {} \<and> sy_resolved S = {} \<and> sy_ids S = {}"

definition reachable :: "app \<Rightarrow> system \<Rightarrow> bool" where
  "reachable A S \<longleftrightarrow> (\<exists>S0. initial S0 \<and> (auth_step A)\<^sup>*\<^sup>* S0 S)"

section \<open>The invariant of the service\<close>

text \<open>Nothing the service ever signed or stored for an account is ahead of its epoch.\<close>

definition bounded :: "system \<Rightarrow> uuid \<Rightarrow> int \<Rightarrow> bool" where
  "bounded S i e \<longleftrightarrow> i \<in> sy_ids S \<and> (\<forall>u. user_by_id i (sy_db S) = Some u \<longrightarrow> e \<le> u_auth_epoch u)"

definition auth_inv :: "system \<Rightarrow> bool" where
  "auth_inv S \<longleftrightarrow> wf_db (sy_db S) \<and> u_id ` set (users (sy_db S)) \<subseteq> sy_ids S
     \<and> (\<forall>c \<in> sy_claims S. bounded S (ac_user_id c) (ac_auth_epoch c))
     \<and> (\<forall>p \<in> sy_resolved S. bounded S (pc_user_id p) (pc_epoch p))
     \<and> (\<forall>cid v dl p. sy_redis S (challenge_key cid) = Some (v, dl) \<and> parse_challenge v = Some p
          \<longrightarrow> bounded S (pc_user_id p) (pc_epoch p))"

definition moves :: "system \<Rightarrow> system \<Rightarrow> bool" where
  "moves S S' \<longleftrightarrow> evolves (sy_ids S) (sy_db S) (sy_db S') \<and> sy_ids S \<subseteq> sy_ids S'
     \<and> u_id ` set (users (sy_db S')) \<subseteq> sy_ids S'"

lemma bounded_moves: "moves S S' \<Longrightarrow> bounded S i e \<Longrightarrow> bounded S' i e"
  unfolding moves_def evolves_def history_def bounded_def
  by (metis (no_types, lifting) not_Some_eq order_trans subsetD)

lemma bounded_current: "moves S S' \<Longrightarrow> user_by_id i (sy_db S) = Some u \<Longrightarrow> i \<in> sy_ids S
    \<Longrightarrow> bounded S' i (u_auth_epoch u)"
  by (rule bounded_moves) (auto simp: bounded_def)

lemma ids_of_user: "auth_inv S \<Longrightarrow> user_by_id i (sy_db S) = Some u \<Longrightarrow> i \<in> sy_ids S"
  by (auto simp: auth_inv_def dest!: user_found)

lemma ids_evolve:
  assumes "evolves (sy_ids S) (sy_db S) db'" and "auth_inv S"
  shows "u_id ` set (users db') \<subseteq> sy_ids S \<union> u_id ` set (users db')"
  by blast

text \<open>A step that adds no account: no identifier appears.\<close>

lemma moves_same_ids:
  assumes "auth_inv S" and "evolves UNIV (sy_db S) (sy_db S')" and "sy_ids S' = sy_ids S"
  shows "moves S S'"
proof -
  have "u_id u \<in> sy_ids S" if "u \<in> set (users (sy_db S'))" for u
  proof -
    from assms(2) that have "user_by_id (u_id u) (sy_db S') = Some u"
      by (intro user_by_own_id) (auto simp: evolves_def)
    with assms(2) have "user_by_id (u_id u) (sy_db S) \<noteq> None" by (auto simp: evolves_def)
    with assms(1) show ?thesis by (auto intro: ids_of_user)
  qed
  with assms show ?thesis by (auto simp: moves_def evolves_def)
qed

lemma auth_inv_moves:
  assumes "auth_inv S" and "moves S S'"
    and "\<And>c. c \<in> sy_claims S' \<Longrightarrow> c \<in> sy_claims S \<or> bounded S' (ac_user_id c) (ac_auth_epoch c)"
    and "\<And>p. p \<in> sy_resolved S' \<Longrightarrow> p \<in> sy_resolved S \<or> bounded S' (pc_user_id p) (pc_epoch p)"
    and "\<And>cid v dl p. sy_redis S' (challenge_key cid) = Some (v, dl) \<Longrightarrow> parse_challenge v = Some p
      \<Longrightarrow> sy_redis S (challenge_key cid) = Some (v, dl) \<or> bounded S' (pc_user_id p) (pc_epoch p)"
  shows "auth_inv S'"
  unfolding auth_inv_def
proof (intro conjI ballI allI impI)
  note old = assms(1) [unfolded auth_inv_def] and still = bounded_moves [OF assms(2)]
  show "wf_db (sy_db S')" "u_id ` set (users (sy_db S')) \<subseteq> sy_ids S'"
    using assms(2) by (simp_all add: moves_def evolves_def)
  show "bounded S' (ac_user_id c) (ac_auth_epoch c)" if "c \<in> sy_claims S'" for c
    using assms(3) [OF that] old still by blast
  show "bounded S' (pc_user_id p) (pc_epoch p)" if "p \<in> sy_resolved S'" for p
    using assms(4) [OF that] old still by blast
  show "bounded S' (pc_user_id p) (pc_epoch p)"
    if "sy_redis S' (challenge_key cid) = Some (v, dl) \<and> parse_challenge v = Some p" for cid v dl p
    using assms(5) [of cid v dl p] that old still by blast
qed

text \<open>The other keys of Redis are not challenges.\<close>

lemma other_keys [simp]:
  "throttle_key e ip \<noteq> challenge_key cid" "challenge_key cid \<noteq> throttle_key e ip"
  "rate_key k h \<noteq> challenge_key cid" "challenge_key cid \<noteq> rate_key k h"
  by (auto simp: throttle_key_def rate_key_def challenge_key_def)

lemma redis_other:
  "k \<noteq> j \<Longrightarrow> r_delete k r j = r j" "k \<noteq> j \<Longrightarrow> r_set now k v ex r j = r j"
  "k \<noteq> j \<Longrightarrow> r_expire now k ex r j = r j"
  "k \<noteq> j \<Longrightarrow> r_incr now k r = Some (n, r') \<Longrightarrow> r' j = r j"
  by (auto simp: r_delete_def r_set_def r_expire_def r_incr_def split: option.splits)

lemma r_incr_challenge:
  "r_incr now (rate_key k h) r = Some (n, r') \<Longrightarrow> r' (challenge_key cid) = r (challenge_key cid)"
  "r_incr now (throttle_key e ip) r = Some (n, r') \<Longrightarrow> r' (challenge_key cid) = r (challenge_key cid)"
  by (erule redis_other(4) [rotated], simp)+

lemma rate_limiter_challenges:
  "rate_limiter key lim win now host r = Some (out, r') \<Longrightarrow> r' (challenge_key cid) = r (challenge_key cid)"
  by (auto simp: rate_limiter_def Let_def redis_other dest!: r_incr_challenge(1) [where cid = cid] split: option.splits if_splits)

lemma login_unlocked_challenges:
  "login_unlocked A now a db r = (out, r') \<Longrightarrow> r' (challenge_key cid) = r (challenge_key cid)"
  by (auto simp: login_unlocked_def record_failure_def throttle_reset_def Let_def redis_other
      dest!: r_incr_challenge(2) [where cid = cid] split: sum.splits option.splits if_splits bool.splits)

lemma initial_inv: "initial S \<Longrightarrow> auth_inv S"
  by (simp add: initial_def auth_inv_def wf_db_def wf_office_def live_categories_def seeded_valid)

lemma step_ok:
  assumes "auth_inv S" and "evolves UNIV (sy_db S) (sy_db S')" and "sy_ids S' = sy_ids S"
    and "\<And>c. c \<in> sy_claims S' \<Longrightarrow> c \<in> sy_claims S \<or> bounded S (ac_user_id c) (ac_auth_epoch c)"
    and "\<And>p. p \<in> sy_resolved S' \<Longrightarrow> p \<in> sy_resolved S \<or> bounded S (pc_user_id p) (pc_epoch p)"
    and "\<And>cid v dl p. sy_redis S' (challenge_key cid) = Some (v, dl) \<Longrightarrow> parse_challenge v = Some p
      \<Longrightarrow> sy_redis S (challenge_key cid) = Some (v, dl) \<or> bounded S (pc_user_id p) (pc_epoch p)"
  shows "moves S S' \<and> auth_inv S'"
proof -
  have mv: "moves S S'" by (rule moves_same_ids [OF assms(1,2,3)])
  from bounded_moves [OF mv] assms(4,5,6) have "auth_inv S'"
    by (intro auth_inv_moves [OF assms(1) mv]) blast+
  with mv show ?thesis by blast
qed

lemma plain_ok:
  assumes "auth_inv S" and "evolves UNIV (sy_db S) (committed (\<lambda>_. False) c (sy_db S))"
  shows "moves S (plain c S) \<and> auth_inv (plain c S)"
  using assms by (intro step_ok) auto

lemma framed_ok:
  assumes "auth_inv S" and "preserves (same_core (sy_db S)) c" and "preserves wf_db c"
  shows "moves S (plain c S) \<and> auth_inv (plain c S)"
  using assms
  by (intro plain_ok committed_evolves) (auto simp: auth_inv_def intro: frames_evolves [OF assms(2)])

lemma same_db_ok:
  assumes "auth_inv S" and "evolves UNIV (sy_db S) db'"
    and "\<And>cid v dl p. r' (challenge_key cid) = Some (v, dl) \<Longrightarrow> parse_challenge v = Some p
      \<Longrightarrow> sy_redis S (challenge_key cid) = Some (v, dl) \<or> bounded S (pc_user_id p) (pc_epoch p)"
  shows "moves S (S\<lparr>sy_db := db', sy_redis := r'\<rparr>) \<and> auth_inv (S\<lparr>sy_db := db', sy_redis := r'\<rparr>)"
  using assms by (intro step_ok) auto

lemma inv_wf: "auth_inv S \<Longrightarrow> wf_db (sy_db S)"
  by (simp add: auth_inv_def)

lemma bounded_claims:
  assumes "auth_inv S" and "user_by_id i (sy_db S) = Some u"
  shows "bounded S (ac_user_id (claims_of u sid m)) (ac_auth_epoch (claims_of u sid m))"
    and "bounded S (u_id u) (u_auth_epoch u)"
  using assms ids_of_user [OF assms] user_found [OF assms(2)] by (auto simp: bounded_def claims_of_def)

lemma mark_completed_challenges: "mark_completed now i ttl r (challenge_key cid) = r (challenge_key cid)"
  by (simp add: mark_completed_def redis_other)

lemma register_ok:
  assumes "auth_inv S" and "next_uuid (sy_db S) \<notin> sy_ids S"
  shows "moves S (known_ids (plain (register_user A now salt raw email pw rid ih) S))
    \<and> auth_inv (known_ids (plain (register_user A now salt raw email pw rid ih) S))"
proof -
  let ?S' = "known_ids (plain (register_user A now salt raw email pw rid ih) S)"
  have "evolves (sy_ids S) (sy_db S) (sy_db ?S')"
    using register_evolves [OF inv_wf [OF assms(1)] assms(2)] by (simp add: known_ids_def)
  then have mv: "moves S ?S'" by (auto simp: moves_def known_ids_def)
  then have "auth_inv ?S'"
    by (intro auth_inv_moves [OF assms(1)]) (auto simp: known_ids_def)
  with mv show ?thesis by blast
qed

lemma auth_step_ok:
  assumes "auth_step A S S'" and "auth_inv S"
  shows "moves S S' \<and> auth_inv S'"
  using assms
proof (cases rule: auth_step.cases)
  case (registers now salt raw email pw rid ih)
  with assms(2) register_ok show ?thesis by simp
next
  case (resends now raw email rid ih)
  with framed_ok [OF assms(2) frames_commands(1) keeps_resend] show ?thesis by simp
next
  case (verifies now raw rid ih)
  with plain_ok [OF assms(2) verify_email_evolves [OF inv_wf [OF assms(2)]]] show ?thesis by simp
next
  case (requests_reset now raw email rid ih)
  with framed_ok [OF assms(2) frames_commands(2) keeps_request_password_reset] show ?thesis by simp
next
  case (resets now salt raw pw rid ih)
  have "evolves UNIV (sy_db S) (committed (\<lambda>_. False) (confirm_password_reset A now salt raw pw rid ih) (sy_db S))"
    by (rule committed_evolves [OF inv_wf [OF assms(2)] keeps_confirm_password_reset])
      (auto intro: confirm_reset_evolves [OF inv_wf [OF assms(2)]])
  with plain_ok [OF assms(2)] resets show ?thesis by simp
next
  case (sets_active now i b actor rid ih)
  have "evolves UNIV (sy_db S) (committed (\<lambda>_. False) (set_user_active now i b actor rid ih) (sy_db S))"
    by (rule committed_evolves [OF inv_wf [OF assms(2)] keeps_set_user_active])
      (auto intro: set_active_evolves [OF inv_wf [OF assms(2)]])
  with plain_ok [OF assms(2)] sets_active show ?thesis by simp
next
  case (purges now)
  with plain_ok [OF assms(2) purge_job_evolves [OF inv_wf [OF assms(2)]]] show ?thesis by simp
next
  case (sends_mail send locked tks)
  with dispatch_evolves [OF inv_wf [OF assms(2)]] same_db_ok [OF assms(2), of "sy_db S'" "sy_redis S"] show ?thesis
    by simp
next
  case (changes_setting now key v actor rid ih)
  with framed_ok [OF assms(2) frames_back_office(1) keeps_update_setting] show ?thesis by simp
next
  case (creates_category name slug act actor rid ih)
  with framed_ok [OF assms(2) frames_back_office(2) keeps_category_commands(1)] show ?thesis by simp
next
  case (updates_category now i name slug act actor rid ih)
  with framed_ok [OF assms(2) frames_back_office(3) keeps_category_commands(2)] show ?thesis by simp
next
  case (archives_category now i actor rid ih)
  with framed_ok [OF assms(2) frames_back_office(4) keeps_category_commands(3)] show ?thesis by simp
next
  case (creates_value R ty name act actor rid ih)
  with framed_ok [OF assms(2) material_table.frames_values(1) material_table.keeps_value_commands(1)]
    framed_ok [OF assms(2) colour_table.frames_values(1) colour_table.keeps_value_commands(1)] show ?thesis by auto
next
  case (updates_value R ty now i name act actor rid ih)
  with framed_ok [OF assms(2) material_table.frames_values(2) material_table.keeps_value_commands(2)]
    framed_ok [OF assms(2) colour_table.frames_values(2) colour_table.keeps_value_commands(2)] show ?thesis by auto
next
  case (archives_value R ty now i actor rid ih)
  with framed_ok [OF assms(2) material_table.frames_values(3) material_table.keeps_value_commands(3)]
    framed_ok [OF assms(2) colour_table.frames_values(3) colour_table.keeps_value_commands(3)] show ?thesis by auto
next
  case (notifies fl i nty payload)
  with framed_ok [OF assms(2) frames_back_office(5) keeps_notification(1)] show ?thesis by simp
next
  case (marks_notification i j r)
  with framed_ok [OF assms(2) frames_back_office(6) keeps_notification(2)] show ?thesis by simp
next
  case (checks_password now a out r')
  have "evolves UNIV (sy_db S) (sy_db S)" using inv_wf [OF assms(2)] by (intro evolves_same) auto
  with checks_password login_unlocked_challenges [OF checks_password(2)] show ?thesis
    by (intro step_ok [OF assms(2)]) auto
next
  case (opens_session i h now sid a res db' u)
  with login_locked_evolves [OF inv_wf [OF assms(2)] opens_session(3)] bounded_claims(1) [OF assms(2) opens_session(4)]
  show ?thesis by (intro step_ok [OF assms(2)]) auto
next
  case (issues_challenge i h now sid a uid ep db' cid)
  from issues_challenge(3) obtain u where u: "user_by_id i (sy_db S) = Some u" "uid = u_id u" "ep = u_auth_epoch u"
    by (auto elim: login_locked_challenge)
  have b: "bounded S uid ep" using bounded_claims(2) [OF assms(2) u(1)] u by simp
  have new: "create_login_challenge now cid uid ep r (challenge_key c)
      = (if c = cid then Some (str_uuid uid @ '':'' @ py_str_int ep, Some (now + seconds CHALLENGE_TTL_SECONDS))
         else r (challenge_key c))" for c r
    by (auto simp: create_login_challenge_def r_set_def challenge_key_def)
  show ?thesis
    unfolding issues_challenge(1)
  proof (rule same_db_ok [OF assms(2) login_locked_evolves [OF inv_wf [OF assms(2)] issues_challenge(3)]])
    fix c v dl p
    assume "create_login_challenge now cid uid ep (sy_redis S) (challenge_key c) = Some (v, dl)" and "parse_challenge v = Some p"
    then show "sy_redis S (challenge_key c) = Some (v, dl) \<or> bounded S (pc_user_id p) (pc_epoch p)"
      using b parse_challenge_format [of uid ep] unfolding new by (auto split: if_splits)
  qed
next
  case (refreshes now raw rid ih mfa out db' new)
  have "c \<in> new \<Longrightarrow> bounded S (ac_user_id c) (ac_auth_epoch c)" for c
    using refreshes(3) bounded_claims(1) [OF assms(2)] by (auto split: sum.splits)
  with refreshes(1) refresh_evolves [OF inv_wf [OF assms(2)] refreshes(2)] show ?thesis
    by (intro step_ok [OF assms(2)]) auto
next
  case (logs_out now sid rid ih)
  with plain_ok [OF assms(2) logout_evolves [OF inv_wf [OF assms(2)]]] show ?thesis by simp
next
  case (sets_up_mfa secret nonce i pw rid ih)
  with framed_ok [OF assms(2) frames_commands(3)] keeps_mfa(1) show ?thesis by blast
next
  case (confirms_mfa c now draws code rid ih res db')
  have "evolves UNIV (sy_db S) db'"
    by (rule frames_evolves [OF frames_commands(4) confirms_mfa(3) inv_wf [OF assms(2)]])
      (rule preservesD [OF keeps_mfa(2) confirms_mfa(3) inv_wf [OF assms(2)]])
  moreover have "bounded S (ac_user_id c) (ac_auth_epoch c)"
    using confirms_mfa(2) assms(2) by (auto simp: auth_inv_def)
  ultimately show ?thesis
    using confirms_mfa(1) by (intro step_ok [OF assms(2)]) (auto simp: mark_completed_challenges)
next
  case (regenerates now draws i pw rid ih)
  with framed_ok [OF assms(2) frames_commands(5)] keeps_mfa(3) show ?thesis by blast
next
  case (resolves_challenge now cid p)
  have "evolves UNIV (sy_db S) (sy_db S)" using inv_wf [OF assms(2)] by (intro evolves_same) auto
  moreover have "bounded S (pc_user_id p) (pc_epoch p)"
    using resolves_challenge(2) assms(2)
    by (auto simp: resolve_login_challenge_def r_get_def auth_inv_def split: option.splits if_splits prod.splits)
  ultimately show ?thesis
    using resolves_challenge(1)
    by (intro step_ok [OF assms(2)]) (auto simp: consume_login_challenge_def r_delete_def split: if_splits)
next
  case (completes_login p now sid b rq res db' u)
  with verify_and_complete_evolves [OF inv_wf [OF assms(2)] completes_login(3)]
    bounded_claims(1) [OF assms(2) completes_login(4)]
  show ?thesis by (intro step_ok [OF assms(2)]) (auto simp: mark_completed_challenges)
next
  case (fails_second_factor p now sid b rq e db')
  with fails_second_factor_evolves [OF inv_wf [OF assms(2)] fails_second_factor(3)] show ?thesis
    by (intro step_ok [OF assms(2)]) auto
next
  case (rolls_back n)
  then show ?thesis
    using inv_wf [OF assms(2)] by (intro step_ok [OF assms(2)]) (auto intro: evolves_same)
next
  case (begins t)
  then show ?thesis
    using inv_wf [OF assms(2)] by (intro step_ok [OF assms(2)]) (auto intro: evolves_same)
next
  case (rate_limits key lim win now host out r')
  have "evolves UNIV (sy_db S) (sy_db S)" using inv_wf [OF assms(2)] by (intro evolves_same) auto
  with rate_limits rate_limiter_challenges [OF rate_limits(2)] show ?thesis
    by (intro step_ok [OF assms(2)]) auto
qed

section \<open>Runs\<close>

definition leads :: "system \<Rightarrow> system \<Rightarrow> bool" where
  "leads S S' \<longleftrightarrow> sy_ids S \<subseteq> sy_ids S' \<and> (\<forall>i e. bounded S i e \<longrightarrow> bounded S' i e)
     \<and> (\<forall>i \<in> sy_ids S. user_by_id i (sy_db S) = None \<longrightarrow> user_by_id i (sy_db S') = None)
     \<and> (\<forall>s \<in> set (sessions (sy_db S)). user_by_id (s_user_id s) (sy_db S') \<noteq> None
          \<longrightarrow> (\<exists>s' \<in> set (sessions (sy_db S')). continues s s'))"

lemma moves_leads: "moves S S' \<Longrightarrow> leads S S'"
  using bounded_moves [of S S'] unfolding leads_def by (auto simp: moves_def evolves_def history_def)

lemma continues_trans: "continues a b \<Longrightarrow> continues b c \<Longrightarrow> continues a c"
  by (auto simp: continues_def)

lemma leads_trans:
  assumes "leads S S1" and "leads S1 S2" and "auth_inv S"
  shows "leads S S2"
proof -
  have present: "user_by_id i (sy_db S1) \<noteq> None"
    if "user_by_id i (sy_db S2) \<noteq> None" and "i \<in> sy_ids S" for i
  proof
    assume "user_by_id i (sy_db S1) = None"
    moreover have "i \<in> sy_ids S1" using assms(1) that(2) by (auto simp: leads_def)
    ultimately have "user_by_id i (sy_db S2) = None" using assms(2) by (simp add: leads_def)
    with that(1) show False by simp
  qed
  have sess: "\<exists>s' \<in> set (sessions (sy_db S2)). continues s s'"
    if s: "s \<in> set (sessions (sy_db S))" and own: "user_by_id (s_user_id s) (sy_db S2) \<noteq> None" for s
  proof -
    from s assms(3) have "s_user_id s \<in> sy_ids S" by (auto simp: auth_inv_def wf_db_def)
    with present own have "user_by_id (s_user_id s) (sy_db S1) \<noteq> None" by blast
    with assms(1) s obtain s1 where s1: "s1 \<in> set (sessions (sy_db S1))" "continues s s1"
      unfolding leads_def by blast
    with own assms(2) obtain s2 where "s2 \<in> set (sessions (sy_db S2))" "continues s1 s2"
      unfolding leads_def continues_def by metis
    with s1(2) show ?thesis by (blast intro: continues_trans)
  qed
  have absent: "user_by_id i (sy_db S2) = None" if "i \<in> sy_ids S" "user_by_id i (sy_db S) = None" for i
  proof (rule ccontr)
    assume "user_by_id i (sy_db S2) \<noteq> None"
    from present [OF this that(1)] assms(1) that show False by (simp add: leads_def)
  qed
  have b: "bounded S2 i e" if "bounded S i e" for i e using assms(1,2) that unfolding leads_def by blast
  have ids: "sy_ids S \<subseteq> sy_ids S2" using assms(1,2) unfolding leads_def by blast
  show ?thesis unfolding leads_def using sess absent b ids by blast
qed

lemma run_ok:
  assumes "(auth_step A)\<^sup>*\<^sup>* S S'" and "auth_inv S"
  shows "auth_inv S' \<and> leads S S'"
  using assms
proof (induction rule: rtranclp_induct)
  case base
  then show ?case by (simp add: leads_def) (metis continues_refl)
next
  case (step S1 S2)
  then have "auth_inv S1" "leads S S1" by auto
  with auth_step_ok [OF step.hyps(2)] step.prems show ?case by (blast intro: leads_trans moves_leads)
qed

lemma reachable_inv: "reachable A S \<Longrightarrow> auth_inv S"
  unfolding reachable_def using run_ok initial_inv by blast

text \<open>An account that was cut off stays cut off from everything older.\<close>

lemma cut_off_for_good:
  assumes "auth_inv S" and "auth_step A S S1" and "(auth_step A)\<^sup>*\<^sup>* S1 S2"
    and "account_of i (sy_db S) = Some a" and "account_of i (sy_db S1) = Some b"
    and "acc_epoch a < acc_epoch b" and "acc_live b = []"
  shows "bounded S i e \<Longrightarrow> get_auth_epoch i (sy_db S2) \<noteq> Some e"
    and "s \<in> set (sessions (sy_db S)) \<Longrightarrow> s_user_id s = i \<Longrightarrow> s2 \<in> set (sessions (sy_db S2))
       \<Longrightarrow> s_id s2 = s_id s \<Longrightarrow> s_user_id s2 = i \<Longrightarrow> is_revoked s2"
proof -
  from auth_step_ok [OF assms(2,1)] have mv: "moves S S1" and inv1: "auth_inv S1" by auto
  from run_ok [OF assms(3) inv1] have inv2: "auth_inv S2" and ld: "leads S1 S2" by auto
  from assms(4) obtain u where u: "user_by_id i (sy_db S) = Some u" "acc_epoch a = u_auth_epoch u"
    by (auto simp: account_of_def)
  from assms(5) obtain v where v: "user_by_id i (sy_db S1) = Some v" "acc_epoch b = u_auth_epoch v"
    and dead: "live_sessions i (sy_db S1) = []"
    using assms(7) by (auto simp: account_of_def)
  have "i \<in> sy_ids S1" by (rule ids_of_user [OF inv1 v(1)])
  then have "bounded S1 i (u_auth_epoch v)" using v(1) by (simp add: bounded_def)
  with ld have later: "bounded S2 i (u_auth_epoch v)" by (auto simp: leads_def)
  show "get_auth_epoch i (sy_db S2) \<noteq> Some e" if "bounded S i e"
  proof -
    from that u have "e \<le> u_auth_epoch u" by (simp add: bounded_def)
    with assms(6) u v have "e < u_auth_epoch v" by simp
    with later show ?thesis by (auto simp: bounded_def get_auth_epoch_def user_by_id_def)
  qed
  show "is_revoked s2" if s: "s \<in> set (sessions (sy_db S))" "s_user_id s = i"
    and s2: "s2 \<in> set (sessions (sy_db S2))" "s_id s2 = s_id s" "s_user_id s2 = i"
  proof -
    have "user_by_id i (sy_db S1) \<noteq> None" using v by simp
    with moves_leads [OF mv] s obtain s1 where s1: "s1 \<in> set (sessions (sy_db S1))" "continues s s1"
      unfolding leads_def by blast
    with dead s(2) have r1: "is_revoked s1"
      by (auto simp: live_sessions_def filter_empty_conv live_of_def is_revoked_def continues_def)
    have "i \<in> u_id ` set (users (sy_db S2))"
      using inv2 s2 by (auto simp: auth_inv_def wf_db_def)
    then have "user_by_id (s_user_id s1) (sy_db S2) \<noteq> None"
      using s1(2) s(2) by (simp add: continues_def user_by_id_def row_by_None_iff)
    with ld s1(1) obtain s3 where s3: "s3 \<in> set (sessions (sy_db S2))" "continues s1 s3"
      unfolding leads_def by blast
    with s1(2) s2(2) have "s_id s3 = s_id s2" by (simp add: continues_def)
    with s3(1) s2(1) inv2 have "s3 = s2" by (auto simp: auth_inv_def wf_db_def distinct_map inj_on_def)
    with s3(2) r1 show ?thesis by (simp add: continues_def)
  qed
qed

lemma stale_claims_refused:
  assumes "get_auth_epoch (ac_user_id c) db \<noteq> Some (ac_auth_epoch c)"
    and "rq_cookies rq ACCESS_COOKIE = Some raw" and "decode_access_token (app_lib A) (app_cfg A) now raw = Inr c"
  shows "current_claims A now rq db = Inl unauthenticated_error"
  using assms by (auto simp: current_claims_def split: option.splits)

lemma stale_challenge_refused:
  assumes "get_auth_epoch i db \<noteq> Some e"
  shows "\<exists>err. complete_mfa_login A now sid i e ih ua rid db = (Inl err, db)"
  using assms
  by (cases "user_by_id i db") (auto simp: complete_mfa_login_def cmd_simps get_auth_epoch_def user_by_id_def)

definition outstanding_challenges :: "system \<Rightarrow> pending_challenge set" where
  "outstanding_challenges S = sy_resolved S \<union>
     {p. \<exists>cid v dl. sy_redis S (challenge_key cid) = Some (v, dl) \<and> parse_challenge v = Some p}"

text \<open>Nothing issued before survives in any later state of the service.\<close>

definition locked_out :: "app \<Rightarrow> uuid \<Rightarrow> system \<Rightarrow> system \<Rightarrow> bool" where
  "locked_out A i S S2 \<longleftrightarrow>
     (\<forall>c \<in> sy_claims S. ac_user_id c = i \<longrightarrow> (\<forall>now rq raw. rq_cookies rq ACCESS_COOKIE = Some raw
        \<and> decode_access_token (app_lib A) (app_cfg A) now raw = Inr c
        \<longrightarrow> current_claims A now rq (sy_db S2) = Inl unauthenticated_error))
   \<and> (\<forall>s \<in> set (sessions (sy_db S)). s_user_id s = i \<longrightarrow> (\<forall>s2 \<in> set (sessions (sy_db S2)).
        s_id s2 = s_id s \<and> s_user_id s2 = i \<longrightarrow> is_revoked s2))
   \<and> (\<forall>p \<in> outstanding_challenges S. pc_user_id p = i \<longrightarrow> (\<forall>now sid ih ua rid.
        \<exists>err. complete_mfa_login A now sid i (pc_epoch p) ih ua rid (sy_db S2) = (Inl err, sy_db S2)))"

lemma cut_off_locked_out:
  assumes "auth_inv S" and "auth_step A S S1" and "(auth_step A)\<^sup>*\<^sup>* S1 S2"
    and "account_of i (sy_db S) = Some a" and "account_of i (sy_db S1) = Some b"
    and "acc_epoch a < acc_epoch b" and "acc_live b = []"
  shows "locked_out A i S S2"
proof -
  note gone = cut_off_for_good [OF assms]
  have c: "bounded S (ac_user_id c) (ac_auth_epoch c)" if "c \<in> sy_claims S" for c
    using that assms(1) by (simp add: auth_inv_def)
  have p: "bounded S (pc_user_id p) (pc_epoch p)" if "p \<in> outstanding_challenges S" for p
    using that assms(1) by (auto simp: auth_inv_def outstanding_challenges_def)
  show ?thesis
    unfolding locked_out_def
  proof (intro conjI ballI allI impI)
    fix c now raw and rq :: request
    assume "c \<in> sy_claims S" "ac_user_id c = i" "rq_cookies rq ACCESS_COOKIE = Some raw
        \<and> decode_access_token (app_lib A) (app_cfg A) now raw = Inr c"
    with gone(1) c stale_claims_refused show "current_claims A now rq (sy_db S2) = Inl unauthenticated_error"
      by metis
  next
    fix p now sid ih ua rid
    assume "p \<in> outstanding_challenges S" "pc_user_id p = i"
    with gone(1) p show "\<exists>err. complete_mfa_login A now sid i (pc_epoch p) ih ua rid (sy_db S2) = (Inl err, sy_db S2)"
      by (intro stale_challenge_refused) blast
  qed (use gone(2) in blast)
qed




end
