(* ===== verification/Record_Keeping.thy ===== *)
theory Record_Keeping
  imports Auth_System
begin

text \<open>
  What the service never forgets: no step removes or alters a row of the audit log, except that the
  purge of an account clears the reference to it, and an archived category, material or colour stays
  exactly as it was archived.
\<close>

definition same_entry :: "audit_entry \<Rightarrow> audit_entry \<Rightarrow> bool" where
  "same_entry a b \<longleftrightarrow> b = a \<or> b = a\<lparr>al_actor_user_id := None\<rparr>"

definition log_kept :: "audit_entry list \<Rightarrow> audit_entry list \<Rightarrow> bool" where
  "log_kept old new \<longleftrightarrow> length old \<le> length new \<and> (\<forall>k < length old. same_entry (old ! k) (new ! k))"

definition frozen :: "'a reference_value_scheme list \<Rightarrow> 'a reference_value_scheme list \<Rightarrow> bool" where
  "frozen old new \<longleftrightarrow> (\<forall>v \<in> set old. is_archived v \<longrightarrow> v \<in> set new)"

definition records :: "database \<Rightarrow> database \<Rightarrow> bool" where
  "records db db' \<longleftrightarrow> log_kept (audit_logs db) (audit_logs db') \<and> frozen (categories db) (categories db')
     \<and> frozen (materials db) (materials db') \<and> frozen (colours db) (colours db')"

lemma log_kept_refl [simp]: "log_kept old old"
  by (simp add: log_kept_def same_entry_def)

lemma log_kept_trans:
  assumes "log_kept a b" and "log_kept b c"
  shows "log_kept a c"
proof -
  have "same_entry (a ! k) (c ! k)" if k: "k < length a" for k
  proof -
    have "same_entry (a ! k) (b ! k)" "same_entry (b ! k) (c ! k)"
      using assms k by (simp_all add: log_kept_def)
    then show ?thesis by (auto simp: same_entry_def)
  qed
  then show ?thesis using assms by (simp add: log_kept_def)
qed

lemma log_kept_append: "log_kept a b \<Longrightarrow> log_kept a (b @ c)"
  by (auto simp: log_kept_def nth_append)

lemma frozen_refl [simp]: "frozen rows rows"
  by (simp add: frozen_def)

lemma frozen_append: "frozen a b \<Longrightarrow> frozen a (b @ c)"
  by (simp add: frozen_def)

lemma records_refl [simp]: "records db db"
  by (simp add: records_def)

lemma records_counters [simp]: "records db (db\<lparr>gen_ctr := n\<rparr>)" "records db (db\<lparr>tx_now := t\<rparr>)"
  by (simp_all add: records_def)

lemma records_trans: "records a b \<Longrightarrow> records b c \<Longrightarrow> records a c"
  unfolding records_def frozen_def using log_kept_trans by blast

section \<open>The statements and commands\<close>

definition same_records :: "database \<Rightarrow> database \<Rightarrow> bool" where
  "same_records db db' \<longleftrightarrow> audit_logs db' = audit_logs db \<and> categories db' = categories db
     \<and> materials db' = materials db \<and> colours db' = colours db"

lemma records_same: "records db0 db \<Longrightarrow> same_records db db' \<Longrightarrow> records db0 db'"
  by (simp add: records_def same_records_def)

lemma exec_same: "(\<And>db db'. w db = Inr db' \<Longrightarrow> same_records db db') \<Longrightarrow> preserves (records db0) (exec w)"
  by (rule preserves_exec) (blast intro: records_same)

lemma insert_same: "(\<And>db a db'. w db = Inr (a, db') \<Longrightarrow> same_records db db') \<Longrightarrow> preserves (records db0) (insert_row w)"
  by (rule preserves_insert) (blast intro: records_same)

lemma bulk_same: "(\<And>db. same_records db (snd (w db))) \<Longrightarrow> preserves (records db0) (bulk w)"
  by (rule preserves_bulk) (blast intro: records_same)

named_theorems recorded \<open>statements and commands that keep the records\<close>

lemmas [recorded] = preserves_ret preserves_raise preserves_query preserves_from_entity preserves_andthen
  preserves_if preserves_case_option preserves_case_prod preserves_case_rotation preserves_platform preserves_catalog

lemma rc_add_set_records: "rc_add_set i hs db = Inr db' \<Longrightarrow> same_records db db'"
  by (induction i hs db rule: rc_add_set.induct) (auto simp: same_records_def split: if_splits)

lemma recorded_statements [recorded]:
  "preserves (records db0) (exec (user_save u))" "preserves (records db0) (exec (session_add sid i h e ip ua))"
  "preserves (records db0) (exec (session_save s))" "preserves (records db0) (exec (vt_add i h e))"
  "preserves (records db0) (exec (vt_save v))" "preserves (records db0) (exec (rt_add i h e))"
  "preserves (records db0) (exec (rt_save r))" "preserves (records db0) (exec (mc_add i m ct))"
  "preserves (records db0) (exec (mc_save c))" "preserves (records db0) (exec (rc_save rc))"
  "preserves (records db0) (exec (rc_add_set i hs))" "preserves (records db0) (exec (outbox_add oi rcpt tm pl))"
  "preserves (records db0) (exec (setting_save st))"
  by (rule exec_same, auto simp: same_records_def user_save_def session_add_def session_save_def vt_add_def vt_save_def
      rt_add_def rt_save_def mc_add_def mc_save_def rc_save_def outbox_add_def
      dest!: rc_add_set_records setting_save_frame split: if_splits option.splits)+

lemma recorded_bulk [recorded]:
  "preserves (records db0) (bulk (revoke_all_for_user i now))"
  "preserves (records db0) (bulk (consume_outstanding_for_user i now))"
  "preserves (records db0) (bulk (rc_delete_unused i))" "preserves (records db0) (bulk (set_read_state i j r))"
  by (rule bulk_same, simp add: same_records_def revoke_all_for_user_def consume_outstanding_for_user_def
      rc_delete_unused_def set_read_state_def)+

lemma recorded_inserts [recorded]:
  "preserves (records db0) (insert_row (user_add email h))" "preserves (records db0) (insert_row (notification_add i nty d))"
  by (rule insert_same, auto simp: same_records_def user_add_def notification_add_def Let_def split: if_splits)+

lemma recorded_appends [recorded]:
  "preserves (records db0) (exec (audit_add a))" "preserves (records db0) (insert_row (category_add n s b))"
proof -
  show "preserves (records db0) (exec (audit_add a))"
    by (rule preserves_exec) (auto simp: audit_add_def records_def log_kept_append split: if_splits)
  show "preserves (records db0) (insert_row (category_add n s b))"
    by (rule preserves_insert) (auto simp: category_add_def records_def frozen_append Let_def split: if_splits)
qed

lemma recorded_commands:
  "preserves (records db0) (register_user A now salt raw email pw rid ih)"
  "preserves (records db0) (verify_email now raw rid ih)"
  "preserves (records db0) (request_password_reset A now raw email rid ih)"
  "preserves (records db0) (confirm_password_reset A now salt raw pw rid ih)"
  "preserves (records db0) (login_locked A now sid a i h)"
  "preserves (records db0) (refresh_session A now raw rid ih mfa)"
  "preserves (records db0) (logout now sid rid ih)"
  "preserves (records db0) (mfa_setup A secret nonce i pw rid ih)"
  "preserves (records db0) (mfa_confirm_setup A now draws i code rid ih)"
  "preserves (records db0) (mfa_regenerate_recovery_codes A now draws i pw rid ih)"
  "preserves (records db0) (mfa_verify A now i cd rcode rid ih)"
  "preserves (records db0) (complete_mfa_login A now sid i ep ih ua rid)"
  "preserves (records db0) (update_setting now key v actor rid ih)"
  "preserves (records db0) (create_notification fl i nty payload)"
  "preserves (records db0) (create_category name slug act actor rid ih)"
  unfolding register_user_def verify_email_def request_password_reset_def confirm_password_reset_def login_locked_def
    open_session_def refresh_session_def logout_def mfa_setup_def mfa_confirm_setup_def
    mfa_regenerate_recovery_codes_def mfa_verify_def verify_recovery_def verify_totp_def complete_mfa_login_def
    update_setting_def create_notification_def create_category_def issue_verification_email_def
    issue_password_reset_email_def Let_def
  by (intro recorded)+

lemma recorded_resend: "preserves (records db0) (resend_verification A now raw email rid ih)"
  unfolding resend_verification_def perform_dummy_hash_def issue_verification_email_def Let_def
  by (intro recorded | auto intro!: recorded split: argon2_outcome.split)+

lemma recorded_set_active: "preserves (records db0) (set_user_active now i b actor rid ih)"
proof -
  have prod: "preserves I (case p of (True, v) \<Rightarrow> f v | (False, v) \<Rightarrow> g v)"
    if "\<And>v. preserves I (f v)" and "\<And>v. preserves I (g v)"
    for p :: "bool \<times> user" and f g :: "user \<Rightarrow> set_active_result option cmd" and I
    using that by (cases p) (auto split: bool.split)
  show ?thesis
    unfolding set_user_active_def Let_def by (intro prod recorded)
qed

section \<open>Changes of the catalogue\<close>

text \<open>A change of one table leaves the other two as they are.\<close>

lemma category_commands_preserve:
  assumes "\<And>c. preserves I (exec (category_save c))" and "\<And>a. preserves I (exec (audit_add a))"
  shows "preserves I (update_category now i name slug act actor rid ih)"
    and "preserves I (archive_category now i actor rid ih)"
  unfolding update_category_def archive_category_def Let_def by (intro recorded(1-11) assms)+

lemma value_commands_preserve:
  assumes "\<And>v. preserves I (exec (vr_save R v))" and "\<And>a. preserves I (exec (audit_add a))"
  shows "preserves I (update_reference_value R ty now i name act actor rid ih)"
    and "preserves I (archive_reference_value R ty now i actor rid ih)"
  unfolding update_reference_value_def archive_reference_value_def Let_def by (intro recorded(1-11) assms)+

lemma log_kept_snoc: "log_kept xs (xs @ ys)"
  by (simp add: log_kept_append)

lemma category_changes_record:
  assumes "wf_db db"
    and "update_category now i name slug act actor rid ih db = (Inr res, db') \<or> archive_category now i actor rid ih db = (Inr c, db')"
  shows "records db db'"
proof -
  let ?I = "\<lambda>d. materials d = materials db \<and> colours d = colours db"
  have "preserves ?I (exec (category_save c))" "preserves ?I (exec (audit_add a))" for c a
    by (rule preserves_exec, auto simp: audit_add_def dest!: category_save_frame(1) split: if_splits)+
  note other = category_commands_preserve [where I = ?I, OF this]
  have "?I db'" using assms(2) preservesD [OF other(1)] preservesD [OF other(2)] by blast
  moreover have "\<exists>c w e. category_by_id i db = Some c \<and> \<not> is_archived c
      \<and> categories db' = put_row rv_id i (\<lambda>_. w) (categories db) \<and> audit_logs db' = audit_logs db @ [e]"
    using assms(2)
  proof
    assume "update_category now i name slug act actor rid ih db = (Inr res, db')"
    from update_category_view [OF assms(1) this] show ?thesis by metis
  next
    assume "archive_category now i actor rid ih db = (Inr c, db')"
    from archive_category_view [OF assms(1) this] show ?thesis by metis
  qed
  ultimately show ?thesis
    using category_table.archived_rows_stay [OF assms(1)] by (auto simp: records_def frozen_def log_kept_snoc)
qed

context value_store
begin

lemma value_changes_record:
  assumes "wf_db db" and "update_reference_value R ty now i name act actor rid ih db = (Inr res, db')
      \<or> archive_reference_value R ty now i actor rid ih db = (Inr v, db')"
  shows "log_kept (audit_logs db) (audit_logs db') \<and> frozen (rows db) (rows db')"
proof -
  have "\<exists>v w e. vr_get_for_update R i db = Some v \<and> \<not> is_archived v
      \<and> rows db' = put_row rv_id i (\<lambda>_. w) (rows db) \<and> audit_logs db' = audit_logs db @ [e]"
    using assms(2)
  proof
    assume "update_reference_value R ty now i name act actor rid ih db = (Inr res, db')"
    from update_value [OF assms(1) this] show ?thesis by metis
  next
    assume "archive_reference_value R ty now i actor rid ih db = (Inr v, db')"
    from archive_value [OF assms(1) this] show ?thesis by metis
  qed
  then show ?thesis using archived_rows_stay [OF assms(1)] by (auto simp: frozen_def log_kept_snoc)
qed

end

lemma value_saves_elsewhere:
  "preserves (\<lambda>d. categories d = cs \<and> colours d = ls) (exec (vr_save material_repository v))"
  "preserves (\<lambda>d. categories d = cs \<and> materials d = ms) (exec (vr_save colour_repository v))"
  "preserves (\<lambda>d. categories d = cs \<and> colours d = ls) (exec (audit_add a))"
  "preserves (\<lambda>d. categories d = cs \<and> materials d = ms) (exec (audit_add a))"
  by (rule preserves_exec, auto simp: value_repositories audit_add_def dest!: value_save_frame split: if_splits)+

lemma recorded_values:
  assumes "wf_db db" and "R \<in> {material_repository, colour_repository}"
    and "update_reference_value R ty now i name act actor rid ih db = (Inr res, db')
      \<or> archive_reference_value R ty now i actor rid ih db = (Inr v, db')"
  shows "records db db'"
proof -
  let ?M = "\<lambda>d. categories d = categories db \<and> colours d = colours db"
  let ?C = "\<lambda>d. categories d = categories db \<and> materials d = materials db"
  consider "R = material_repository" | "R = colour_repository" using assms(2) by blast
  then show ?thesis
  proof cases
    case 1
    note other = value_commands_preserve [where I = ?M, OF value_saves_elsewhere(1,3)]
    have "?M db'" using assms(3) preservesD [OF other(1)] preservesD [OF other(2)] unfolding 1 by blast
    with material_table.value_changes_record [OF assms(1) assms(3) [unfolded 1]] show ?thesis
      by (simp add: records_def)
  next
    case 2
    note other = value_commands_preserve [where I = ?C, OF value_saves_elsewhere(2,4)]
    have "?C db'" using assms(3) preservesD [OF other(1)] preservesD [OF other(2)] unfolding 2 by blast
    with colour_table.value_changes_record [OF assms(1) assms(3) [unfolded 2]] show ?thesis
      by (simp add: records_def)
  qed
qed

lemma recorded_new_value:
  assumes "R \<in> {material_repository, colour_repository}"
  shows "preserves (records db0) (create_reference_value R ty name act actor rid ih)"
proof -
  have "preserves (records db0) (insert_row (vr_add R n b))" for n b
    using assms
    by (intro preserves_insert)
      (auto simp: value_repositories records_def frozen_append dest!: value_add_frame)
  then show ?thesis
    unfolding create_reference_value_def by (intro recorded)
qed

section \<open>Every step\<close>

lemma committed_records:
  assumes "preserves (records db) c"
  shows "records db (committed cm c db)"
proof -
  have "records db d" if "c db = (x, d)" for x d
    by (rule preservesD [OF assms that]) simp
  moreover have "records db (db\<lparr>gen_ctr := n\<rparr>)" for n by (simp add: records_def)
  ultimately show ?thesis by (auto simp: committed_def in_transaction_def split: prod.splits sum.splits)
qed

lemma committed_success:
  assumes "\<And>a db'. c db = (Inr a, db') \<Longrightarrow> records db db'"
  shows "records db (committed (\<lambda>_. False) c db)"
  by (rule committed_plain [where P = "records db"]) (use assms in \<open>auto simp: records_def\<close>)

lemma log_kept_map: "(\<And>a. same_entry a (f a)) \<Longrightarrow> log_kept xs (map f xs)"
  by (simp add: log_kept_def)

lemma purge_records: "records db (snd (purge_never_verified_before cutoff db))"
  by (auto simp: records_def purge_never_verified_before_def Let_def same_entry_def intro!: log_kept_map
      split: option.split)

lemma purge_job_records: "records db (committed (\<lambda>_. False) (purge_unverified_accounts now) db)"
proof (rule committed_success)
  fix a db'
  assume "purge_unverified_accounts now db = (Inr a, db')"
  then obtain n where "purge_never_verified_before (now - seconds n) db = (a, db')"
    by (auto simp: purge_unverified_accounts_def andthen_Inr bulk_Inr dest!: settings_reads)
  with purge_records [of db "now - seconds n"] show "records db db'" by simp
qed

lemma dispatch_loop_records:
  "dispatch_loop send locked tks k db = (out, db') \<Longrightarrow> same_records db db'"
proof (induction send locked tks k db rule: dispatch_loop.induct)
  case (2 send locked tk tks k db)
  show ?case
  proof (cases "claim_due 1 (tk_claim tk) locked db")
    case (Cons m ms)
    show ?thesis
    proof (cases "outbox_save (attempt_send send tk m) db")
      case (Inr d)
      have "same_records db d" using Inr by (auto simp: outbox_save_def same_records_def split: option.splits if_splits)
      with 2(1) [OF Cons Inr] 2(2) Cons Inr show ?thesis by (simp add: same_records_def)
    qed (use 2 Cons in \<open>simp add: same_records_def\<close>)
  qed (use 2 in \<open>simp add: same_records_def\<close>)
qed (simp add: same_records_def)

lemma dispatch_records: "records db (snd (dispatch_outbox send locked tks db))"
proof -
  obtain out db' where "dispatch_outbox send locked tks db = (out, db')" by (rule prod.exhaust)
  with dispatch_loop_records [of send locked "take BATCH_SIZE tks" 0 db out db'] show ?thesis
    by (auto simp: dispatch_outbox_def intro: records_same [OF records_refl])
qed

lemma second_factor_records:
  "preserves (records db0) (verify_and_complete A now sid p b rq)"
  unfolding verify_and_complete_def by (intro recorded recorded_commands)

lemma step_records:
  assumes "auth_step A S S'" and "auth_inv S"
  shows "records (sy_db S) (sy_db S')"
  using assms(1)
proof (cases rule: auth_step.cases)
  case (updates_category now i name slug act actor rid ih)
  then show ?thesis
    by (auto intro!: committed_success intro: category_changes_record [OF inv_wf [OF assms(2)] disjI1])
next
  case (archives_category now i actor rid ih)
  then show ?thesis
    by (auto intro!: committed_success intro: category_changes_record [OF inv_wf [OF assms(2)] disjI2])
next
  case (updates_value R ty now i name act actor rid ih)
  then show ?thesis
    by (auto intro!: committed_success intro: recorded_values [OF inv_wf [OF assms(2)] _ disjI1])
next
  case (archives_value R ty now i actor rid ih)
  then show ?thesis
    by (auto intro!: committed_success intro: recorded_values [OF inv_wf [OF assms(2)] _ disjI2])
next
  case (opens_session i h now sid a res db' u)
  with preservesD [OF recorded_commands(5) opens_session(3) records_refl] show ?thesis by simp
next
  case (issues_challenge i h now sid a uid ep db' cid)
  with preservesD [OF recorded_commands(5) issues_challenge(3) records_refl] show ?thesis by simp
next
  case (refreshes now raw rid ih mfa out db' new)
  with committed_records [OF recorded_commands(6), of "sy_db S" is_session_terminated A now raw rid ih mfa] show ?thesis
    by (simp add: committed_def)
next
  case (confirms_mfa c now draws code rid ih res db')
  with preservesD [OF recorded_commands(9) confirms_mfa(3) records_refl] show ?thesis by simp
next
  case (completes_login p now sid b rq res db' u)
  with preservesD [OF second_factor_records completes_login(3) records_refl] show ?thesis by simp
next
  case (fails_second_factor p now sid b rq e db')
  with committed_records [OF second_factor_records, of "sy_db S" "\<lambda>e. e = MfaCodeReplayedError" A now sid p b rq]
  show ?thesis
    by (simp add: committed_def)
qed (auto simp: known_ids_def intro!: committed_records recorded_commands recorded_resend recorded_set_active
    purge_job_records dispatch_records recorded_new_value recorded)

section \<open>What is kept\<close>

lemma run_records:
  assumes "(auth_step A)\<^sup>*\<^sup>* S S2" and "auth_inv S"
  shows "records (sy_db S) (sy_db S2)"
  using assms
proof (induction rule: rtranclp_induct)
  case (step S1 S2)
  then have "auth_inv S1" "records (sy_db S) (sy_db S1)" using run_ok by blast+
  with step_records [OF step.hyps(2)] show ?case by (blast intro: records_trans)
qed simp

text \<open>C7: Whatever the service does, in whatever order, every audit row it has written stays in its place
  and as it is, except that the purge of an account clears the reference to it.\<close>

theorem audit_log_append_only:
  assumes "reachable A S" and "(auth_step A)\<^sup>*\<^sup>* S S2"
  shows "length (audit_logs (sy_db S)) \<le> length (audit_logs (sy_db S2))
    \<and> (\<forall>k < length (audit_logs (sy_db S)). same_entry (audit_logs (sy_db S) ! k) (audit_logs (sy_db S2) ! k))"
  using run_records [OF assms(2) reachable_inv [OF assms(1)]] by (simp add: records_def log_kept_def)

text \<open>C6: An archived category, material or colour is final: every later state of the service still has
  the row exactly as it was archived.  There is no way back and nothing edits or removes it.\<close>

theorem archived_values_final:
  assumes "reachable A S" and "(auth_step A)\<^sup>*\<^sup>* S S2"
  shows "(\<forall>c. category_by_id i (sy_db S) = Some c \<and> is_archived c \<longrightarrow> category_by_id i (sy_db S2) = Some c)
    \<and> (\<forall>v. material_by_id i (sy_db S) = Some v \<and> is_archived v \<longrightarrow> material_by_id i (sy_db S2) = Some v)
    \<and> (\<forall>v. colour_by_id i (sy_db S) = Some v \<and> is_archived v \<longrightarrow> colour_by_id i (sy_db S2) = Some v)"
proof -
  have inv: "auth_inv S" by (rule reachable_inv [OF assms(1)])
  from run_ok [OF assms(2) inv] have "wf_db (sy_db S2)" by (simp add: auth_inv_def)
  then have ids: "distinct (map rv_id (categories (sy_db S2)))" "distinct (map rv_id (materials (sy_db S2)))"
    "distinct (map rv_id (colours (sy_db S2)))" by (simp_all add: wf_db_def wf_office_def)
  have kept: "row_by rv_id i new = Some v"
    if "frozen old new" "distinct (map rv_id new)" "row_by rv_id i old = Some v" "is_archived v"
    for old new :: "'b reference_value_scheme list" and v
  proof -
    from that(3) have "v \<in> set old" "rv_id v = i" by (auto dest: row_by_SomeD)
    with that show ?thesis by (auto simp: frozen_def intro: row_by_unique)
  qed
  from run_records [OF assms(2) inv] ids show ?thesis
    by (auto simp: records_def category_by_id_def material_by_id_def colour_by_id_def intro: kept)
qed

end
