(* ===== verification/Settings_Routes.thy ===== *)
theory Settings_Routes
  imports Settings_Store Api_Boundary Keyset_Paging Cursor_Codec
begin

text \<open>
  The settings editor of administrators and the public allowlist (platform/api/settings.py and
  schemas.py).  The admin routes sit behind \<open>require_admin\<close>, which api/v1/admin.py declares on
  their router.
\<close>

section \<open>Representations\<close>

record setting_read =
  sv_key :: string
  sv_type :: setting_type
  sv_value :: pyval
  sv_description :: "string option"
  sv_unit :: "string option"
  sv_minimum :: "int option"
  sv_maximum :: "int option"
  sv_nullable :: bool
  sv_is_public :: bool
  sv_updated_at :: timestamp
  sv_updated_by :: "uuid option"

record setting_page =
  sp_items :: "setting_read list"
  sp_next_cursor :: "string option"

record public_settings_read =
  pr_accepting_orders :: bool
  pr_free_shipping_threshold :: "(int \<times> string) option"
  pr_pickup_address :: "string option"
  pr_pickup_hours :: "string option"
  pr_whatsapp_number :: "string option"

definition from_setting :: "setting \<Rightarrow> platform_error + setting_read" where
  "from_setting s = (case definition_for (st_key s) of Inl e \<Rightarrow> Inl e
     | Inr spec \<Rightarrow> Inr \<lparr>sv_key = st_key s, sv_type = st_type s, sv_value = st_value s,
         sv_description = st_description s, sv_unit = sd_unit spec, sv_minimum = sd_minimum spec,
         sv_maximum = sd_maximum spec, sv_nullable = sd_nullable spec, sv_is_public = sd_is_public spec,
         sv_updated_at = st_updated_at s, sv_updated_by = st_updated_by s\<rparr>)"

fun from_settings :: "setting list \<Rightarrow> platform_error + setting_read list" where
  "from_settings [] = Inr []"
| "from_settings (s # ss) = (case from_setting s of Inl e \<Rightarrow> Inl e
     | Inr r \<Rightarrow> (case from_settings ss of Inl e \<Rightarrow> Inl e | Inr rs \<Rightarrow> Inr (r # rs)))"

text \<open>\<open>SettingUpdate\<close>: exactly one field.\<close>

definition parse_setting_update :: "pyval \<Rightarrow> pyval option" where
  "parse_setting_update body = (case body of
       PDict d \<Rightarrow> if fst ` set d = {''value''} then map_of d ''value'' else None
     | _ \<Rightarrow> None)"

section \<open>The administrator's routes\<close>

definition decode_key_cursor :: "string option \<Rightarrow> failure + string option" where
  "decode_key_cursor raw = (case raw of None \<Rightarrow> Inr None
     | Some r \<Rightarrow> (case validate_key_cursor r of None \<Rightarrow> Inl validation_error | Some k \<Rightarrow> Inr (Some k)))"

definition list_settings_route ::
  "app \<Rightarrow> collation \<Rightarrow> timestamp \<Rightarrow> request \<Rightarrow> string option \<Rightarrow> nat \<Rightarrow> string option \<Rightarrow> setting_type option
     \<Rightarrow> setting_page route" where
  "list_settings_route A coll now rq cursor limit prefix type =
     depends (\<lambda>w. require_admin A now rq (w_db w)) (\<lambda>_.
     valid_body (1 \<le> limit \<and> limit \<le> 100 \<and> (case prefix of None \<Rightarrow> True | Some p \<Rightarrow> length p \<le> 64)) (\<lambda>w.
       (case decode_key_cursor cursor of
          Inl f \<Rightarrow> (Inl f, w)
        | Inr after_key \<Rightarrow>
            (case page_of limit (settings_list_page coll prefix type (w_db w)) st_key after_key of
               (page, next_key) \<Rightarrow>
                 (case from_settings page of
                    Inl e \<Rightarrow> (Inl Unhandled, w)
                  | Inr items \<Rightarrow> (Inr \<lparr>an_status = 200, an_headers = [], an_cookies = [],
                      an_body = \<lparr>sp_items = items, sp_next_cursor = map_option encode_key_cursor next_key\<rparr>\<rparr>, w))))))"

definition load_registered :: "string \<Rightarrow> database \<Rightarrow> platform_error + setting" where
  "load_registered key db = (case definition_for key of Inl e \<Rightarrow> Inl e
     | Inr _ \<Rightarrow> (case setting_by_key key db of None \<Rightarrow> Inl (SettingNotFoundError key) | Some s \<Rightarrow> Inr s))"

definition setting_answer :: "setting \<Rightarrow> world \<Rightarrow> (failure + setting_read answer) \<times> world" where
  "setting_answer s w = (case from_setting s of Inl e \<Rightarrow> (Inl Unhandled, w)
     | Inr r \<Rightarrow> (Inr \<lparr>an_status = 200, an_headers = [], an_cookies = [], an_body = r\<rparr>, w))"

definition read_setting_route :: "app \<Rightarrow> timestamp \<Rightarrow> request \<Rightarrow> string \<Rightarrow> setting_read route" where
  "read_setting_route A now rq key =
     depends (\<lambda>w. require_admin A now rq (w_db w)) (\<lambda>_ w.
       (case load_registered key (w_db w) of
          Inl e \<Rightarrow> (Inl (case e of SettingNotFoundError k \<Rightarrow> not_found_error | _ \<Rightarrow> Unhandled), w)
        | Inr s \<Rightarrow> setting_answer s w))"

definition update_setting_failure :: "app_error \<Rightarrow> failure" where
  "update_setting_failure e = (case e of
       Platform (SettingNotFoundError k) \<Rightarrow> not_found_error
     | Platform (InvalidSettingValueError k reasons) \<Rightarrow>
         problem 422 ''SETTING_INVALID'' ''Setting value is not valid'' (py_join ''; '' reasons)
     | _ \<Rightarrow> Unhandled)"

definition update_setting_route :: "app \<Rightarrow> timestamp \<Rightarrow> request \<Rightarrow> string \<Rightarrow> pyval \<Rightarrow> setting_read route" where
  "update_setting_route A now rq key body =
     depends (\<lambda>w. require_admin A now rq (w_db w)) (\<lambda>claims.
     depends (\<lambda>w. require_csrf A now rq (w_db w)) (\<lambda>_ w.
       (case parse_setting_update body of
          None \<Rightarrow> (Inl validation_error, w)
        | Some value \<Rightarrow>
            (case settle (\<lambda>_. False) update_setting_failure
               (update_setting now key value (ac_user_id claims) (rq_request_id rq)
                  (client_ip_hash (app_cfg A) rq)) w of
               (Inl f, w') \<Rightarrow> (Inl f, w')
             | (Inr res, w') \<Rightarrow> setting_answer (us_setting res) w'))))"

section \<open>The public route\<close>

fun public_values :: "(string \<rightharpoonup> setting) \<Rightarrow> string list \<Rightarrow> platform_error + (string \<times> pyval) list" where
  "public_values found [] = Inr []"
| "public_values found (key # keys) = (case found key of
       None \<Rightarrow> Inl (SettingNotFoundError key)
     | Some s \<Rightarrow> (case definition_for key of Inl e \<Rightarrow> Inl e
         | Inr d \<Rightarrow>
             if st_type s \<noteq> sd_type d
             then Inl (SettingTypeMismatchError key (Declared (st_type s)) (Declared (sd_type d)))
             else (case validate_value key (st_value s) of Inl e \<Rightarrow> Inl e
                 | Inr v \<Rightarrow> (case public_values found keys of Inl e \<Rightarrow> Inl e
                     | Inr vs \<Rightarrow> Inr ((key, v) # vs)))))"

text \<open>\<open>PublicSettingsRead(**values)\<close>; \<open>None\<close> is a value of the wrong type.\<close>

definition as_text :: "pyval option \<Rightarrow> string option option" where
  "as_text v = (case v of Some PNone \<Rightarrow> Some None | Some (PStr s) \<Rightarrow> Some (Some s) | _ \<Rightarrow> None)"

definition as_money :: "pyval option \<Rightarrow> (int \<times> string) option option" where
  "as_money v = (case v of Some PNone \<Rightarrow> Some None
     | Some (PDict d) \<Rightarrow> (case (map_of d ''amount_cents'', map_of d ''currency'') of
           (Some (PInt n), Some (PStr c)) \<Rightarrow> Some (Some (n, c)) | _ \<Rightarrow> None)
     | _ \<Rightarrow> None)"

definition public_read :: "(string \<times> pyval) list \<Rightarrow> public_settings_read option" where
  "public_read vs = (case (map_of vs ''accepting_orders'', as_money (map_of vs ''free_shipping_threshold''),
         as_text (map_of vs ''pickup_address''), as_text (map_of vs ''pickup_hours''),
         as_text (map_of vs ''whatsapp_number'')) of
       (Some (PBool b), Some m, Some a, Some h, Some t) \<Rightarrow>
         Some \<lparr>pr_accepting_orders = b, pr_free_shipping_threshold = m, pr_pickup_address = a,
           pr_pickup_hours = h, pr_whatsapp_number = t\<rparr>
     | _ \<Rightarrow> None)"

definition read_public_settings_route :: "timestamp \<Rightarrow> request \<Rightarrow> public_settings_read route" where
  "read_public_settings_route now rq =
     limited ''settings:public'' 600 3600 now rq (\<lambda>hs w.
       (case public_values (settings_get_many PUBLIC_KEYS (w_db w)) PUBLIC_KEYS of
          Inl e \<Rightarrow> (Inl Unhandled, w)
        | Inr vs \<Rightarrow> (case public_read vs of None \<Rightarrow> (Inl Unhandled, w)
            | Some body \<Rightarrow> (Inr \<lparr>an_status = 200, an_headers = hs, an_cookies = [], an_body = body\<rparr>, w))))"

section \<open>What the public route shows\<close>

lemma public_registry:
  "REGISTRY ''accepting_orders'' = Some accepting_orders_definition"
  "REGISTRY ''free_shipping_threshold'' = Some free_shipping_threshold_definition"
  "REGISTRY ''pickup_address'' = Some pickup_address_definition"
  "REGISTRY ''pickup_hours'' = Some pickup_hours_definition"
  "REGISTRY ''whatsapp_number'' = Some whatsapp_number_definition"
  by (simp_all add: registry_iff DEFINITIONS_def setting_definitions)

lemma public_keys_known: "k \<in> set PUBLIC_KEYS \<Longrightarrow> k \<in> set ALL_KEYS"
  by (auto simp: PUBLIC_KEYS_def ALL_KEYS_def)

lemma public_values_valid:
  assumes "settings_valid (setting_rows db)" and "set keys \<subseteq> set PUBLIC_KEYS"
  shows "public_values (settings_get_many PUBLIC_KEYS db) keys = Inr (map (\<lambda>k. (k, the (value_of k db))) keys)"
  using assms(2)
proof (induction keys)
  case (Cons k keys)
  then have k: "k \<in> set PUBLIC_KEYS" by simp
  obtain s d where "setting_by_key k db = Some s" "REGISTRY k = Some d" "st_type s = sd_type d"
    "validate_value k (st_value s) = Inr (st_value s)"
    using valid_setting [OF assms(1) public_keys_known [OF k]] by metis
  with Cons k show ?case
    by (simp add: settings_get_many_def definition_for_def value_of_def)
qed simp

lemma public_value:
  assumes "settings_valid (setting_rows db)" and "REGISTRY k = Some d"
  shows "\<exists>v. value_of k db = Some v \<and> satisfies d v"
proof -
  from assms(2) have "k \<in> set ALL_KEYS" by (auto simp: registry_iff ALL_KEYS_def)
  from valid_setting [OF assms(1) this] assms(2) show ?thesis
    by (metis option.inject option.simps(9) value_of_def)
qed

lemma text_satisfies:
  "satisfies d v \<Longrightarrow> sd_type d = STRING \<Longrightarrow> \<exists>t. as_text (Some v) = Some t"
  by (auto simp: satisfies_def as_text_def split: if_splits)

text \<open>On a valid table the public route never fails: it answers with the stored values of the five
  public settings.\<close>

theorem public_settings_served:
  assumes "wf_db (w_db w)"
    and "rate_limiter ''settings:public'' 600 3600 now (rq_client rq) (w_redis w) = Some (Inr hs, r')"
  shows "\<exists>body. read_public_settings_route now rq w
      = (Inr \<lparr>an_status = 200, an_headers = hs, an_cookies = [], an_body = body\<rparr>, w\<lparr>w_redis := r'\<rparr>)
    \<and> value_of ''accepting_orders'' (w_db w) = Some (PBool (pr_accepting_orders body))
    \<and> as_money (value_of ''free_shipping_threshold'' (w_db w)) = Some (pr_free_shipping_threshold body)
    \<and> as_text (value_of ''pickup_address'' (w_db w)) = Some (pr_pickup_address body)
    \<and> as_text (value_of ''pickup_hours'' (w_db w)) = Some (pr_pickup_hours body)
    \<and> as_text (value_of ''whatsapp_number'' (w_db w)) = Some (pr_whatsapp_number body)"
proof -
  note valid = wf_settings [OF assms(1)]
  note val = public_value [OF valid]
  obtain b where b: "value_of ''accepting_orders'' (w_db w) = Some (PBool b)"
    using val [OF public_registry(1)] by (auto simp: satisfies_def setting_definitions split: if_splits)
  obtain v m where m: "value_of ''free_shipping_threshold'' (w_db w) = Some v" "as_money (Some v) = Some m"
    using val [OF public_registry(2)]
    by (auto simp: satisfies_def setting_definitions money_allowed_def as_money_def split: if_splits)
  obtain v1 a where a: "value_of ''pickup_address'' (w_db w) = Some v1" "as_text (Some v1) = Some a"
    using val [OF public_registry(3)] text_satisfies by (fastforce simp: setting_definitions)
  obtain v2 h where h: "value_of ''pickup_hours'' (w_db w) = Some v2" "as_text (Some v2) = Some h"
    using val [OF public_registry(4)] text_satisfies by (fastforce simp: setting_definitions)
  obtain v3 t where t: "value_of ''whatsapp_number'' (w_db w) = Some v3" "as_text (Some v3) = Some t"
    using val [OF public_registry(5)] text_satisfies by (fastforce simp: setting_definitions)
  let ?body = "\<lparr>pr_accepting_orders = b, pr_free_shipping_threshold = m, pr_pickup_address = a,
     pr_pickup_hours = h, pr_whatsapp_number = t\<rparr>"
  have "public_read (map (\<lambda>k. (k, the (value_of k (w_db w)))) PUBLIC_KEYS) = Some ?body"
    unfolding public_keys by (simp add: public_read_def b m a h t)
  then have "read_public_settings_route now rq w
      = (Inr \<lparr>an_status = 200, an_headers = hs, an_cookies = [], an_body = ?body\<rparr>, w\<lparr>w_redis := r'\<rparr>)"
    using assms(2) public_values_valid [OF valid subset_refl]
    by (simp add: read_public_settings_route_def limited_def)
  then show ?thesis using b m a h t by (intro exI [of _ ?body]) simp
qed

text \<open>C28: The answer of the public route depends on nothing but the five public settings and the rate
  limiter: no other setting, account or row can show through it.\<close>

theorem public_settings_noninterference:
  assumes "\<forall>k \<in> set PUBLIC_KEYS. setting_by_key k (w_db w) = setting_by_key k (w_db w')"
    and "w_redis w = w_redis w'"
  shows "fst (read_public_settings_route now rq w) = fst (read_public_settings_route now rq w')"
proof -
  have "settings_get_many PUBLIC_KEYS (w_db w) = settings_get_many PUBLIC_KEYS (w_db w')"
    using assms(1) by (auto simp: settings_get_many_def)
  then show ?thesis
    using assms(2)
    by (auto simp: read_public_settings_route_def limited_def split: option.splits prod.splits sum.splits)
qed

section \<open>The administrator's list\<close>

text \<open>The page behind a cursor text, as a client of the route asks for it.\<close>

definition settings_behind ::
  "collation \<Rightarrow> string option \<Rightarrow> setting_type option \<Rightarrow> database \<Rightarrow> nat \<Rightarrow> string option \<Rightarrow> setting list" where
  "settings_behind coll prefix type db limit cursor = (case decode_key_cursor cursor of
       Inl f \<Rightarrow> [] | Inr after_key \<Rightarrow> settings_list_page coll prefix type db limit after_key)"

definition setting_cursor :: "setting \<Rightarrow> string" where
  "setting_cursor s = encode_key_cursor (st_key s)"

definition setting_beyond :: "collation \<Rightarrow> string \<Rightarrow> setting \<Rightarrow> bool" where
  "setting_beyond coll c s = (case validate_key_cursor c of None \<Rightarrow> False | Some k \<Rightarrow> coll k < coll (st_key s))"

definition matching_settings :: "collation \<Rightarrow> string option \<Rightarrow> setting_type option \<Rightarrow> database \<Rightarrow> setting list" where
  "matching_settings coll prefix type db =
     sort_key (\<lambda>s. coll (st_key s)) (filter (setting_matches prefix type) (setting_rows db))"

lemma registered_key_text: "k \<in> set ALL_KEYS \<Longrightarrow> key_text k"
proof -
  have "list_all key_text ALL_KEYS"
    by (simp add: ALL_KEYS_def DEFINITIONS_def setting_definitions key_text_def ascii_lower_def ascii_digit_def Let_def)
  then show "k \<in> set ALL_KEYS \<Longrightarrow> key_text k" by (simp add: list_all_iff)
qed

lemma stored_key_cursor:
  assumes "settings_valid (setting_rows db)" and "s \<in> set (setting_rows db)"
  shows "validate_key_cursor (encode_key_cursor (st_key s)) = Some (st_key s)"
proof -
  have "st_key s \<in> set ALL_KEYS" using assms by (auto simp: settings_valid_def)
  from key_cursor_back [OF registered_key_text [OF this]] show ?thesis .
qed

interpretation setting_list: keyset setting_cursor "setting_beyond coll" "settings_behind coll prefix type"
    "matching_settings coll prefix type" "\<lambda>db. wf_db db \<and> inj_on coll (set ALL_KEYS)"
proof unfold_locales
  show "settings_behind coll prefix type db n None = take n (matching_settings coll prefix type db)" for db n
    by (simp add: settings_behind_def decode_key_cursor_def settings_list_page_def matching_settings_def)
next
  fix db :: database and r n
  assume ok: "wf_db db \<and> inj_on coll (set ALL_KEYS)" and "r \<in> set (matching_settings coll prefix type db)"
  then have r: "r \<in> set (setting_rows db)" by (simp add: matching_settings_def)
  note cur = stored_key_cursor [OF wf_settings [OF conjunct1 [OF ok]] r]
  show "settings_behind coll prefix type db n (Some (setting_cursor r))
      = take n (filter (setting_beyond coll (setting_cursor r)) (matching_settings coll prefix type db))"
    by (simp add: settings_behind_def decode_key_cursor_def setting_cursor_def setting_beyond_def cur
        settings_list_page_def matching_settings_def filter_sort conj_commute)
  show "\<not> setting_beyond coll (setting_cursor r) r"
    by (simp add: setting_beyond_def setting_cursor_def cur)
next
  fix db :: database
  assume ok: "wf_db db \<and> inj_on coll (set ALL_KEYS)"
  note valid = wf_settings [OF conjunct1 [OF ok]]
  have "inj_on (coll \<circ> st_key) (set (setting_rows db))"
    using valid ok by (intro comp_inj_on) (auto simp: settings_valid_def distinct_map)
  then have "distinct (map (\<lambda>s. coll (st_key s)) (setting_rows db))"
    using valid by (simp add: settings_valid_def distinct_map comp_def)
  then have "sorted_wrt (\<lambda>a b. coll (st_key a) < coll (st_key b)) (matching_settings coll prefix type db)"
    unfolding matching_settings_def by (intro sort_ascending) (rule distinct_map_filter_rows)
  moreover have "apart setting_cursor (setting_beyond coll) a b"
    if "a \<in> set (matching_settings coll prefix type db)" "b \<in> set (matching_settings coll prefix type db)"
      "coll (st_key a) < coll (st_key b)" for a b
    using that stored_key_cursor [OF valid]
    by (simp add: apart_def setting_cursor_def setting_beyond_def matching_settings_def)
  ultimately show "sorted_wrt (apart setting_cursor (setting_beyond coll)) (matching_settings coll prefix type db)"
    by (rule sorted_wrt_mono_rel [rotated])
qed

text \<open>The page of the route is the page of \<open>settings_behind\<close>, and its next cursor the cursor of its
  last row: a client that follows the texts the route hands out walks through this listing.\<close>

lemma list_settings_route_page:
  assumes "wf_db (w_db w)" and "require_admin A now rq (w_db w) = Inr claims" and "1 \<le> limit" and "limit \<le> 100"
    and "case prefix of None \<Rightarrow> True | Some p \<Rightarrow> length p \<le> 64"
    and "case cursor of None \<Rightarrow> True | Some c \<Rightarrow> validate_key_cursor c \<noteq> None"
  shows "\<exists>items. list_settings_route A coll now rq cursor limit prefix type w
      = (Inr \<lparr>an_status = 200, an_headers = [], an_cookies = [],
           an_body = \<lparr>sp_items = items,
             sp_next_cursor = snd (page_of limit (settings_behind coll prefix type (w_db w)) setting_cursor cursor)\<rparr>\<rparr>, w)
    \<and> map sv_key items
      = map st_key (fst (page_of limit (settings_behind coll prefix type (w_db w)) setting_cursor cursor))"
proof -
  note valid = wf_settings [OF assms(1)]
  obtain after_key where dec: "decode_key_cursor cursor = Inr after_key"
    using assms(6) by (auto simp: decode_key_cursor_def split: option.splits)
  have behind: "settings_behind coll prefix type (w_db w) n cursor
      = settings_list_page coll prefix type (w_db w) n after_key" for n
    by (simp add: settings_behind_def dec)
  obtain page nk where pg: "page_of limit (settings_list_page coll prefix type (w_db w)) st_key after_key = (page, nk)"
    by (rule prod.exhaust)
  have pg': "page_of limit (settings_behind coll prefix type (w_db w)) setting_cursor cursor
      = (page, map_option encode_key_cursor nk)"
    using pg by (auto simp: page_of_def behind setting_cursor_def Let_def)
  have "set page \<subseteq> set (setting_rows (w_db w))"
    using pg by (auto simp: page_of_def settings_list_page_def Let_def dest!: in_set_takeD)
  then have "\<exists>items. from_settings page = Inr items \<and> map sv_key items = map st_key page"
  proof (induction page)
    case (Cons s page)
    then have "s \<in> set (setting_rows (w_db w))" by simp
    with valid obtain d where "REGISTRY (st_key s) = Some d"
      by (auto simp: settings_valid_def list_all_iff row_valid_def split: option.splits)
    with Cons show ?case by (auto simp: from_setting_def definition_for_def)
  qed simp
  then show ?thesis
    using assms(2-5) dec pg pg'
    by (auto simp: list_settings_route_def depends_def valid_body_def)
qed

text \<open>An administrator who follows the cursor texts is shown every setting that matches the filters
  exactly once, ordered by key, and reaches the end.\<close>

theorem settings_list_complete:
  assumes "wf_db db" and "inj_on coll (set ALL_KEYS)" and "0 < limit" and "length (setting_rows db) < fuel * limit"
  shows "\<exists>pages. follow fuel limit (settings_behind coll prefix type db) setting_cursor None = Some pages
    \<and> (\<forall>p \<in> set pages. length p \<le> limit) \<and> distinct (concat pages)
    \<and> sorted_wrt (\<lambda>a b. coll (st_key a) \<le> coll (st_key b)) (concat pages)
    \<and> set (concat pages) = {s \<in> set (setting_rows db). setting_matches prefix type s}"
proof -
  let ?M = "matching_settings coll prefix type db"
  have "length ?M \<le> length (setting_rows db)" and all: "set ?M = {s \<in> set (setting_rows db). setting_matches prefix type s}"
    by (auto simp: matching_settings_def)
  with assms(4) have "length ?M < fuel * limit" by simp
  have "sorted_wrt (\<lambda>a b. coll (st_key a) \<le> coll (st_key b)) ?M"
    unfolding matching_settings_def by (rule sorted_sort_key [unfolded sorted_map])
  from setting_list.follow_complete [OF conjI [OF assms(1,2)] assms(3) \<open>length ?M < fuel * limit\<close> all this]
  show ?thesis by blast
qed

end
