(* ===== verification/Catalogue_Routes.thy ===== *)
theory Catalogue_Routes
  imports Catalogue_Commands Api_Boundary Page_Cursors
begin

text \<open>
  The public reference lists and the administrator's routes of the catalogue (catalog/api/schemas.py
  and reference_data.py).  The admin routes sit behind \<open>require_admin\<close>, which api/v1/admin.py
  declares on their router; the ones that write also declare \<open>require_csrf\<close>.  The routes of
  materials and colours are the same but for the repository and the entity type, as they are in the
  source.  \<open>lim\<close> is the recursion limit of the interpreter, within which \<open>json.loads\<close> reads a cursor.
\<close>

section \<open>Requests\<close>

definition MAX_NAME_LENGTH :: nat where "MAX_NAME_LENGTH = 200"

definition clean_name :: "string \<Rightarrow> string option" where
  "clean_name value = (let trimmed = py_strip value in if trimmed = [] then None else Some trimmed)"

text \<open>\<open>ReferenceName\<close>: the length is that of the text as sent.\<close>

definition reference_name :: "string \<Rightarrow> string option" where
  "reference_name value =
     (if 1 \<le> length value \<and> length value \<le> MAX_NAME_LENGTH then clean_name value else None)"

definition slug_field_ok :: "string \<Rightarrow> bool" where
  "slug_field_ok s = (1 \<le> length s \<and> length s \<le> 200)"

record value_create =
  vc_name :: string
  vc_is_active :: bool

record category_create = value_create +
  vc_slug :: string

record value_update =
  vu_name :: "string option"
  vu_is_active :: "bool option"

record category_update = value_update +
  vu_slug :: "string option"

text \<open>Validation replaces the name by its trimmed form; \<open>None\<close> is a validation error.\<close>

definition valid_create :: "'a value_create_scheme \<Rightarrow> 'a value_create_scheme option" where
  "valid_create b = (case reference_name (vc_name b) of None \<Rightarrow> None | Some n \<Rightarrow> Some (b\<lparr>vc_name := n\<rparr>))"

definition valid_category_create :: "category_create \<Rightarrow> category_create option" where
  "valid_category_create b = (if slug_field_ok (vc_slug b) then valid_create b else None)"

definition valid_name_field :: "'a value_update_scheme \<Rightarrow> 'a value_update_scheme option" where
  "valid_name_field b = (case vu_name b of None \<Rightarrow> Some b
     | Some v \<Rightarrow> (case reference_name v of None \<Rightarrow> None | Some n \<Rightarrow> Some (b\<lparr>vu_name := Some n\<rparr>)))"

definition valid_value_update :: "value_update \<Rightarrow> value_update option" where
  "valid_value_update b =
     (if vu_name b = None \<and> vu_is_active b = None then None else valid_name_field b)"

definition valid_category_update :: "category_update \<Rightarrow> category_update option" where
  "valid_category_update b =
     (if (case vu_slug b of None \<Rightarrow> True | Some s \<Rightarrow> slug_field_ok s)
         \<and> \<not> (vu_name b = None \<and> vu_slug b = None \<and> vu_is_active b = None)
      then valid_name_field b else None)"

section \<open>Representations\<close>

record value_read =
  rd_id :: uuid
  rd_name :: string

record category_read = value_read +
  rd_slug :: string

record value_detail =
  vd_id :: uuid
  vd_name :: string
  vd_is_active :: bool
  vd_deleted_at :: "timestamp option"
  vd_created_at :: timestamp
  vd_updated_at :: timestamp

record category_detail = value_detail +
  vd_slug :: string

record 'a admin_page =
  ap_items :: "'a list"
  ap_next_cursor :: "string option"

definition category_read_of :: "category \<Rightarrow> category_read" where
  "category_read_of c = \<lparr>rd_id = rv_id c, rd_name = rv_name c, rd_slug = cat_slug c\<rparr>"

definition value_read_of :: "reference_value \<Rightarrow> value_read" where
  "value_read_of v = \<lparr>rd_id = rv_id v, rd_name = rv_name v\<rparr>"

definition category_detail_of :: "category \<Rightarrow> category_detail" where
  "category_detail_of c = \<lparr>vd_id = rv_id c, vd_name = rv_name c, vd_is_active = rv_is_active c,
     vd_deleted_at = rv_deleted_at c, vd_created_at = rv_created_at c, vd_updated_at = rv_updated_at c,
     vd_slug = cat_slug c\<rparr>"

definition value_detail_of :: "reference_value \<Rightarrow> value_detail" where
  "value_detail_of v = \<lparr>vd_id = rv_id v, vd_name = rv_name v, vd_is_active = rv_is_active v,
     vd_deleted_at = rv_deleted_at v, vd_created_at = rv_created_at v, vd_updated_at = rv_updated_at v\<rparr>"

definition ok_answer :: "int \<Rightarrow> 'a \<Rightarrow> 'a answer" where
  "ok_answer status body = \<lparr>an_status = status, an_headers = [], an_cookies = [], an_body = body\<rparr>"

section \<open>Errors\<close>

definition slug_conflict_error :: "string \<Rightarrow> failure" where
  "slug_conflict_error slug = problem 409 ''SLUG_CONFLICT'' ''Slug already in use''
     (''Another live category already uses the slug '' @ py_repr slug @ ''.'')"

definition archived_error :: "string \<Rightarrow> uuid \<Rightarrow> failure" where
  "archived_error entity_type entity_id = problem 409 ''INVALID_STATE_TRANSITION'' ''Value is archived''
     (entity_type @ '' '' @ str_uuid entity_id @ '' is archived and can no longer be modified.'')"

definition invalid_slug_error :: "string \<Rightarrow> failure" where
  "invalid_slug_error reason = problem 422 ''VALIDATION_ERROR'' ''Slug is not valid'' reason"

definition create_category_failure :: "app_error \<Rightarrow> failure" where
  "create_category_failure e = (case e of
       Catalog (InvalidSlugError s reason) \<Rightarrow> invalid_slug_error reason
     | Catalog (SlugConflictError s) \<Rightarrow> slug_conflict_error s
     | _ \<Rightarrow> Unhandled)"

definition update_category_failure :: "app_error \<Rightarrow> failure" where
  "update_category_failure e = (case e of
       Catalog (ReferenceValueNotFoundError t i) \<Rightarrow> not_found_error
     | Catalog (ArchivedValueNotMutableError t i) \<Rightarrow> archived_error t i
     | Catalog (InvalidSlugError s reason) \<Rightarrow> invalid_slug_error reason
     | Catalog (SlugConflictError s) \<Rightarrow> slug_conflict_error s
     | _ \<Rightarrow> Unhandled)"

definition change_value_failure :: "app_error \<Rightarrow> failure" where
  "change_value_failure e = (case e of
       Catalog (ReferenceValueNotFoundError t i) \<Rightarrow> not_found_error
     | Catalog (ArchivedValueNotMutableError t i) \<Rightarrow> archived_error t i
     | _ \<Rightarrow> Unhandled)"

section \<open>The public lists\<close>

definition PUBLIC_LIST_LIMIT :: nat where "PUBLIC_LIST_LIMIT = 100"
definition PUBLIC_RATE_LIMIT :: int where "PUBLIC_RATE_LIMIT = 600"
definition PUBLIC_RATE_WINDOW_SECONDS :: int where "PUBLIC_RATE_WINDOW_SECONDS = 3600"

definition list_public_categories :: "collation \<Rightarrow> timestamp \<Rightarrow> request \<Rightarrow> category_read list route" where
  "list_public_categories coll now rq =
     limited ''catalogue:categories'' PUBLIC_RATE_LIMIT PUBLIC_RATE_WINDOW_SECONDS now rq (\<lambda>hs w.
       (Inr ((ok_answer 200 (map category_read_of (category_list_public coll PUBLIC_LIST_LIMIT (w_db w))))
          \<lparr>an_headers := hs\<rparr>), w))"

definition list_public_materials :: "collation \<Rightarrow> timestamp \<Rightarrow> request \<Rightarrow> value_read list route" where
  "list_public_materials coll now rq =
     limited ''catalogue:materials'' PUBLIC_RATE_LIMIT PUBLIC_RATE_WINDOW_SECONDS now rq (\<lambda>hs w.
       (Inr ((ok_answer 200 (map value_read_of (material_list_public coll PUBLIC_LIST_LIMIT (w_db w))))
          \<lparr>an_headers := hs\<rparr>), w))"

definition list_public_colours :: "collation \<Rightarrow> timestamp \<Rightarrow> request \<Rightarrow> value_read list route" where
  "list_public_colours coll now rq =
     limited ''catalogue:colours'' PUBLIC_RATE_LIMIT PUBLIC_RATE_WINDOW_SECONDS now rq (\<lambda>hs w.
       (Inr ((ok_answer 200 (map value_read_of (colour_list_public coll PUBLIC_LIST_LIMIT (w_db w))))
          \<lparr>an_headers := hs\<rparr>), w))"

section \<open>Administration: categories\<close>

text \<open>\<open>_decode_cursor\<close> reports a \<open>ValueError\<close>; a \<open>RecursionError\<close> is none.\<close>

definition decode_value_cursor :: "nat \<Rightarrow> string option \<Rightarrow> failure + (string \<times> uuid) option" where
  "decode_value_cursor lim raw = (case raw of None \<Rightarrow> Inr None
     | Some r \<Rightarrow> (case parse_value_cursor lim r of
           Inl Malformed \<Rightarrow> Inl validation_error
         | Inl Too_Deep \<Rightarrow> Inl Unhandled
         | Inr k \<Rightarrow> Inr (Some k)))"

definition admin_page_of :: "('a reference_value_scheme \<Rightarrow> 'd) \<Rightarrow>
    'a reference_value_scheme list \<times> (string \<times> uuid) option \<Rightarrow> 'd admin_page" where
  "admin_page_of detail p = (case p of (page, next) \<Rightarrow>
     \<lparr>ap_items = map detail page, ap_next_cursor = map_option encode_value_cursor next\<rparr>)"

definition admin_list_categories :: "nat \<Rightarrow> app \<Rightarrow> collation \<Rightarrow> timestamp \<Rightarrow> request \<Rightarrow> string option \<Rightarrow> nat
    \<Rightarrow> bool \<Rightarrow> category_detail admin_page route" where
  "admin_list_categories lim A coll now rq cursor limit include_deleted =
     depends (\<lambda>w. require_admin A now rq (w_db w)) (\<lambda>_.
     valid_body (1 \<le> limit \<and> limit \<le> 100) (\<lambda>w.
       (case decode_value_cursor lim cursor of
          Inl f \<Rightarrow> (Inl f, w)
        | Inr after \<Rightarrow> (Inr (ok_answer 200 (admin_page_of category_detail_of
            (page_of limit (category_list_page coll include_deleted (w_db w)) value_cursor after))), w))))"

definition admin_create_category :: "app \<Rightarrow> timestamp \<Rightarrow> request \<Rightarrow> category_create \<Rightarrow> category_detail route" where
  "admin_create_category A now rq body =
     depends (\<lambda>w. require_admin A now rq (w_db w)) (\<lambda>claims.
     depends (\<lambda>w. require_csrf A now rq (w_db w)) (\<lambda>_ w.
       (case valid_category_create body of None \<Rightarrow> (Inl validation_error, w)
        | Some b \<Rightarrow>
            and_answer (settle (\<lambda>_. False) create_category_failure
              (create_category (vc_name b) (vc_slug b) (vc_is_active b) (ac_user_id claims)
                 (rq_request_id rq) (client_ip_hash (app_cfg A) rq)) w)
              (\<lambda>c w'. (ok_answer 201 (category_detail_of c), w')))))"

definition admin_read_category :: "app \<Rightarrow> timestamp \<Rightarrow> request \<Rightarrow> uuid \<Rightarrow> category_detail route" where
  "admin_read_category A now rq category_id =
     depends (\<lambda>w. require_admin A now rq (w_db w)) (\<lambda>_ w.
       (case category_by_id category_id (w_db w) of None \<Rightarrow> (Inl not_found_error, w)
        | Some c \<Rightarrow> (Inr (ok_answer 200 (category_detail_of c)), w)))"

definition admin_update_category ::
  "app \<Rightarrow> timestamp \<Rightarrow> request \<Rightarrow> uuid \<Rightarrow> category_update \<Rightarrow> category_detail route" where
  "admin_update_category A now rq category_id body =
     depends (\<lambda>w. require_admin A now rq (w_db w)) (\<lambda>claims.
     depends (\<lambda>w. require_csrf A now rq (w_db w)) (\<lambda>_ w.
       (case valid_category_update body of None \<Rightarrow> (Inl validation_error, w)
        | Some b \<Rightarrow>
            and_answer (settle (\<lambda>_. False) update_category_failure
              (update_category now category_id (vu_name b) (vu_slug b) (vu_is_active b) (ac_user_id claims)
                 (rq_request_id rq) (client_ip_hash (app_cfg A) rq)) w)
              (\<lambda>res w'. (ok_answer 200 (category_detail_of (cm_category res)), w')))))"

definition admin_archive_category :: "app \<Rightarrow> timestamp \<Rightarrow> request \<Rightarrow> uuid \<Rightarrow> unit route" where
  "admin_archive_category A now rq category_id =
     depends (\<lambda>w. require_admin A now rq (w_db w)) (\<lambda>claims.
     depends (\<lambda>w. require_csrf A now rq (w_db w)) (\<lambda>_ w.
       and_answer (settle (\<lambda>_. False) change_value_failure
         (archive_category now category_id (ac_user_id claims) (rq_request_id rq) (client_ip_hash (app_cfg A) rq)) w)
         (\<lambda>_ w'. (ok_answer 204 (), w'))))"

section \<open>Administration: materials and colours\<close>

definition list_values :: "nat \<Rightarrow> app \<Rightarrow> (bool \<Rightarrow> database \<Rightarrow> nat \<Rightarrow> (string \<times> uuid) option \<Rightarrow> reference_value list) \<Rightarrow>
    timestamp \<Rightarrow> request \<Rightarrow> string option \<Rightarrow> nat \<Rightarrow> bool \<Rightarrow> value_detail admin_page route" where
  "list_values lim A fetch now rq cursor limit include_deleted =
     depends (\<lambda>w. require_admin A now rq (w_db w)) (\<lambda>_.
     valid_body (1 \<le> limit \<and> limit \<le> 100) (\<lambda>w.
       (case decode_value_cursor lim cursor of
          Inl f \<Rightarrow> (Inl f, w)
        | Inr after \<Rightarrow> (Inr (ok_answer 200 (admin_page_of value_detail_of
            (page_of limit (fetch include_deleted (w_db w)) value_cursor after))), w))))"

definition create_value_route :: "value_repository \<Rightarrow> string \<Rightarrow> app \<Rightarrow> timestamp \<Rightarrow> request \<Rightarrow> value_create
    \<Rightarrow> value_detail route" where
  "create_value_route R entity_type A now rq body =
     depends (\<lambda>w. require_admin A now rq (w_db w)) (\<lambda>claims.
     depends (\<lambda>w. require_csrf A now rq (w_db w)) (\<lambda>_ w.
       (case valid_create body of None \<Rightarrow> (Inl validation_error, w)
        | Some b \<Rightarrow>
            and_answer (settle (\<lambda>_. False) (\<lambda>_. Unhandled)
              (create_reference_value R entity_type (vc_name b) (vc_is_active b) (ac_user_id claims)
                 (rq_request_id rq) (client_ip_hash (app_cfg A) rq)) w)
              (\<lambda>v w'. (ok_answer 201 (value_detail_of v), w')))))"

definition read_value_route :: "(uuid \<Rightarrow> database \<Rightarrow> reference_value option) \<Rightarrow> app \<Rightarrow> timestamp \<Rightarrow> request \<Rightarrow> uuid
    \<Rightarrow> value_detail route" where
  "read_value_route get A now rq value_id =
     depends (\<lambda>w. require_admin A now rq (w_db w)) (\<lambda>_ w.
       (case get value_id (w_db w) of None \<Rightarrow> (Inl not_found_error, w)
        | Some v \<Rightarrow> (Inr (ok_answer 200 (value_detail_of v)), w)))"

definition update_value_route :: "value_repository \<Rightarrow> string \<Rightarrow> app \<Rightarrow> timestamp \<Rightarrow> request \<Rightarrow> uuid \<Rightarrow> value_update
    \<Rightarrow> value_detail route" where
  "update_value_route R entity_type A now rq value_id body =
     depends (\<lambda>w. require_admin A now rq (w_db w)) (\<lambda>claims.
     depends (\<lambda>w. require_csrf A now rq (w_db w)) (\<lambda>_ w.
       (case valid_value_update body of None \<Rightarrow> (Inl validation_error, w)
        | Some b \<Rightarrow>
            and_answer (settle (\<lambda>_. False) change_value_failure
              (update_reference_value R entity_type now value_id (vu_name b) (vu_is_active b) (ac_user_id claims)
                 (rq_request_id rq) (client_ip_hash (app_cfg A) rq)) w)
              (\<lambda>res w'. (ok_answer 200 (value_detail_of (vm_value res)), w')))))"

definition archive_value_route :: "value_repository \<Rightarrow> string \<Rightarrow> app \<Rightarrow> timestamp \<Rightarrow> request \<Rightarrow> uuid \<Rightarrow> unit route" where
  "archive_value_route R entity_type A now rq value_id =
     depends (\<lambda>w. require_admin A now rq (w_db w)) (\<lambda>claims.
     depends (\<lambda>w. require_csrf A now rq (w_db w)) (\<lambda>_ w.
       and_answer (settle (\<lambda>_. False) change_value_failure
         (archive_reference_value R entity_type now value_id (ac_user_id claims) (rq_request_id rq)
            (client_ip_hash (app_cfg A) rq)) w)
         (\<lambda>_ w'. (ok_answer 204 (), w'))))"

definition admin_list_materials where
  "admin_list_materials lim A coll = list_values lim A (material_list_page coll)"
definition admin_create_material where
  "admin_create_material = create_value_route material_repository ''Material''"
definition admin_read_material where
  "admin_read_material = read_value_route material_by_id"
definition admin_update_material where
  "admin_update_material = update_value_route material_repository ''Material''"
definition admin_archive_material where
  "admin_archive_material = archive_value_route material_repository ''Material''"

definition admin_list_colours where
  "admin_list_colours lim A coll = list_values lim A (colour_list_page coll)"
definition admin_create_colour where
  "admin_create_colour = create_value_route colour_repository ''Colour''"
definition admin_read_colour where
  "admin_read_colour = read_value_route colour_by_id"
definition admin_update_colour where
  "admin_update_colour = update_value_route colour_repository ''Colour''"
definition admin_archive_colour where
  "admin_archive_colour = archive_value_route colour_repository ''Colour''"

section \<open>What the lists show\<close>

text \<open>\<open>first_visible coll limit rows served\<close>: only visible rows, in order of name and id, at most
  \<open>limit\<close> of them, and every visible row that is not served comes after all that are.\<close>

definition first_visible :: "collation \<Rightarrow> nat \<Rightarrow> 'a reference_value_scheme list \<Rightarrow> 'a reference_value_scheme list \<Rightarrow> bool" where
  "first_visible coll limit rows served \<longleftrightarrow>
     sorted (map (value_key coll) served) \<and> length served = min limit (length (filter is_publicly_visible rows))
   \<and> (\<forall>v \<in> set served. v \<in> set rows \<and> is_publicly_visible v)
   \<and> (\<forall>w \<in> set rows. is_publicly_visible w \<and> w \<notin> set served
        \<longrightarrow> (\<forall>v \<in> set served. value_key coll v \<le> value_key coll w))"

lemma public_rows_first_visible: "first_visible coll limit rows (public_rows coll limit rows)"
  unfolding first_visible_def
proof (intro conjI ballI impI)
  show "length (public_rows coll limit rows) = min limit (length (filter is_publicly_visible rows))"
    by (simp add: public_rows_def is_publicly_visible_def [abs_def])
qed (use public_rows_visible public_rows_first public_rows_sorted in blast)+

lemma serves_first_visible:
  "\<exists>vs. first_visible coll limit rows vs \<and> map f (public_rows coll limit rows) = map f vs"
  using public_rows_first_visible by blast


text \<open>A client of one of the administrator's lists, and the listing it ends up with.\<close>

definition page_answer :: "(failure + 'd admin_page answer) \<times> world \<Rightarrow> ('d list \<times> string option) option" where
  "page_answer r = (case fst r of Inl f \<Rightarrow> None | Inr a \<Rightarrow> Some (ap_items (an_body a), ap_next_cursor (an_body a)))"

definition full_listing :: "collation \<Rightarrow> bool \<Rightarrow> nat \<Rightarrow> nat \<Rightarrow> (string option \<Rightarrow> ('d list \<times> string option) option)
    \<Rightarrow> ('a reference_value_scheme \<Rightarrow> 'd) \<Rightarrow> 'a reference_value_scheme list \<Rightarrow> bool" where
  "full_listing coll include_deleted fuel limit ask detail rows \<longleftrightarrow>
     (\<exists>pages. follow_route fuel ask None = Some (map (map detail) pages)
        \<and> (\<forall>p \<in> set pages. length p \<le> limit) \<and> distinct (concat pages)
        \<and> set (concat pages) = {v \<in> set rows. listed include_deleted v}
        \<and> sorted_wrt (\<lambda>a b. value_key coll a < value_key coll b) (concat pages))"

definition read_value_cursor :: "nat \<Rightarrow> string \<Rightarrow> (string \<times> uuid) option" where
  "read_value_cursor lim raw = (case parse_value_cursor (Suc lim) raw of Inl e \<Rightarrow> None | Inr k \<Rightarrow> Some k)"

interpretation value_texts: text_keyset value_cursor "value_beyond coll" "page_rows coll include_deleted"
    "matching_values coll include_deleted" "\<lambda>rows. distinct (map rv_id rows)" encode_value_cursor "read_value_cursor lim"
  by unfold_locales (simp add: read_value_cursor_def value_cursor_def value_cursor_roundtrip)

lemma reads_decoded: "value_texts.reads lim c k \<Longrightarrow> decode_value_cursor (Suc lim) c = Inr k"
  by (cases c; cases k)
    (auto simp: value_texts.reads_def decode_value_cursor_def read_value_cursor_def split: sum.splits)

lemma listing_complete:
  assumes "distinct (map rv_id rows)" and "0 < limit" and "length rows < fuel * limit"
    and "\<And>c k. value_texts.reads lim c k
      \<Longrightarrow> ask c = Some (answered detail encode_value_cursor (page_of limit (page_rows coll include_deleted rows) value_cursor k))"
  shows "full_listing coll include_deleted fuel limit ask detail rows"
proof -
  let ?M = "matching_values coll include_deleted rows"
  have "length ?M \<le> length rows" and all: "set ?M = {v \<in> set rows. listed include_deleted v}"
    by (auto simp: matching_values_def)
  with assms(3) have few: "length ?M < fuel * limit" by simp
  have sorted: "sorted_wrt (\<lambda>a b. value_key coll a < value_key coll b) ?M"
    unfolding matching_values_def by (rule sort_ascending [OF distinct_value_keys [OF assms(1)]])
  show ?thesis
    unfolding full_listing_def by (rule value_texts.route_complete [OF assms(1,2) few all sorted assms(4)])
qed

lemma page_answered:
  "page_answer (Inr (ok_answer 200 (admin_page_of detail p)), w) = Some (answered detail encode_value_cursor p)"
  by (simp add: page_answer_def ok_answer_def admin_page_of_def answered_def split: prod.split)

text \<open>C26: An administrator who follows the cursors of any of the three routes sees every row of the table
  exactly once, archived rows only when asked for, ordered by name and id, and reaches the end.\<close>

theorem admin_lists_complete:
  assumes "wf_db (w_db w)" and "require_admin A now rq (w_db w) = Inr claims" and "1 \<le> limit" and "limit \<le> 100"
    and "length (categories (w_db w)) < fuel * limit" and "length (materials (w_db w)) < fuel * limit"
    and "length (colours (w_db w)) < fuel * limit" and "0 < lim"
  shows "full_listing coll include_deleted fuel limit
        (\<lambda>c. page_answer (admin_list_categories lim A coll now rq c limit include_deleted w)) category_detail_of (categories (w_db w))
    \<and> full_listing coll include_deleted fuel limit
        (\<lambda>c. page_answer (admin_list_materials lim A coll now rq c limit include_deleted w)) value_detail_of (materials (w_db w))
    \<and> full_listing coll include_deleted fuel limit
        (\<lambda>c. page_answer (admin_list_colours lim A coll now rq c limit include_deleted w)) value_detail_of (colours (w_db w))"
proof -
  obtain l where l: "lim = Suc l" using assms(8) by (cases lim) auto
  have "category_list_page coll include_deleted db = page_rows coll include_deleted (categories db)"
    "material_list_page coll include_deleted db = page_rows coll include_deleted (materials db)"
    "colour_list_page coll include_deleted db = page_rows coll include_deleted (colours db)" for db
    by (simp_all add: fun_eq_iff category_list_page_def material_list_page_def colour_list_page_def)
  note pages = this admin_list_categories_def admin_list_materials_def admin_list_colours_def list_values_def
    depends_def valid_body_def assms(2-4) reads_decoded page_answered l
  have "distinct (map rv_id (categories (w_db w)))" "distinct (map rv_id (materials (w_db w)))"
    "distinct (map rv_id (colours (w_db w)))"
    using assms(1) by (simp_all add: wf_db_def wf_office_def)
  then show ?thesis
    using assms(3,5-7) by (intro conjI listing_complete [where lim = l]) (simp_all add: pages)
qed

text \<open>The recursion limit shows: a cursor of opening brackets ends as an unhandled error, not as 422.\<close>

theorem deep_cursor_unhandled:
  assumes "require_admin A now rq (w_db w) = Inr claims" and "1 \<le> limit" and "limit \<le> 100"
  shows "admin_list_categories lim A coll now rq (Some (b64_encode (utf8 (replicate (Suc lim) CHR ''['')))) limit b w
    = (Inl Unhandled, w)"
  using assms
  by (simp add: admin_list_categories_def depends_def valid_body_def decode_value_cursor_def deep_cursor
      del: replicate.simps)

section \<open>Who may write\<close>

text \<open>A route that leaves the database as it is unless the administrator's guard and the CSRF guard
  both let the request through.\<close>

definition admin_guarded :: "app \<Rightarrow> timestamp \<Rightarrow> request \<Rightarrow> 'a route \<Rightarrow> bool" where
  "admin_guarded A now rq r \<longleftrightarrow> (\<forall>w. w_db (snd (r w)) \<noteq> w_db w
     \<longrightarrow> (\<exists>c. require_admin A now rq (w_db w) = Inr c \<and> require_csrf A now rq (w_db w) = Inr c))"

lemma guarded_handler:
  "admin_guarded A now rq (depends (\<lambda>w. require_admin A now rq (w_db w)) (\<lambda>c.
     depends (\<lambda>w. require_csrf A now rq (w_db w)) (\<lambda>_. h c)))"
  by (auto simp: admin_guarded_def depends_def require_admin_def require_csrf_def split: sum.splits if_splits)

text \<open>C27: Each of the nine routes that write the catalogue leaves the database as it is unless the administrator's
  guard and the CSRF guard both let the request through.\<close>

theorem catalogue_writes_guarded:
  "admin_guarded A now rq (admin_create_category A now rq cc) \<and> admin_guarded A now rq (admin_update_category A now rq i cu)
   \<and> admin_guarded A now rq (admin_archive_category A now rq i)
   \<and> admin_guarded A now rq (admin_create_material A now rq vc) \<and> admin_guarded A now rq (admin_update_material A now rq i vu)
   \<and> admin_guarded A now rq (admin_archive_material A now rq i)
   \<and> admin_guarded A now rq (admin_create_colour A now rq vc) \<and> admin_guarded A now rq (admin_update_colour A now rq i vu)
   \<and> admin_guarded A now rq (admin_archive_colour A now rq i)"
  by (simp add: admin_create_category_def admin_update_category_def admin_archive_category_def
      admin_create_material_def admin_update_material_def admin_archive_material_def
      admin_create_colour_def admin_update_colour_def admin_archive_colour_def
      create_value_route_def update_value_route_def archive_value_route_def guarded_handler)

end
