(* ===== verification/Example_World.thy ===== *)
theory Example_World
  imports Record_Keeping Settings_Routes Catalogue_Routes
begin

text \<open>
  A small concrete service on which the properties are run: package functions that compute, one
  customer with a session and a reset link, one administrator with an enabled second factor, and
  a mail waiting in the outbox.  Digests stay symbolic: no run below depends on two of them
  being different.
\<close>

section \<open>Packages and settings\<close>

definition ex_cfg :: settings where
  "ex_cfg = \<lparr>environment = ''test'', base_url = ''http://localhost'', app_version = ''0.1.0'',
     git_commit_sha = ''unknown'', jwt_signing_key = ''k'',
     csrf_secret = ''c'', access_token_minutes = 15, refresh_token_days = 30, ip_hash_salt = ''s'',
     mfa_secret_key = ''m'', mfa_issuer = ''Bekaa3D'', email_provider = ''console''\<rparr>"

definition alice_claims :: access_claims where
  "alice_claims = \<lparr>ac_user_id = 1, ac_session_id = 10, ac_role = CUSTOMER, ac_email_verified = True,
     ac_mfa_completed = False, ac_auth_epoch = 0\<rparr>"

definition root_claims :: access_claims where
  "root_claims = \<lparr>ac_user_id = 2, ac_session_id = 20, ac_role = ADMIN, ac_email_verified = True,
     ac_mfa_completed = True, ac_auth_epoch = 3\<rparr>"

text \<open>A token of this package is the type with the version in unary or the role; reading it
  looks the payload up.\<close>

definition ex_encode :: "payload \<Rightarrow> string" where
  "ex_encode p = (case map_of p ''tv'' of
       Some (PInt v) \<Rightarrow> ''refresh'' @ replicate (nat v) CHR ''.''
     | _ \<Rightarrow> if map_of p ''role'' = Some (PStr ''admin'') then ''access-admin'' else ''access'')"

definition ex_decode :: "string \<Rightarrow> payload option" where
  "ex_decode t =
     (if t = ''access'' then Some (wire (access_payload ex_cfg alice_claims 0))
      else if t = ''access-admin'' then Some (wire (access_payload ex_cfg root_claims 0))
      else if t = ''refresh.'' then Some (wire (refresh_payload 10 1 (days 30) 0))
      else if t = ''refresh..'' then Some (wire (refresh_payload 10 2 (days 30) 0))
      else None)"

definition ex_lib :: libs where
  "ex_lib = \<lparr>argon2_hash = (\<lambda>salt pw. CHR ''$'' # pw),
     argon2_verify = (\<lambda>h pw. if h = CHR ''$'' # pw then Verified else VerificationError),
     jwt_encode = (\<lambda>p k. ex_encode p), jwt_decode = (\<lambda>t k now. ex_decode t),
     totp_at = (\<lambda>secret t. if t = 60 then ''222222'' else if t = 90 then ''333333'' else ''000000''),
     totp_uri = (\<lambda>secret name issuer. ''otpauth://totp/'' @ name),
     fernet_encrypt = (\<lambda>k nonce bs. bs), fernet_decrypt = (\<lambda>k bs. Some bs)\<rparr>"

definition ex_app :: app where
  "ex_app = \<lparr>app_lib = ex_lib, app_cfg = ex_cfg, app_salt = ''salt''\<rparr>"

section \<open>Rows\<close>

definition alice :: user where
  "alice = \<lparr>u_id = 1, u_email = ''alice@x'', u_password_hash = ''$password'', u_role = CUSTOMER,
     u_email_verified_at = Some 0, u_is_active = True, u_anonymized_at = None, u_deleted_at = None,
     u_created_at = 0, u_updated_at = 0, u_auth_epoch = 0\<rparr>"

definition root :: user where
  "root = \<lparr>u_id = 2, u_email = ''root@x'', u_password_hash = ''$hunter22'', u_role = ADMIN,
     u_email_verified_at = Some 0, u_is_active = True, u_anonymized_at = None, u_deleted_at = None,
     u_created_at = 1, u_updated_at = 1, u_auth_epoch = 3\<rparr>"

definition alice_session :: session where
  "alice_session = \<lparr>s_id = 10, s_user_id = 1, s_refresh_token_hash = hash_token ''refresh.'',
     s_token_version = 1, s_expires_at = days 30, s_last_used_at = None, s_rotated_at = None,
     s_revoked_at = None, s_reuse_detected_at = None, s_ip_hash = None, s_user_agent = None,
     s_created_at = 0\<rparr>"

definition alice_reset :: reset_token where
  "alice_reset = \<lparr>rt_id = 30, rt_user_id = 1, rt_token_hash = hash_token ''link'',
     rt_expires_at = minutes 60, rt_used_at = None, rt_created_at = 0\<rparr>"

definition root_mfa :: mfa_credential where
  "root_mfa = \<lparr>mc_id = 40, mc_user_id = 2, mc_method = TOTP, mc_secret_ciphertext = utf8 ''SECRET'',
     mc_enabled_at = Some 0, mc_last_used_at = None, mc_last_totp_step = None, mc_created_at = 0,
     mc_updated_at = 0\<rparr>"

definition root_code :: recovery_code where
  "root_code = \<lparr>rc_id = 50, rc_mfa_credential_id = 40, rc_code_hash = hash_token ''ABCDEFGHJKMN'',
     rc_used_at = None, rc_created_at = 0\<rparr>"

definition mail :: outbox_message where
  "mail = \<lparr>ob_id = 60, ob_user_id = Some 1, ob_recipient_email = ''alice@x'',
     ob_template = ''password_reset_email'', ob_payload = [(''token'', PStr ''link'')],
     ob_status = PENDING, ob_send_after = 0, ob_attempt_count = 0, ob_last_error = None,
     ob_sent_at = None, ob_created_at = 0, ob_updated_at = 0\<rparr>"

text \<open>The settings as the migration seeds them.\<close>

definition seed_row :: "nat \<Rightarrow> string \<times> setting_type \<times> pyval \<times> string \<Rightarrow> setting" where
  "seed_row n = (\<lambda>(k, t, v, d). \<lparr>st_id = of_nat (1000 + n), st_key = k, st_type = t, st_value = v,
     st_description = Some d, st_updated_by = None, st_created_at = 0, st_updated_at = 0\<rparr>)"

definition ex_settings :: "setting list" where
  "ex_settings = map2 seed_row [0..<12] SEED"

lemma ex_settings_seeded: "seeded ex_settings"
  by (simp add: seeded_def ex_settings_def seed_row_def SEED_def upt_rec)

lemma ex_settings_unowned: "s \<in> set ex_settings \<Longrightarrow> st_updated_by s = None"
  by (auto simp: ex_settings_def seed_row_def)

definition empty_db :: database where
  "empty_db = \<lparr>tx_now = 0, gen_uuid = (\<lambda>n. of_nat n + 100), gen_ctr = 0, users = [], sessions = [],
     verification_tokens = [], reset_tokens = [], mfa_credentials = [], recovery_codes = [],
     email_outbox = [], audit_logs = [],
     setting_rows = ex_settings, categories = [], materials = [], colours = [], notifications = []\<rparr>"

definition ex_db :: database where
  "ex_db = empty_db\<lparr>users := [alice, root], sessions := [alice_session], reset_tokens := [alice_reset],
     mfa_credentials := [root_mfa], recovery_codes := [root_code], email_outbox := [mail]\<rparr>"

lemmas ex_rows = alice_def root_def alice_session_def alice_reset_def root_mfa_def root_code_def mail_def
  empty_db_def ex_db_def

lemma ex_app_simps [simp]:
  "app_lib ex_app = ex_lib" "app_cfg ex_app = ex_cfg" "app_salt ex_app = ''salt''"
  "jwt_encode ex_lib p k = ex_encode p" "jwt_decode ex_lib t k now = ex_decode t"
  "argon2_hash ex_lib salt pw = CHR ''$'' # pw"
  "argon2_verify ex_lib h pw = (if h = CHR ''$'' # pw then Verified else VerificationError)"
  "totp_at ex_lib secret i = (if i = 60 then ''222222'' else if i = 90 then ''333333'' else ''000000'')"
  "fernet_encrypt ex_lib k nonce bs = bs" "fernet_decrypt ex_lib k bs = Some bs"
  "refresh_token_days ex_cfg = 30" "access_token_minutes ex_cfg = 15"
  by (simp_all add: ex_app_def ex_lib_def ex_cfg_def)

lemmas ex_settings_valid = seeded_valid [OF ex_settings_seeded]

lemma ex_db_wf: "wf_db ex_db"
  by (simp add: wf_db_def wf_office_def live_categories_def ex_settings_valid ex_rows)

section \<open>Running the commands\<close>

text \<open>The collection \<open>run\<close> unfolds reads, writes and entity methods on concrete rows.\<close>

definition login_db :: database where
  "login_db = ex_db\<lparr>sessions := []\<rparr>"

definition login_of :: "string \<Rightarrow> string \<Rightarrow> login_args" where
  "login_of email pw = \<lparr>la_email = email, la_password = pw, la_ip = None, la_ip_hash = None,
     la_user_agent = None, la_request_id = None\<rparr>"

lemma free_throttle [simp]: "throttle_check now email ip (\<lambda>_. None) = Inr 0"
  by (simp add: throttle_check_def r_get_def throttle_numbers delay_for_def)

lemmas run_reads = user_by_id_def user_by_email_def mc_by_user_id_def mc_by_id_def session_by_id_def session_owner_id_def
  rt_by_hash_def rt_by_id_def vt_by_hash_def vt_by_id_def rc_by_id_def rc_unused_by_hash_def unused_of_def get_auth_epoch_def
  challenge_required_def py_lower_def lower_char_def next_uuid_def rt_latest_def vt_latest_def

lemmas run_writes = session_add_def audit_add_def session_save_def session_stored_def user_save_def user_stored_def
  rt_save_def rt_stored_def vt_save_def vt_stored_def rt_add_def vt_add_def outbox_add_def mc_save_def mc_stored_def rc_save_def rc_stored_def
  user_add_def ob_by_id_def revoke_all_for_user_def consume_outstanding_for_user_def put_row_def update_where_def
  session_hash_free_def count_where_def live_of_def outstanding_of_def

lemmas run_methods = user_methods session_methods credential_methods verify_password_def rt_mark_used_def rt_is_used_def vt_mark_used_def vt_is_used_def

lemmas run = run_reads run_writes run_methods cmd_simps Let_def ex_rows login_db_def

end
