(* ===== verification/Worked_Examples.thy ===== *)
theory Worked_Examples
  imports Example_World
begin

text \<open>
  Runs of the commands on the concrete service of \<open>Example_World\<close>, and the properties of
  the development applied to them: each closed theorem instantiates its property at these inputs
  and discharges the hypotheses by evaluation.
\<close>

section \<open>The runs\<close>

lemma alice_logs_in:
  "\<exists>res db' r'. login ex_app 1000000 77 (login_of ''alice@x'' ''password'') login_db (\<lambda>_. None)
     = (Inr (LoggedIn res), db', r')"
  by (simp add: login_def login_unlocked_def login_locked_def login_of_def open_session_def run)

lemma root_is_challenged:
  "\<exists>out db' r'. login ex_app 1000000 77 (login_of ''root@x'' ''hunter22'') login_db (\<lambda>_. None)
     = (Inr out, db', r')"
  by (simp add: login_def login_unlocked_def login_locked_def login_of_def open_session_def run)

lemma login_db_wf: "wf_db login_db"
  by (simp add: wf_db_def wf_office_def live_categories_def ex_settings_valid login_db_def ex_rows)

lemma decode_refresh:
  "decode_refresh_token ex_lib ex_cfg now ''refresh.'' = Inr \<lparr>rf_session_id = 10, rf_token_version = 1\<rparr>"
  by (simp add: decode_refresh_token_def ex_decode_def claim_reading refresh_payload_def wire_def)

lemma alice_refreshes:
  "\<exists>res db' s. refresh_session ex_app 1000000 ''refresh.'' None None False ex_db = (Inr res, db')
     \<and> session_by_id (rr_session_id res) db' = Some s \<and> s_expires_at s = days 30
     \<and> row_by al_id (next_uuid db') (audit_logs db') = None"
  by (simp add: refresh_session_def decode_refresh run)

lemma alice_resets:
  "\<exists>db'. confirm_password_reset ex_app 1000000 ''s'' ''link'' ''new password'' None None ex_db = (Inr (), db')"
  by (simp add: confirm_password_reset_def run hash_password_def)

lemma alice_link: "rt_by_hash (hash_token ''link'') ex_db = Some alice_reset"
  by (simp add: run)

lemma bob_registers:
  "\<exists>db'. register_user ex_app 0 ''s'' ''mail'' ''bob@x'' ''password'' None None empty_db = (Inr (), db')
     \<and> row_by al_id (next_uuid db') (audit_logs db') = None"
  by (simp add: register_user_def issue_verification_email_def audit_user_def run hash_password_def)

lemma step_two: "current_step 75000000 = 2"
  by (simp add: current_step_def TOTP_STEP_SECONDS_def)

lemma code_of_step_two: "verify_code_step ex_lib secret ''222222'' 75000000 = Some 2"
  by (simp add: verify_code_step_def window_steps_three step_two TOTP_STEP_SECONDS_def py_strip_def
      strip_by_def py_space_def is_ascii_def Let_def)

lemma root_secret: "decrypt_secret ex_lib ex_cfg (utf8 ''SECRET'') = Inr ''SECRET''"
  by (simp add: decrypt_secret_def utf8_decode_utf8)

lemma root_verifies:
  "\<exists>res db'. mfa_verify ex_app 75000000 2 (Some ''222222'') None None None ex_db = (Inr res, db')
     \<and> row_by al_id (next_uuid db') (audit_logs db') = None"
  by (simp add: mfa_verify_def verify_totp_def audit_mfa_def code_of_step_two root_secret run rc_count_unused_def)

lemma typed_code: "normalize_code ''abcd-efgh-jkmn'' = ''ABCDEFGHJKMN''"
  by code_simp

lemma root_recovers:
  "\<exists>res db'. mfa_verify ex_app 75000000 2 None (Some ''abcd-efgh-jkmn'') None None ex_db = (Inr res, db')"
  by (simp add: mfa_verify_def verify_recovery_def audit_mfa_def typed_code run rc_count_unused_def
      redeem_def rc_is_used_def)

lemma root_credential: "mc_by_user_id 2 ex_db = Some root_mfa"
  by (simp add: run)

lemma alice_deactivated:
  "\<exists>res db'. set_user_active 1000000 1 False 2 None None ex_db = (Inr (Some res), db') \<and> sr_changed res"
  by (simp add: set_user_active_def run)

lemma alice_logs_out: "\<exists>db'. logout 1000000 10 None None ex_db = (Inr (), db')"
  by (simp add: logout_def audit_session_def run)

lemma alice_enrols: "\<exists>res db'. mfa_setup ex_app ''SECRET'' [] 1 ''password'' None None ex_db = (Inr res, db')"
  by (simp add: mfa_setup_def audit_mfa_def mc_add_def run)

definition pending_db :: database where
  "pending_db = ex_db\<lparr>mfa_credentials := [root_mfa\<lparr>mc_enabled_at := None\<rparr>], recovery_codes := []\<rparr>"

definition ex_draw :: "nat list" where
  "ex_draw = [0, 1, 2, 3, 4, 5, 6, 7, 8, 9, 10, 11]"

lemma root_confirms:
  "\<exists>res db'. mfa_confirm_setup ex_app 75000000 [ex_draw] 2 ''222222'' None None pending_db = (Inr res, db')"
  by (simp add: mfa_confirm_setup_def audit_mfa_def pending_db_def root_secret code_of_step_two run
      rc_delete_unused_def generate_code_set_def CODES_PER_SET_def)

lemma root_regenerates:
  "\<exists>res db'. mfa_regenerate_recovery_codes ex_app 75000000 [ex_draw] 2 ''hunter22'' None None ex_db = (Inr res, db')"
  by (simp add: mfa_regenerate_recovery_codes_def audit_mfa_def run rc_delete_unused_def
      generate_code_set_def CODES_PER_SET_def)

lemma ex_outbox_ok: "outbox_ok ex_db"
  by (simp add: outbox_ok_def ob_ok_def ex_rows MAX_OUTBOX_ATTEMPTS_def)

lemmas ran = decode_refresh code_of_step_two root_secret typed_code alice_link root_credential

section \<open>Sessions\<close>

theorem login_opens_session_only_if_witness:
  "\<exists>res db' r' s. login ex_app 1000000 77 (login_of ''alice@x'' ''password'') login_db (\<lambda>_. None)
       = (Inr (LoggedIn res), db', r')
     \<and> sessions db' = sessions login_db @ [s] \<and> s_id s = lr_session_id res \<and> s_token_version s = 1"
proof -
  obtain res db' r' where r: "login ex_app 1000000 77 (login_of ''alice@x'' ''password'') login_db (\<lambda>_. None)
      = (Inr (LoggedIn res), db', r')" using alice_logs_in by blast
  from login_opens_session_only_if [OF r login_db_wf] r show ?thesis by blast
qed

theorem login_mfa_admin_gets_challenge_witness:
  "\<exists>db' r'. login ex_app 1000000 77 (login_of ''root@x'' ''hunter22'') login_db (\<lambda>_. None)
       = (Inr (MfaChallengeRequired 2 3), db', r') \<and> sessions db' = sessions login_db"
proof -
  obtain out db' r' where r: "login ex_app 1000000 77 (login_of ''root@x'' ''hunter22'') login_db (\<lambda>_. None)
      = (Inr out, db', r')" using root_is_challenged by blast
  have "out = MfaChallengeRequired (u_id root) (u_auth_epoch root) \<and> sessions db' = sessions login_db"
    by (rule login_mfa_admin_gets_challenge [OF r login_db_wf, of root root_mfa])
      (simp_all add: login_of_def run)
  with r show ?thesis by (simp add: root_def)
qed

theorem login_enumeration_safe_witness:
  "fst (login ex_app 0 77 (login_of ''bob@x'' ''guess'') ex_db (\<lambda>_. None))
     = fst (login ex_app 0 78 (login_of ''bob@x'' ''guess'') (ex_db\<lparr>users := [alice\<lparr>u_email := ''bob@x''\<rparr>]\<rparr>) (\<lambda>_. None))"
  by (rule login_enumeration_safe [of "login_of ''bob@x'' ''guess''" ex_db _ "alice\<lparr>u_email := ''bob@x''\<rparr>", THEN conjunct1])
    (simp_all add: login_of_def run DUMMY_PASSWORD_HASH_def)

theorem login_rechecks_under_lock_witness:
  "\<exists>e. login_locked ex_app 0 77 (login_of ''alice@x'' ''password'') 1 ''$older'' ex_db = (Inl e, ex_db)"
  using login_rechecks_under_lock [of 1 ex_db "''$older''" ex_app 0 77 "login_of ''alice@x'' ''password''"]
  by (auto simp: run)

theorem refresh_rotates_witness:
  "\<exists>res db' s. refresh_session ex_app 1000000 ''refresh.'' None None False ex_db = (Inr res, db')
     \<and> session_by_id 10 ex_db = Some s \<and> is_live 1000000 s
     \<and> session_by_id 10 db' = Some (s\<lparr>s_refresh_token_hash := hash_token (rr_refresh_token res),
         s_token_version := s_token_version s + 1, s_rotated_at := Some 1000000, s_last_used_at := Some 1000000\<rparr>)"
proof -
  obtain res db' where r: "refresh_session ex_app 1000000 ''refresh.'' None None False ex_db = (Inr res, db')"
    using alice_refreshes by blast
  from refresh_rotates [OF r] r show ?thesis by (auto simp: decode_refresh)
qed

theorem refresh_replay_ends_session_witness:
  "\<exists>res db' db''. refresh_session ex_app 1000000 ''refresh.'' None None False ex_db = (Inr res, db')
     \<and> in_transaction is_session_terminated (refresh_session ex_app 2000000 ''refresh.'' None None False) db'
         = (Inl (RefreshTokenReuseError (rr_session_id res)), db'')"
proof -
  obtain res db' s where r: "refresh_session ex_app 1000000 ''refresh.'' None None False ex_db = (Inr res, db')"
    and s: "session_by_id (rr_session_id res) db' = Some s" "s_expires_at s = days 30"
      "row_by al_id (next_uuid db') (audit_logs db') = None" using alice_refreshes by blast
  have "\<exists>db''. in_transaction is_session_terminated (refresh_session ex_app 2000000 ''refresh.'' None None False) db'
         = (Inl (RefreshTokenReuseError (rr_session_id res)), db'')"
    using refresh_replay_ends_session [OF r _ s(1) _ s(3), of 2000000 None None False] s(2)
    by (auto simp: decode_refresh)
  with r show ?thesis by blast
qed

theorem refresh_disabled_owner_revokes_witness:
  "\<exists>db'. in_transaction is_session_terminated (refresh_session ex_app 1000000 ''refresh.'' None None False)
       (ex_db\<lparr>users := [alice\<lparr>u_is_active := False\<rparr>]\<rparr>) = (Inl (SessionOwnerRevokedError 10), db')"
  using refresh_disabled_owner_revokes [of ex_app 1000000 "''refresh.''" "\<lparr>rf_session_id = 10, rf_token_version = 1\<rparr>"
      "ex_db\<lparr>users := [alice\<lparr>u_is_active := False\<rparr>]\<rparr>" alice_session "alice\<lparr>u_is_active := False\<rparr>" None None False]
  by (auto simp: decode_refresh run)

theorem logout_idempotent_witness:
  "\<exists>db'. logout 1000000 10 None None ex_db = (Inr (), db') \<and> logout 2000000 10 None None db' = (Inr (), db')"
  using alice_logs_out logout_idempotent by blast

section \<open>Password reset, verification and activation\<close>

theorem confirm_reset_refines_spec_witness:
  "\<exists>db' a. confirm_password_reset ex_app 1000000 ''s'' ''link'' ''new password'' None None ex_db = (Inr (), db')
     \<and> account_of 1 ex_db = Some a \<and> account_of 1 db' = Some (a_reset ''$new password'' a)"
proof -
  obtain db' where r: "confirm_password_reset ex_app 1000000 ''s'' ''link'' ''new password'' None None ex_db = (Inr (), db')"
    using alice_resets by blast
  from confirm_reset_refines_spec [OF r ex_db_wf] r show ?thesis
    by (auto simp: alice_link alice_reset_def hash_password_def)
qed

theorem reset_closes_every_link_witness:
  "\<exists>db'. confirm_password_reset ex_app 1000000 ''s'' ''link'' ''new password'' None None ex_db = (Inr (), db')
     \<and> confirm_password_reset ex_app 2000000 ''s'' ''link'' ''other'' None None db'
         = (Inl InvalidPasswordResetTokenError, db')"
  using alice_resets reset_closes_every_link [OF _ ex_db_wf alice_link alice_link refl] by blast

theorem set_user_active_refines_spec_witness:
  "\<exists>res db' a. set_user_active 1000000 1 False 2 None None ex_db = (Inr (Some res), db')
     \<and> account_of 1 ex_db = Some a \<and> account_of 1 db' = Some (a_set_active False a)"
  using alice_deactivated set_user_active_refines_spec by blast

theorem registration_link_verifies_once_witness:
  "\<exists>db' db''. register_user ex_app 0 ''s'' ''mail'' ''bob@x'' ''password'' None None empty_db = (Inr (), db')
     \<and> verify_email 1000000 ''mail'' None None db' = (Inr (), db'')
     \<and> verify_email 2000000 ''mail'' None None db'' = (Inl InvalidVerificationTokenError, db'')"
proof -
  obtain db' where r: "register_user ex_app 0 ''s'' ''mail'' ''bob@x'' ''password'' None None empty_db = (Inr (), db')"
    and fresh: "row_by al_id (next_uuid db') (audit_logs db') = None" using bob_registers by blast
  from registration_link_verifies_once [OF r _ fresh, of 1000000 None None 2000000 None None] r
  show ?thesis by (auto simp: run)
qed

theorem register_existing_silent_witness:
  "register_user ex_app 1000000 ''s'' ''mail'' ''alice@x'' ''password'' None None ex_db = (Inr (), ex_db)"
  by (rule register_existing_silent [THEN conjunct2, THEN mp, of _ _ alice]) (simp_all add: run)

section \<open>Second factor\<close>

theorem totp_accepted_once_witness:
  "\<exists>res db' db''. mfa_verify ex_app 75000000 2 (Some ''222222'') None None None ex_db = (Inr res, db')
     \<and> in_transaction (\<lambda>e. e = MfaCodeReplayedError) (mfa_verify ex_app 75000000 2 (Some ''222222'') None None None) db'
         = (Inl MfaCodeReplayedError, db'')"
proof -
  obtain res db' where r: "mfa_verify ex_app 75000000 2 (Some ''222222'') None None None ex_db = (Inr res, db')"
    and fresh: "row_by al_id (next_uuid db') (audit_logs db') = None" using root_verifies by blast
  from totp_accepted_once [OF r _ root_credential, of "''SECRET''" 2 "''222222''" 75000000 2 None None] r fresh
  show ?thesis by (auto simp: root_mfa_def root_secret code_of_step_two)
qed

theorem recovery_code_accepted_once_witness:
  "\<exists>res db'. mfa_verify ex_app 75000000 2 None (Some ''abcd-efgh-jkmn'') None None ex_db = (Inr res, db')
     \<and> Suc (rc_count_unused 40 db') = rc_count_unused 40 ex_db
     \<and> mfa_verify ex_app 75000000 2 None (Some ''ABCD-EFGH-JKMN'') None None db' = (Inl InvalidRecoveryCodeError, db')"
proof -
  obtain res db' where r: "mfa_verify ex_app 75000000 2 None (Some ''abcd-efgh-jkmn'') None None ex_db = (Inr res, db')"
    using root_recovers by blast
  have "normalize_code ''ABCD-EFGH-JKMN'' = normalize_code ''abcd-efgh-jkmn''" by code_simp
  from recovery_code_accepted_once [OF r ex_db_wf root_credential this, of 75000000 None None None] r
  show ?thesis by (auto simp: root_mfa_def)
qed

theorem confirm_enables_once_witness:
  "\<exists>res db'. mfa_confirm_setup ex_app 75000000 [ex_draw] 2 ''222222'' None None pending_db = (Inr res, db')
     \<and> mfa_confirm_setup ex_app 75000000 [ex_draw] 2 ''222222'' None None db' = (Inl MfaAlreadyEnabledError, db')"
  using root_confirms confirm_enables_once by blast

theorem setup_stores_pending_secret_witness:
  "\<exists>res db' c. mfa_setup ex_app ''SECRET'' [] 1 ''password'' None None ex_db = (Inr res, db')
     \<and> mc_by_user_id 1 db' = Some c \<and> \<not> is_enabled c"
  using alice_enrols setup_stores_pending_secret by blast

theorem regenerate_replaces_unused_witness:
  "\<exists>res db'. mfa_regenerate_recovery_codes ex_app 75000000 [ex_draw] 2 ''hunter22'' None None ex_db = (Inr res, db')
     \<and> unused_hashes 40 db' = map (\<lambda>p. hash_token (normalize_code p)) (rs_recovery_codes res)"
proof -
  obtain res db' where r: "mfa_regenerate_recovery_codes ex_app 75000000 [ex_draw] 2 ''hunter22'' None None ex_db = (Inr res, db')"
    using root_regenerates by blast
  from regenerate_replaces_unused [OF r] r show ?thesis by (auto simp: root_credential root_mfa_def)
qed

theorem complete_login_needs_current_epoch_witness:
  "\<exists>e. complete_mfa_login ex_app 0 77 2 2 None None None ex_db = (Inl e, ex_db)"
  by (rule complete_login_needs_current_epoch [THEN conjunct2, THEN mp]) (simp add: run)

definition ex_request :: request where
  "ex_request = \<lparr>rq_cookies = (\<lambda>_. None), rq_headers = (\<lambda>_. None), rq_client = None, rq_request_id = None\<rparr>"

definition ex_challenge :: redis where
  "ex_challenge = create_login_challenge 75000000 ''cid'' 2 3 (\<lambda>_. None)"

definition wrong_code :: mfa_verify_request where
  "wrong_code = \<lparr>vq_challenge_id = ''cid'', vq_code = Some ''999999'', vq_recovery_code = None\<rparr>"

lemma ex_challenge_resolves: "resolve_login_challenge 75000000 ''cid'' ex_challenge = Some \<lparr>pc_user_id = 2, pc_epoch = 3\<rparr>"
  by (simp add: ex_challenge_def resolve_login_challenge_def create_login_challenge_def r_get_def r_set_def
      CHALLENGE_TTL_SECONDS_def parse_challenge_format [simplified])

lemma wrong_code_fails:
  "verify_and_complete ex_app 75000000 77 \<lparr>pc_user_id = 2, pc_epoch = 3\<rparr> wrong_code ex_request ex_db
     = (Inl InvalidMfaCodeError, ex_db)"
  by (simp add: verify_and_complete_def mfa_verify_def verify_totp_def wrong_code_def root_secret run
      verify_code_step_def window_steps_three step_two TOTP_STEP_SECONDS_def py_strip_def strip_by_def
      py_space_def is_ascii_def)

theorem second_factor_failures_alike_witness:
  "fst (verify_mfa_handler ex_app 75000000 77 ex_request wrong_code [] \<lparr>w_db = ex_db, w_redis = ex_challenge\<rparr>)
     = Inl invalid_mfa_error"
  by (rule second_factor_failures_alike [where p = "\<lparr>pc_user_id = 2, pc_epoch = 3\<rparr>"
        and e = InvalidMfaCodeError and db' = ex_db, THEN conjunct1])
    (simp_all add: wrong_code_fails ex_challenge_resolves, simp_all add: wrong_code_def ex_challenge_resolves run)

theorem challenge_good_for_one_attempt_witness:
  "fst (verify_mfa_handler ex_app 76000000 78 ex_request wrong_code []
      (snd (verify_mfa_handler ex_app 75000000 77 ex_request wrong_code [] \<lparr>w_db = ex_db, w_redis = ex_challenge\<rparr>)))
     = Inl challenge_expired_error"
  by (rule challenge_good_for_one_attempt [THEN conjunct2, THEN conjunct1, OF surjective_pairing refl])

theorem verify_code_step_spec_witness:
  "totp_at ex_lib ''SECRET'' (2 * TOTP_STEP_SECONDS) = py_strip ''222222''"
  using verify_code_step_spec [of ex_lib "''SECRET''" "''222222''" 75000000 2] code_of_step_two by blast

theorem normalize_generated_code_witness:
  "normalize_code (py_lower (generate_code ex_draw)) = raw_code ex_draw"
  using normalize_generated_code [of ex_draw] by (simp add: ex_draw_def CODE_LENGTH_def)

section \<open>Tokens, throttle and boundary\<close>

theorem access_token_roundtrip_witness:
  "decode_access_token ex_lib ex_cfg 0 (issue_access_token ex_lib ex_cfg alice_claims 0) = Inr alice_claims"
  by (rule access_token_roundtrip)
    (simp_all add: issue_access_token_def ex_encode_def ex_decode_def access_payload_def alice_claims_def
      ex_cfg_def role_value_def)

theorem token_types_separated_witness:
  "decode_refresh_token ex_lib ex_cfg 0 ''access'' = Inl InvalidSessionError"
  by (rule token_types_separated [where L = ex_lib and cfg = ex_cfg and c = alice_claims and iss = 0 and tr = "''refresh.''"
        and sid = 10 and v = 1 and e = "days 30", THEN conjunct1])
    (simp_all add: ex_decode_def)

lemma read_alice: "decode_access_token ex_lib ex_cfg now ''access'' = Inr alice_claims"
  by (simp add: decode_access_token_def ex_decode_def claim_reading access_payload_def alice_claims_def wire_def
      role_value_def parse_role_def)

lemma read_root: "decode_access_token ex_lib ex_cfg now ''access-admin'' = Inr root_claims"
  by (simp add: decode_access_token_def ex_decode_def claim_reading access_payload_def root_claims_def wire_def
      role_value_def parse_role_def)

theorem epoch_claim_strict_witness:
  "\<exists>p. jwt_decode ex_lib ''access-admin'' (jwt_signing_key ex_cfg) 0 = Some p \<and> 0 \<le> ac_auth_epoch root_claims"
  using epoch_claim_strict [OF read_root] by blast

theorem throttle_schedule_witness:
  "throttle_check 50 ''a'' None (failures_at ''a'' None (\<lambda>_. None) [0, 10, 20, 30]) = Inr 1
     \<or> throttle_check 50 ''a'' None (failures_at ''a'' None (\<lambda>_. None) [0, 10, 20, 30]) = Inr 2"
  using throttle_schedule [of 0 "''a''" None "\<lambda>_. None" "[10, 20, 30]" 4 30 50]
  by (simp add: r_get_def LOCKOUT_SECONDS_def)

theorem clear_covers_login_witness:
  "browser_jar (set_session_cookies ex_cfg ''a'' ''r'' ''c'' [] @ clear_session_cookies ex_cfg []) (CSRF_COOKIE, ''/'')
     \<noteq> browser_jar (set_session_cookies ex_cfg ''a'' ''r'' ''c'' []) (CSRF_COOKIE, ''/'')"
proof -
  obtain ck where ck: "browser_jar (set_session_cookies ex_cfg ''a'' ''r'' ''c'' []) (CSRF_COOKIE, ''/'') = Some ck"
    and v: "ck_value ck = ''c''" by (simp add: browser_jar_def cookie_defs)
  from clear_covers_login [OF ck] have
    "browser_jar (set_session_cookies ex_cfg ''a'' ''r'' ''c'' [] @ clear_session_cookies ex_cfg []) (CSRF_COOKIE, ''/'')
       = Some (ck\<lparr>ck_value := [], ck_max_age := 0\<rparr>)" .
  moreover have "ck\<lparr>ck_value := [], ck_max_age := 0\<rparr> \<noteq> ck" using v by (cases ck) simp
  ultimately show ?thesis using ck by simp
qed

definition root_request :: request where
  "root_request = ex_request\<lparr>rq_cookies := [ACCESS_COOKIE \<mapsto> ''access-admin'']\<rparr>"

theorem require_admin_exact_witness:
  "require_admin ex_app 0 root_request ex_db = Inr root_claims"
  by (rule require_admin_exact [THEN conjunct1, THEN iffD2])
    (simp add: root_request_def ex_request_def read_root run, simp add: root_claims_def)

theorem session_lifecycle_witness:
  "session_le alice_session (revoke 5 alice_session) \<and> \<not> is_live 9 (revoke 6 (revoke 5 alice_session))"
proof
  show "session_le alice_session (revoke 5 alice_session)"
    using session_lifecycle [of alice_session "revoke 5 alice_session" 0] session_step.revoked by blast
  show "\<not> is_live 9 (revoke 6 (revoke 5 alice_session))"
    using session_lifecycle [of "revoke 5 alice_session" "revoke 6 (revoke 5 alice_session)" 9]
      r_into_rtranclp [of session_step, OF session_step.revoked]
    by (simp add: is_revoked_def revoke_def alice_session_def)
qed

theorem login_route_answers_witness:
  "\<exists>ans w'. login_route ex_app 1000000 77 ''cid'' ex_request ''root@x'' ''hunter22'' \<lparr>w_db = login_db, w_redis = (\<lambda>_. None)\<rparr>
       = (Inr ans, w') \<and> an_status ans = 202 \<and> an_cookies ans = []"
proof -
  obtain ans w' where r: "login_route ex_app 1000000 77 ''cid'' ex_request ''root@x'' ''hunter22''
      \<lparr>w_db = login_db, w_redis = (\<lambda>_. None)\<rparr> = (Inr ans, w')" and "an_status ans = 202"
    by (simp add: login_route_def limited_def rate_limiter_def r_incr_def r_get_def r_expire_def rate_key_def
        ex_request_def valid_body_def and_answer_def login_in_request_def login_answer_def login_def
        login_unlocked_def login_locked_def throttle_check_def throttle_key_def throttle_numbers delay_for_def
        user_agent_def client_ip_hash_def run)
  with login_route_answers [OF r] show ?thesis by auto
qed

theorem bad_links_indistinguishable_witness:
  "fst (confirm_password_reset_route ex_app 0 ''s'' ex_request ''forged'' ''new password'' \<lparr>w_db = empty_db, w_redis = (\<lambda>_. None)\<rparr>)
     = Inl (problem 400 ''INVALID_TOKEN'' ''Reset link invalid'' ''This password reset link is invalid or has already been used.'')"
proof -
  obtain hs r' where "rate_limiter ''auth:reset-confirm'' 20 3600 0 (rq_client ex_request) (\<lambda>_. None) = Some (Inr hs, r')"
    by (simp add: rate_limiter_def r_incr_def r_get_def Let_def)
  then show ?thesis
    by (intro bad_links_indistinguishable [THEN conjunct1]) (simp_all add: password_ok_def rt_by_hash_def empty_db_def)
qed

section \<open>Accounts and jobs\<close>

definition alice_request :: request where
  "alice_request = ex_request\<lparr>rq_cookies := [ACCESS_COOKIE \<mapsto> ''access'']\<rparr>"

lemma root_administers: "users db = [alice, root] \<Longrightarrow> require_admin ex_app 0 root_request db = Inr root_claims"
  by (simp add: require_admin_def current_claims_def root_request_def read_root get_auth_epoch_def alice_def root_def
      root_claims_def)

lemma alice_signed_in: "users db = [alice, root] \<Longrightarrow> current_user ex_app 0 alice_request db = Inr alice"
  by (simp add: current_user_def current_claims_def alice_request_def read_alice get_auth_epoch_def alice_def root_def
      alice_claims_def user_by_id_def can_authenticate_def)

lemma epoch_representable: "representable 0" "representable 1"
  by (simp_all add: representable_def day_range_def)

theorem account_list_complete_witness:
  "\<exists>pages. follow_route 3 (account_page_at ex_app 0 root_request 1 None None None \<lparr>w_db = ex_db, w_redis = (\<lambda>_. None)\<rparr>) None
      = Some (map (map admin_user_detail) pages) \<and> set (concat pages) = {alice, root}"
proof -
  have us: "users ex_db = [alice, root]" by (simp add: ex_rows)
  have "\<forall>u \<in> set (users ex_db). representable (u_created_at u)"
    using epoch_representable by (simp add: us alice_def root_def)
  with account_list_complete [of "\<lparr>w_db = ex_db, w_redis = (\<lambda>_. None)\<rparr>" ex_app 0 root_request root_claims 1 None 3 None None]
    root_administers [OF us] ex_db_wf us
  obtain pages where "follow_route 3 (account_page_at ex_app 0 root_request 1 None None None \<lparr>w_db = ex_db, w_redis = (\<lambda>_. None)\<rparr>) None
      = Some (map (map admin_user_detail) pages)"
    "set (concat pages) = {u \<in> set (users ex_db). matches_filters None None None u}" by auto
  moreover have "{u \<in> set (users ex_db). matches_filters None None None u} = {alice, root}"
    by (auto simp: matches_filters_def us)
  ultimately show ?thesis by auto
qed

theorem dispatch_keeps_outbox_ok_witness:
  "\<exists>n db'. dispatch_outbox (\<lambda>_ _ _ _. Some ''down'') (\<lambda>_. False) [\<lparr>tk_claim = 5, tk_retry = 6, tk_at = 7\<rparr>] ex_db
     = (Inr n, db') \<and> outbox_ok db'"
  using dispatch_keeps_outbox_ok [OF ex_outbox_ok] by blast


theorem purge_exact_witness:
  "\<exists>n db'. purge_unverified_accounts (days 91) (ex_db\<lparr>users := [alice\<lparr>u_email_verified_at := None\<rparr>]\<rparr>) = (Inr n, db')
     \<and> account_of 1 db' = None"
proof -
  let ?db = "ex_db\<lparr>users := [alice\<lparr>u_email_verified_at := None\<rparr>]\<rparr>"
  have "wf_db ?db" by (simp add: wf_db_def wf_office_def live_categories_def ex_settings_valid ex_rows)
  from purge_exact [OF this, of "days 91"] show ?thesis by (auto simp: run)
qed

section \<open>A run of the service\<close>

text \<open>Bob registers, signs in and asks for a reset link.\<close>

definition started :: system where
  "started = \<lparr>sy_db = empty_db, sy_redis = (\<lambda>_. None), sy_claims = {}, sy_checked = {}, sy_resolved = {}, sy_ids = {}\<rparr>"

definition bob_joined :: system where
  "bob_joined = known_ids (plain (register_user ex_app 0 ''s'' ''mail'' ''bob@x'' ''password'' None None) started)"

definition bob_known :: system where
  "bob_known = bob_joined\<lparr>sy_redis := throttle_reset ''bob@x'' None (\<lambda>_. None), sy_checked := {(100, ''$password'')}\<rparr>"

definition bob_claims :: access_claims where
  "bob_claims = \<lparr>ac_user_id = 100, ac_session_id = 77, ac_role = CUSTOMER, ac_email_verified = False,
     ac_mfa_completed = False, ac_auth_epoch = 0\<rparr>"

definition bob_signed_in :: system where
  "bob_signed_in = bob_known\<lparr>sy_db := snd (login_locked ex_app 0 77 (login_of ''bob@x'' ''password'') 100 ''$password'' (sy_db bob_known)),
     sy_claims := {bob_claims}\<rparr>"

definition bob_mailed :: system where
  "bob_mailed = plain (request_password_reset ex_app 0 ''link'' ''bob@x'' None None) bob_signed_in"

lemmas bob_states = started_def bob_joined_def bob_known_def bob_signed_in_def bob_mailed_def known_ids_def
  committed_def in_transaction_def register_user_def issue_verification_email_def audit_user_def hash_password_def

lemma bob_checked:
  "login_unlocked ex_app 0 (login_of ''bob@x'' ''password'') (sy_db bob_joined) (sy_redis bob_joined)
     = (Inr (hd (users (sy_db bob_joined))), throttle_reset ''bob@x'' None (\<lambda>_. None))"
  "u_id (hd (users (sy_db bob_joined))) = 100" "u_password_hash (hd (users (sy_db bob_joined))) = ''$password''"
  "sy_checked bob_joined = {}"
  by (simp_all add: bob_states run login_unlocked_def login_of_def)

lemma bob_opened:
  "\<exists>res. login_locked ex_app 0 77 (login_of ''bob@x'' ''password'') 100 ''$password'' (sy_db bob_known)
     = (Inr (LoggedIn res), sy_db bob_signed_in)"
  "\<exists>u. user_by_id 100 (sy_db bob_known) = Some u \<and> claims_of u 77 False = bob_claims"
  "sy_claims bob_known = {}" "(100, ''$password'') \<in> sy_checked bob_known"
  by (simp_all add: bob_states run login_locked_def login_of_def open_session_def claims_of_def bob_claims_def)

lemma started_initial: "initial started"
  by (simp add: initial_def started_def empty_db_def ex_settings_seeded ex_settings_unowned)

lemma bob_run: "reachable ex_app bob_mailed"
proof -
  have 1: "auth_step ex_app started bob_joined"
    unfolding bob_joined_def by (rule registers) (simp add: started_def)
  have 2: "auth_step ex_app bob_joined bob_known"
    using checks_password [OF bob_checked(1)] bob_checked(2-4) by (simp add: bob_known_def)
  obtain res u where res: "login_locked ex_app 0 77 (login_of ''bob@x'' ''password'') 100 ''$password'' (sy_db bob_known)
      = (Inr (LoggedIn res), sy_db bob_signed_in)"
    and u: "user_by_id 100 (sy_db bob_known) = Some u" "claims_of u 77 False = bob_claims"
    using bob_opened(1,2) by blast
  have "bob_known\<lparr>sy_db := sy_db bob_signed_in, sy_claims := insert (claims_of u 77 False) (sy_claims bob_known)\<rparr>
      = bob_signed_in" using u(2) bob_opened(3) by (simp add: bob_signed_in_def)
  with opens_session [OF bob_opened(4) res u(1)] have 3: "auth_step ex_app bob_known bob_signed_in" by metis
  have 4: "auth_step ex_app bob_signed_in bob_mailed"
    unfolding bob_mailed_def by (rule requests_reset)
  have "(auth_step ex_app)\<^sup>*\<^sup>* started bob_mailed"
    by (rule converse_rtranclp_into_rtranclp [OF 1 converse_rtranclp_into_rtranclp [OF 2
          converse_rtranclp_into_rtranclp [OF 3 r_into_rtranclp [of "auth_step ex_app", OF 4]]]])
  with started_initial show ?thesis unfolding reachable_def by blast
qed

lemma bob_redeems:
  "\<exists>db1 t. confirm_password_reset ex_app 1000000 ''s'' ''link'' ''new password'' None None (sy_db bob_mailed) = (Inr (), db1)
     \<and> rt_by_hash (hash_token ''link'') (sy_db bob_mailed) = Some t \<and> rt_user_id t = 100"
  by (simp add: bob_states run login_locked_def login_of_def open_session_def confirm_password_reset_def
      request_password_reset_def reset_request_eligible_def issue_password_reset_email_def PASSWORD_RESET_TOKEN_TTL_def)

lemma bob_disabled:
  "\<exists>res db1. set_user_active 1000000 100 False 100 None None (sy_db bob_mailed) = (Inr (Some res), db1) \<and> sr_changed res"
  by (simp add: bob_states run login_locked_def login_of_def open_session_def set_user_active_def
      request_password_reset_def reset_request_eligible_def issue_password_reset_email_def)

lemma bob_token: "sy_claims bob_mailed = {bob_claims}"
  by (simp add: bob_mailed_def bob_signed_in_def)




end
