(* ===== verification/Worked_Office.thy ===== *)
theory Worked_Office
  imports Worked_Examples
begin

text \<open>
  The properties of the settings, the catalogue, the notifications and the kept records applied to
  the concrete service: a shop with one category on sale, one archived, and a notification for the
  customer.
\<close>

definition toys :: category where
  "toys = \<lparr>rv_id = 200, rv_name = ''Toys'', rv_is_active = True, rv_deleted_at = None, rv_created_at = 0,
     rv_updated_at = 0, cat_slug = ''toys''\<rparr>"

definition lamps :: category where
  "lamps = \<lparr>rv_id = 201, rv_name = ''Lamps'', rv_is_active = False, rv_deleted_at = Some 5, rv_created_at = 0,
     rv_updated_at = 5, cat_slug = ''lamps''\<rparr>"

definition resin :: reference_value where
  "resin = \<lparr>rv_id = 210, rv_name = ''Resin'', rv_is_active = True, rv_deleted_at = None, rv_created_at = 0,
     rv_updated_at = 0\<rparr>"

definition hello :: notification where
  "hello = \<lparr>nt_id = 220, nt_user_id = 1, nt_type = ACCOUNT, nt_payload = [(''event'', PStr ''welcome'')],
     nt_read_at = None, nt_created_at = 0\<rparr>"

definition shop_db :: database where
  "shop_db = ex_db\<lparr>categories := [toys, lamps], materials := [resin], notifications := [hello]\<rparr>"

lemmas shop = shop_db_def toys_def lamps_def resin_def hello_def

lemma shop_wf: "wf_db shop_db"
  by (simp add: wf_db_def wf_office_def live_categories_def ex_settings_valid shop ex_rows)

section \<open>Settings\<close>

lemma orders_closed: "validate_value ''accepting_orders'' (PBool False) = Inr (PBool False)"
  by (simp add: validate_value_iff public_registry setting_definitions stored_form_def satisfies_def)

lemma orders_close: "\<exists>res db'. update_setting 1 ''accepting_orders'' (PBool False) 2 None None (ex_db\<lparr>tx_now := 1\<rparr>) = (Inr res, db')"
  by (rule update_setting_succeeds [OF _ orders_closed])
    (use wf_settings [OF ex_db_wf] in \<open>simp_all add: user_by_id_def ex_rows\<close>)

theorem update_setting_audited_witness:
  "\<exists>res db' e. update_setting 1 ''accepting_orders'' (PBool False) 2 None None (ex_db\<lparr>tx_now := 1\<rparr>) = (Inr res, db')
     \<and> audit_logs db' = [e] \<and> al_actor_user_id e = Some 2"
proof -
  obtain res db' where r: "update_setting 1 ''accepting_orders'' (PBool False) 2 None None (ex_db\<lparr>tx_now := 1\<rparr>) = (Inr res, db')"
    using orders_close by blast
  have "wf_db (ex_db\<lparr>tx_now := 1\<rparr>)" using ex_db_wf by simp
  from update_setting_audited [OF this r] r show ?thesis by (auto simp: ex_db_def empty_db_def)
qed

theorem setting_history_unbroken_witness:
  "\<exists>rows db'. updates_in_turn ''accepting_orders'' [(1, PBool False, 2)] ex_db = Some db' \<and> audit_logs db' = rows
     \<and> length rows = 1"
proof -
  obtain db' where r: "updates_in_turn ''accepting_orders'' [(1, PBool False, 2)] ex_db = Some db'"
    using orders_close by auto
  from setting_history_unbroken [OF ex_db_wf r] r show ?thesis by (auto simp: ex_db_def empty_db_def)
qed

theorem seed_once_witness:
  "seed_settings ex_db = Inr ex_db"
  using seed_once [of ex_db] wf_settings [OF ex_db_wf] by blast

lemma public_admitted:
  "\<exists>hs r'. rate_limiter p 600 3600 0 (rq_client ex_request) (\<lambda>_. None) = Some (Inr hs, r')"
  by (simp add: rate_limiter_def r_incr_def r_get_def Let_def)

theorem public_settings_served_witness:
  "\<exists>ans w'. read_public_settings_route 0 ex_request \<lparr>w_db = shop_db, w_redis = (\<lambda>_. None)\<rparr> = (Inr ans, w')
     \<and> an_status ans = 200"
proof -
  obtain hs r' where "rate_limiter ''settings:public'' 600 3600 0 (rq_client ex_request) (\<lambda>_. None) = Some (Inr hs, r')"
    using public_admitted by blast
  with public_settings_served [of "\<lparr>w_db = shop_db, w_redis = (\<lambda>_. None)\<rparr>" 0 ex_request hs r'] shop_wf show ?thesis
    by auto
qed

theorem public_settings_noninterference_witness:
  "fst (read_public_settings_route 0 ex_request \<lparr>w_db = shop_db, w_redis = (\<lambda>_. None)\<rparr>)
     = fst (read_public_settings_route 0 ex_request \<lparr>w_db = empty_db, w_redis = (\<lambda>_. None)\<rparr>)"
  by (rule public_settings_noninterference) (simp_all add: setting_by_key_def shop_db_def ex_db_def)

definition code_points :: collation where
  "code_points s = map of_char s"

lemma code_points_inj: "inj code_points"
  by (auto simp: inj_def code_points_def dest: map_injective)

theorem settings_list_complete_witness:
  "\<exists>pages. follow 13 1 (settings_behind code_points None None ex_db) setting_cursor None = Some pages
     \<and> length (concat pages) = 12"
proof -
  have len: "length (setting_rows ex_db) = 12"
    by (simp add: ex_db_def empty_db_def ex_settings_def SEED_def)
  have "distinct (setting_rows ex_db)"
    using wf_settings [OF ex_db_wf] by (simp add: settings_valid_def distinct_map)
  moreover have "{s \<in> set (setting_rows ex_db). setting_matches None None s} = set (setting_rows ex_db)"
    by (simp add: setting_matches_def)
  moreover obtain pages where "follow 13 1 (settings_behind code_points None None ex_db) setting_cursor None = Some pages"
    "distinct (concat pages)" "set (concat pages) = {s \<in> set (setting_rows ex_db). setting_matches None None s}"
    using settings_list_complete [OF ex_db_wf, of code_points 1 13 None None] code_points_inj len
    by (auto simp: inj_on_def inj_def)
  ultimately show ?thesis using len by (metis distinct_card)
qed

section \<open>Catalogue\<close>

lemma vases_slug: "normalise_slug '' Vases '' = Inr ''vases''"
  by code_simp


theorem update_category_audited_witness:
  "\<exists>res db' e. update_category 9 200 (Some ''Games'') None None 2 None None shop_db = (Inr res, db')
     \<and> category_by_id 200 db' = Some (cm_category res) \<and> rv_name (cm_category res) = ''Games'' \<and> audit_logs db' = [e]"
proof -
  obtain res db' where r: "update_category 9 200 (Some ''Games'') None None 2 None None shop_db = (Inr res, db')"
    by (simp add: update_category_def cmd_simps category_by_id_def is_archived_def apply_category_update_def update_name_def
        update_slug_def update_is_active_def touch_def category_save_def slug_free_def slug_taken_def live_categories_def
        audit_add_def value_audit_def user_by_id_def next_uuid_def shop ex_rows)
  from update_category_audited [OF shop_wf r] r show ?thesis by (auto simp: shop_db_def ex_db_def empty_db_def)
qed

theorem archive_releases_slug_witness:
  "\<exists>c db'. archive_category 9 200 2 None None shop_db = (Inr c, db') \<and> slug_taken ''toys'' (categories shop_db)
     \<and> \<not> slug_taken ''toys'' (categories db')"
proof -
  obtain c db' where r: "archive_category 9 200 2 None None shop_db = (Inr c, db')" and c: "cat_slug c = ''toys''"
    by (simp add: archive_category_def cmd_simps category_by_id_def is_archived_def archive_def Let_def
        category_save_def slug_free_def audit_add_def value_audit_def user_by_id_def next_uuid_def shop ex_rows)
  from archive_releases_slug [OF shop_wf r] r c show ?thesis
    by (auto simp: slug_taken_def live_categories_def shop_db_def toys_def)
qed


abbreviation shop :: world where
  "shop \<equiv> \<lparr>w_db = shop_db, w_redis = (\<lambda>_. None)\<rparr>"

lemma shop_users: "users shop_db = [alice, root]"
  by (simp add: shop_db_def ex_rows)

theorem admin_lists_complete_witness:
  "full_listing code_points True 3 1
     (\<lambda>c. page_answer (admin_list_categories 1 ex_app code_points 0 root_request c 1 True shop)) category_detail_of [toys, lamps]"
  using admin_lists_complete [of shop ex_app 0 root_request root_claims 1 3 1 code_points True]
    root_administers [OF shop_users] shop_wf
  by (simp add: shop_db_def ex_db_def empty_db_def)

section \<open>Notifications\<close>

theorem read_state_owned_and_idempotent_witness:
  "\<exists>n db'. set_read_state 220 1 True shop_db = (Some n, db') \<and> is_read n
     \<and> set_read_state 220 2 True shop_db = (None, shop_db)"
proof -
  obtain out db' where r: "set_read_state 220 1 True shop_db = (out, db')" by (rule prod.exhaust)
  obtain out2 db2 where r2: "set_read_state 220 2 True shop_db = (out2, db2)" by (rule prod.exhaust)
  from read_state_owned_and_idempotent [OF shop_wf r2] have "out2 = None" "db2 = shop_db"
    by (auto simp: shop_db_def hello_def)
  moreover from read_state_owned_and_idempotent [OF shop_wf r] obtain n where "out = Some n" "is_read n"
    by (auto simp: shop_db_def hello_def)
  ultimately show ?thesis using r r2 by blast
qed

theorem notification_list_complete_witness:
  "\<exists>pages. follow_route 2 (notification_page_at ex_app 0 alice_request 1 (Some False) shop) None
      = Some (map (map from_notification) pages) \<and> set (concat pages) = {hello}"
proof -
  have "{n \<in> set (notifications shop_db). nt_user_id n = 1 \<and> (Some False = None \<or> Some False = Some (is_read n))} = {hello}"
    by (auto simp: shop_db_def hello_def is_read_def)
  moreover have "cursor_times_ok (u_id alice) shop_db"
    using epoch_representable by (simp add: cursor_times_ok_def shop_db_def hello_def)
  ultimately show ?thesis
    using notification_list_complete [of shop ex_app 0 alice_request alice 1 2 "Some False"]
      alice_signed_in [OF shop_users] shop_wf
    by (auto simp: shop_db_def alice_def)
qed

section \<open>Records\<close>

text \<open>Bob, who has registered, creates a category and archives it; an attempt to rename it follows.\<close>

definition made :: system where
  "made = plain (create_category ''Toys'' ''toys'' True 100 None None) bob_joined"

definition shelved :: system where
  "shelved = plain (archive_category 7 104 100 None None) made"

definition retried :: system where
  "retried = plain (update_category 8 104 (Some ''Games'') None None 100 None None) shelved"

lemma shelved_reachable: "reachable ex_app shelved"
proof -
  have "auth_step ex_app started bob_joined"
    unfolding bob_joined_def by (rule registers) (simp add: started_def)
  moreover have "auth_step ex_app bob_joined made" unfolding made_def by (rule creates_category)
  moreover have "auth_step ex_app made shelved" unfolding shelved_def by (rule archives_category)
  ultimately have "(auth_step ex_app)\<^sup>*\<^sup>* started shelved" by (meson r_into_rtranclp rtranclp_trans)
  with started_initial show ?thesis unfolding reachable_def by blast
qed

lemma retried_later: "(auth_step ex_app)\<^sup>*\<^sup>* shelved retried"
  unfolding retried_def by (rule r_into_rtranclp) (rule updates_category)

lemma toys_slug: "normalise_slug ''toys'' = Inr ''toys''"
  by code_simp

lemma shelved_row:
  "\<exists>c. category_by_id 104 (sy_db shelved) = Some c \<and> is_archived c" "length (audit_logs (sy_db shelved)) = 3"
  by (simp_all add: shelved_def made_def bob_states run create_category_def catalog_def toys_slug category_add_def
      category_by_id_def slug_taken_def live_categories_def value_audit_def archive_category_def is_archived_def
      archive_def category_save_def slug_free_def category_stored_def)

theorem archived_values_final_witness:
  "\<exists>c. category_by_id 104 (sy_db retried) = Some c \<and> is_archived c"
  using archived_values_final [OF shelved_reachable retried_later, of 104] shelved_row(1) by blast

theorem audit_log_append_only_witness:
  "3 \<le> length (audit_logs (sy_db retried))"
  using audit_log_append_only [OF shelved_reachable retried_later] shelved_row(2) by simp

end
