(* ===== verification/Schema_Ddl.thy ===== *)
theory Schema_Ddl
  imports Prelude
begin

text \<open>
  The part of the PostgreSQL catalogue that the migrations and the ORM models describe, and the
  DDL statements Alembic's operations emit on it: extensions, enum types, tables with their
  columns and constraints, and indexes.  A statement succeeds with the changed catalogue or fails
  with the object it stumbled over, and a migration is a list of statements in one transaction.
  Rows are not part of this state: \<open>Schema_Rows\<close> says what it means for rows to satisfy a table.
\<close>

section \<open>Columns, constraints, indexes\<close>

datatype sql_type =
    Uuid_Type | Citext_Type | Text_Type | Boolean_Type | Timestamptz_Type | Integer_Type
  | Bigint_Type | Bytea_Type | Jsonb_Type | Enum_Type string "string list"

text \<open>\<open>server_default\<close>: an SQL expression (\<open>sa.text\<close>, \<open>func.now()\<close>) or a quoted literal.\<close>

datatype server_default = No_Default | Sql string | Literal string

record column =
  cl_name :: string
  cl_type :: sql_type
  cl_default :: server_default
  cl_nullable :: bool

text \<open>The conditions of the checks and partial indexes: \<open>c IS NULL\<close>, \<open>c = 'text'\<close>, \<open>c > n\<close>,
  \<open>c >= n\<close>.\<close>

datatype condition = Is_Null string | Equals string string | Greater string int | At_Least string int

fun condition_column :: "condition \<Rightarrow> string" where
  "condition_column (Is_Null c) = c"
| "condition_column (Equals c v) = c"
| "condition_column (Greater c n) = c"
| "condition_column (At_Least c n) = c"

datatype on_delete = Cascade | Set_Null

datatype table_constraint =
    Primary_Key "string list"
  | Unique "string list"
  | Foreign_Key string string string on_delete
  | Check string condition

fun constraint_columns :: "table_constraint \<Rightarrow> string list" where
  "constraint_columns (Primary_Key cs) = cs"
| "constraint_columns (Unique cs) = cs"
| "constraint_columns (Foreign_Key c t r d) = [c]"
| "constraint_columns (Check n k) = [condition_column k]"

record table_def =
  tb_columns :: "column list"
  tb_constraints :: "table_constraint list"

record index_def =
  ix_table :: string
  ix_columns :: "(string \<times> bool) list" \<comment> \<open>the column, and whether it is descending\<close>
  ix_unique :: bool
  ix_where :: "condition option"

definition index_mentions :: "index_def \<Rightarrow> string list" where
  "index_mentions x = map fst (ix_columns x) @ (case ix_where x of None \<Rightarrow> [] | Some k \<Rightarrow> [condition_column k])"

record schema =
  sc_extensions :: "string list"
  sc_types :: "(string \<times> string list) list"
  sc_tables :: "(string \<times> table_def) list"
  sc_indexes :: "(string \<times> index_def) list"

definition empty_schema :: schema where
  "empty_schema = \<lparr>sc_extensions = [], sc_types = [], sc_tables = [], sc_indexes = []\<rparr>"

definition column_names :: "table_def \<Rightarrow> string list" where
  "column_names t = map cl_name (tb_columns t)"

definition enum_of :: "column \<Rightarrow> (string \<times> string list) list" where
  "enum_of c = (case cl_type c of Enum_Type n ls \<Rightarrow> [(n, ls)] | _ \<Rightarrow> [])"

definition enums_of :: "column list \<Rightarrow> (string \<times> string list) list" where
  "enums_of cs = concat (map enum_of cs)"

definition references :: "table_def \<Rightarrow> (string \<times> string) set" where
  "references t = set (concat (map (\<lambda>k. case k of Foreign_Key c r rk d \<Rightarrow> [(r, rk)] | _ \<Rightarrow> []) (tb_constraints t)))"

lemma mem_references: "(r, k) \<in> references t \<longleftrightarrow> (\<exists>c d. Foreign_Key c r k d \<in> set (tb_constraints t))"
  by (force simp: references_def split: table_constraint.splits)

text \<open>A foreign key needs a key of the table it points to.\<close>

definition is_key_of :: "string \<Rightarrow> table_def \<Rightarrow> bool" where
  "is_key_of k t \<longleftrightarrow> Primary_Key [k] \<in> set (tb_constraints t) \<or> Unique [k] \<in> set (tb_constraints t)"

section \<open>Statements\<close>

datatype ddl =
    Create_Extension string
  | Drop_Extension string
  | Create_Table string "column list" "table_constraint list"
  | Drop_Table string
  | Create_Index string string "(string \<times> bool) list" bool "condition option"
  | Drop_Index string
  | Add_Column string column
  | Drop_Column string string
  | Create_Check string string condition
  | Drop_Constraint string string
  | Drop_Type string

datatype ddl_error = Duplicate_Object string | Undefined_Object string | Dependent_Objects string

definition without :: "string \<Rightarrow> (string \<times> 'a) list \<Rightarrow> (string \<times> 'a) list" where
  "without n xs = filter (\<lambda>(k, _). k \<noteq> n) xs"

definition alter :: "string \<Rightarrow> ('a \<Rightarrow> 'a) \<Rightarrow> (string \<times> 'a) list \<Rightarrow> (string \<times> 'a) list" where
  "alter n f xs = map (\<lambda>(k, x). (k, if k = n then f x else x)) xs"

text \<open>The columns of a table: the extension type \<open>citext\<close> must be installed.\<close>

definition type_known :: "schema \<Rightarrow> sql_type \<Rightarrow> bool" where
  "type_known s t = (case t of Citext_Type \<Rightarrow> ''citext'' \<in> set (sc_extensions s)
     | Enum_Type n ls \<Rightarrow> (n, ls) \<in> set (sc_types s) | _ \<Rightarrow> True)"

definition reference_known :: "(string \<times> table_def) list \<Rightarrow> table_constraint \<Rightarrow> bool" where
  "reference_known tables k = (case k of
       Foreign_Key c r rk d \<Rightarrow> (case map_of tables r of None \<Rightarrow> False | Some t \<Rightarrow> is_key_of rk t)
     | _ \<Rightarrow> True)"

definition constraint_name :: "table_constraint \<Rightarrow> string option" where
  "constraint_name k = (case k of Check n c \<Rightarrow> Some n | _ \<Rightarrow> None)"

text \<open>\<open>sa.Enum\<close> columns: \<open>create_table\<close> first emits \<open>CREATE TYPE\<close> for each, unconditionally.
  \<open>drop_table\<close> emits only \<open>DROP TABLE\<close>, which takes the indexes of the table along and leaves
  the types behind.\<close>

fun apply_ddl :: "ddl \<Rightarrow> schema \<Rightarrow> ddl_error + schema" where
  "apply_ddl (Create_Extension x) s =
     Inr (if x \<in> set (sc_extensions s) then s else s\<lparr>sc_extensions := sc_extensions s @ [x]\<rparr>)"
| "apply_ddl (Drop_Extension x) s =
     (if x = ''citext'' \<and> (\<exists>(n, t) \<in> set (sc_tables s). \<exists>c \<in> set (tb_columns t). cl_type c = Citext_Type)
      then Inl (Dependent_Objects x)
      else Inr (s\<lparr>sc_extensions := filter (\<lambda>y. y \<noteq> x) (sc_extensions s)\<rparr>))"
| "apply_ddl (Create_Table n cs ks) s =
     (let s' = s\<lparr>sc_types := sc_types s @ enums_of cs\<rparr>; t = \<lparr>tb_columns = cs, tb_constraints = ks\<rparr> in
      if \<not> distinct (map fst (sc_types s')) then Inl (Duplicate_Object (hd (map fst (enums_of cs))))
      else if n \<in> fst ` set (sc_tables s) then Inl (Duplicate_Object n)
      else if \<not> distinct (map cl_name cs) then Inl (Duplicate_Object n)
      else if \<not> (\<forall>c \<in> set cs. type_known s' (cl_type c)) then Inl (Undefined_Object n)
      else if \<not> (\<forall>k \<in> set ks. reference_known (sc_tables s @ [(n, t)]) k) then Inl (Undefined_Object n)
      else if \<not> (\<forall>k \<in> set ks. set (constraint_columns k) \<subseteq> set (map cl_name cs)) then Inl (Undefined_Object n)
      else Inr (s'\<lparr>sc_tables := sc_tables s @ [(n, t)]\<rparr>))"
| "apply_ddl (Drop_Table n) s =
     (if n \<notin> fst ` set (sc_tables s) then Inl (Undefined_Object n)
      else if \<exists>(m, t) \<in> set (sc_tables s). m \<noteq> n \<and> n \<in> fst ` references t then Inl (Dependent_Objects n)
      else Inr (s\<lparr>sc_tables := without n (sc_tables s),
             sc_indexes := filter (\<lambda>(_, x). ix_table x \<noteq> n) (sc_indexes s)\<rparr>))"
| "apply_ddl (Create_Index i n cols u w) s =
     (let x = \<lparr>ix_table = n, ix_columns = cols, ix_unique = u, ix_where = w\<rparr> in
      if i \<in> fst ` set (sc_indexes s) then Inl (Duplicate_Object i)
      else (case map_of (sc_tables s) n of
          None \<Rightarrow> Inl (Undefined_Object n)
        | Some t \<Rightarrow>
            if \<not> set (index_mentions x) \<subseteq> set (column_names t) then Inl (Undefined_Object i)
            else Inr (s\<lparr>sc_indexes := sc_indexes s @ [(i, x)]\<rparr>)))"
| "apply_ddl (Drop_Index i) s =
     (if i \<notin> fst ` set (sc_indexes s) then Inl (Undefined_Object i)
      else Inr (s\<lparr>sc_indexes := without i (sc_indexes s)\<rparr>))"
| "apply_ddl (Add_Column n c) s = (case map_of (sc_tables s) n of
       None \<Rightarrow> Inl (Undefined_Object n)
     | Some t \<Rightarrow>
         if cl_name c \<in> set (column_names t) then Inl (Duplicate_Object (cl_name c))
         else if \<not> type_known s (cl_type c) then Inl (Undefined_Object (cl_name c))
         else Inr (s\<lparr>sc_tables := alter n (\<lambda>t. t\<lparr>tb_columns := tb_columns t @ [c]\<rparr>) (sc_tables s)\<rparr>))"
| "apply_ddl (Drop_Column n c) s = (case map_of (sc_tables s) n of
       None \<Rightarrow> Inl (Undefined_Object n)
     | Some t \<Rightarrow>
         if c \<notin> set (column_names t) then Inl (Undefined_Object c)
         else if \<exists>(m, t) \<in> set (sc_tables s). (n, c) \<in> references t then Inl (Dependent_Objects c)
         else Inr (s\<lparr>sc_tables := alter n (\<lambda>t. t\<lparr>tb_columns := filter (\<lambda>d. cl_name d \<noteq> c) (tb_columns t),
                tb_constraints := filter (\<lambda>k. c \<notin> set (constraint_columns k)) (tb_constraints t)\<rparr>) (sc_tables s),
             sc_indexes := filter (\<lambda>(_, x). \<not> (ix_table x = n \<and> c \<in> set (index_mentions x))) (sc_indexes s)\<rparr>))"
| "apply_ddl (Create_Check i n k) s = (case map_of (sc_tables s) n of
       None \<Rightarrow> Inl (Undefined_Object n)
     | Some t \<Rightarrow>
         if Some i \<in> constraint_name ` set (tb_constraints t) then Inl (Duplicate_Object i)
         else if condition_column k \<notin> set (column_names t) then Inl (Undefined_Object i)
         else Inr (s\<lparr>sc_tables := alter n (\<lambda>t. t\<lparr>tb_constraints := tb_constraints t @ [Check i k]\<rparr>) (sc_tables s)\<rparr>))"
| "apply_ddl (Drop_Constraint i n) s = (case map_of (sc_tables s) n of
       None \<Rightarrow> Inl (Undefined_Object n)
     | Some t \<Rightarrow>
         if Some i \<notin> constraint_name ` set (tb_constraints t) then Inl (Undefined_Object i)
         else Inr (s\<lparr>sc_tables := alter n (\<lambda>t. t\<lparr>tb_constraints :=
                filter (\<lambda>k. constraint_name k \<noteq> Some i) (tb_constraints t)\<rparr>) (sc_tables s)\<rparr>))"
| "apply_ddl (Drop_Type n) s =
     (if n \<notin> fst ` set (sc_types s) then Inr s
      else if \<exists>(m, t) \<in> set (sc_tables s). n \<in> fst ` set (enums_of (tb_columns t)) then Inl (Dependent_Objects n)
      else Inr (s\<lparr>sc_types := without n (sc_types s)\<rparr>))"

fun run_ddl :: "ddl list \<Rightarrow> schema \<Rightarrow> ddl_error + schema" where
  "run_ddl [] s = Inr s"
| "run_ddl (d # ds) s = (case apply_ddl d s of Inl e \<Rightarrow> Inl e | Inr s' \<Rightarrow> run_ddl ds s')"


section \<open>A catalogue without dangling references\<close>

definition wf_table :: "schema \<Rightarrow> table_def \<Rightarrow> bool" where
  "wf_table s t \<longleftrightarrow> distinct (column_names t) \<and> (\<forall>c \<in> set (tb_columns t). type_known s (cl_type c))
     \<and> (\<forall>k \<in> set (tb_constraints t). reference_known (sc_tables s) k \<and> set (constraint_columns k) \<subseteq> set (column_names t))"

definition wf_index :: "schema \<Rightarrow> index_def \<Rightarrow> bool" where
  "wf_index s x \<longleftrightarrow> (\<exists>t. map_of (sc_tables s) (ix_table x) = Some t \<and> set (index_mentions x) \<subseteq> set (column_names t))"

definition wf_schema :: "schema \<Rightarrow> bool" where
  "wf_schema s \<longleftrightarrow> distinct (map fst (sc_types s)) \<and> distinct (map fst (sc_tables s)) \<and> distinct (map fst (sc_indexes s))
     \<and> (\<forall>(n, t) \<in> set (sc_tables s). wf_table s t) \<and> (\<forall>(i, x) \<in> set (sc_indexes s). wf_index s x)"

lemma wf_empty_schema: "wf_schema empty_schema"
  by (simp add: wf_schema_def empty_schema_def)

named_theorems catalogue_simps \<open>lookup and update of named objects\<close>

lemma fst_without [catalogue_simps, simp]: "map fst (without n xs) = filter (\<lambda>k. k \<noteq> n) (map fst xs)"
  by (induction xs) (auto simp: without_def)

lemma set_without [catalogue_simps, simp]: "set (without n xs) = {(k, x) \<in> set xs. k \<noteq> n}"
  by (auto simp: without_def)

lemma map_of_without [catalogue_simps, simp]: "map_of (without n xs) k = (if k = n then None else map_of xs k)"
  by (induction xs) (auto simp: without_def)

lemma without_fresh [catalogue_simps, simp]: "n \<notin> fst ` set xs \<Longrightarrow> without n xs = xs"
  by (induction xs) (auto simp: without_def)

lemma without_append [catalogue_simps, simp]: "without n (xs @ ys) = without n xs @ without n ys"
  by (simp add: without_def)

lemma without_Cons [catalogue_simps, simp]:
  "without n ((k, x) # xs) = (if k = n then without n xs else (k, x) # without n xs)"
  by (simp add: without_def)

lemma without_Nil [catalogue_simps, simp]: "without n [] = []"
  by (simp add: without_def)

lemma fst_alter [catalogue_simps, simp]: "map fst (alter n f xs) = map fst xs"
  by (induction xs) (auto simp: alter_def)

lemma fst_set_alter [catalogue_simps, simp]: "fst ` set (alter n f xs) = fst ` set xs"
  by (metis fst_alter set_map)

lemma map_of_alter [catalogue_simps, simp]:
  "map_of (alter n f xs) k = (if k = n then map_option f (map_of xs k) else map_of xs k)"
  by (induction xs) (auto simp: alter_def)

lemma set_alter: "(k, y) \<in> set (alter n f xs) \<longleftrightarrow> (\<exists>x. (k, x) \<in> set xs \<and> y = (if k = n then f x else x))"
  by (force simp: alter_def)

lemma alter_alter [catalogue_simps, simp]: "alter n g (alter n f xs) = alter n (g \<circ> f) xs"
  by (induction xs) (auto simp: alter_def)

lemma alter_id: "(\<And>x. (n, x) \<in> set xs \<Longrightarrow> f x = x) \<Longrightarrow> alter n f xs = xs"
  by (induction xs) (auto simp: alter_def)

lemma map_of_append_fresh: "n \<notin> fst ` set xs \<Longrightarrow> map_of (xs @ [(n, x)]) k = (if k = n then Some x else map_of xs k)"
  by (induction xs) auto

lemma map_of_in_set: "distinct (map fst xs) \<Longrightarrow> map_of xs k = Some x \<longleftrightarrow> (k, x) \<in> set xs"
  by simp

text \<open>What a table and an index need stays when the catalogue around them only grows, or loses what
  they do not use.\<close>

lemma type_known_mono:
  "type_known s t \<Longrightarrow> set (sc_extensions s) \<subseteq> set (sc_extensions s') \<Longrightarrow> set (sc_types s) \<subseteq> set (sc_types s')
    \<Longrightarrow> type_known s' t"
  by (auto simp: type_known_def split: sql_type.splits)

lemma reference_known_mono:
  assumes "reference_known ts k"
    and "\<And>c r rk d t. k = Foreign_Key c r rk d \<Longrightarrow> map_of ts r = Some t \<Longrightarrow> is_key_of rk t
      \<Longrightarrow> \<exists>t'. map_of ts' r = Some t' \<and> is_key_of rk t'"
  shows "reference_known ts' k"
  using assms by (cases k) (fastforce simp: reference_known_def split: option.splits)+

lemma wf_table_indexes [simp]: "wf_table (s\<lparr>sc_indexes := xs\<rparr>) t = wf_table s t"
  by (simp add: wf_table_def type_known_def cong: sql_type.case_cong)

lemma wf_index_indexes [simp]: "wf_index (s\<lparr>sc_indexes := xs\<rparr>) x = wf_index s x"
  by (simp add: wf_index_def)

lemma wf_tableI:
  assumes "wf_table s t" and "set (sc_extensions s) \<subseteq> set (sc_extensions s')" and "set (sc_types s) \<subseteq> set (sc_types s')"
    and "\<And>r k u. (r, k) \<in> references t \<Longrightarrow> map_of (sc_tables s) r = Some u \<Longrightarrow> is_key_of k u
      \<Longrightarrow> \<exists>u'. map_of (sc_tables s') r = Some u' \<and> is_key_of k u'"
  shows "wf_table s' t"
  unfolding wf_table_def
proof (intro conjI ballI)
  show "distinct (column_names t)"
    using assms(1) by (simp add: wf_table_def)
  show "type_known s' (cl_type c)" if "c \<in> set (tb_columns t)" for c
    using assms(1-3) that by (auto simp: wf_table_def intro: type_known_mono)
  show "set (constraint_columns k) \<subseteq> set (column_names t)" if "k \<in> set (tb_constraints t)" for k
    using assms(1) that by (simp add: wf_table_def)
  show "reference_known (sc_tables s') k" if k: "k \<in> set (tb_constraints t)" for k
  proof (rule reference_known_mono [of "sc_tables s"])
    show "reference_known (sc_tables s) k"
      using assms(1) k by (simp add: wf_table_def)
    show "\<exists>u'. map_of (sc_tables s') r = Some u' \<and> is_key_of rk u'"
      if "k = Foreign_Key c r rk d" "map_of (sc_tables s) r = Some u" "is_key_of rk u" for c r rk d u
      by (rule assms(4)) (use k that in \<open>auto simp: mem_references\<close>)
  qed
qed

text \<open>Every statement keeps the catalogue well formed.\<close>

lemma wf_create_table:
  assumes "wf_schema s" and "apply_ddl (Create_Table n cs ks) s = Inr s'"
  shows "wf_schema s'"
proof -
  let ?t = "\<lparr>tb_columns = cs, tb_constraints = ks\<rparr>"
  have s': "s' = s\<lparr>sc_types := sc_types s @ enums_of cs, sc_tables := sc_tables s @ [(n, ?t)]\<rparr>"
    and n: "n \<notin> fst ` set (sc_tables s)" and d: "distinct (map fst (sc_types s @ enums_of cs))" "distinct (map cl_name cs)"
    and c: "\<forall>c \<in> set cs. type_known (s\<lparr>sc_types := sc_types s @ enums_of cs\<rparr>) (cl_type c)"
    and k: "\<forall>k \<in> set ks. reference_known (sc_tables s @ [(n, ?t)]) k \<and> set (constraint_columns k) \<subseteq> set (map cl_name cs)"
    using assms(2) by (auto simp: Let_def split: if_splits)
  have lookup: "map_of (sc_tables s') m = (if m = n then Some ?t else map_of (sc_tables s) m)" for m
    using map_of_append_fresh [OF n, of ?t m] by (simp add: s')
  have keeps: "map_of (sc_tables s) r = Some u \<Longrightarrow> map_of (sc_tables s') r = Some u" for r u
    using n by (auto simp: lookup dest: map_of_SomeD intro: rev_image_eqI)
  have "wf_table s' ?t"
    using d(2) c k by (auto simp: wf_table_def column_names_def s' type_known_def split: sql_type.splits)
  moreover have "wf_table s' t" if "(m, t) \<in> set (sc_tables s)" for m t
    by (rule wf_tableI [of s]) (use assms(1) that keeps in \<open>auto simp: wf_schema_def s'\<close>)
  moreover have "wf_index s' x" if "(i, x) \<in> set (sc_indexes s)" for i x
    using assms(1) that keeps by (fastforce simp: wf_schema_def wf_index_def)
  ultimately show ?thesis
    using assms(1) n d(1) by (auto simp: wf_schema_def s')
qed

lemma wf_drop_table:
  assumes "wf_schema s" and "apply_ddl (Drop_Table n) s = Inr s'"
  shows "wf_schema s'"
proof -
  have s': "s' = s\<lparr>sc_tables := without n (sc_tables s), sc_indexes := filter (\<lambda>(_, x). ix_table x \<noteq> n) (sc_indexes s)\<rparr>"
    and free: "\<forall>(m, t) \<in> set (sc_tables s). m = n \<or> n \<notin> fst ` references t"
    using assms(2) by (auto split: if_splits)
  have "wf_table s' t" if "(m, t) \<in> set (sc_tables s)" "m \<noteq> n" for m t
    by (rule wf_tableI [of s]) (use assms(1) that free in \<open>force simp: wf_schema_def s'\<close>)+
  moreover have "wf_index s' x" if "(i, x) \<in> set (sc_indexes s)" "ix_table x \<noteq> n" for i x
    using assms(1) that by (fastforce simp: wf_schema_def wf_index_def s')
  ultimately show ?thesis
    using assms(1) by (auto simp: wf_schema_def s' distinct_map_filter)
qed

lemma wf_altered:
  assumes "wf_schema s" and s': "s' = s\<lparr>sc_tables := alter n f (sc_tables s), sc_indexes := xs\<rparr>"
    and "distinct (map fst xs)" and "\<And>i x. (i, x) \<in> set xs \<Longrightarrow> wf_index s' x"
    and t: "\<And>t. (n, t) \<in> set (sc_tables s) \<Longrightarrow> wf_table s' (f t)"
    and keys: "\<And>m t k u. (m, t) \<in> set (sc_tables s) \<Longrightarrow> m \<noteq> n \<Longrightarrow> (n, k) \<in> references t \<Longrightarrow> (n, u) \<in> set (sc_tables s)
      \<Longrightarrow> is_key_of k u \<Longrightarrow> is_key_of k (f u)"
  shows "wf_schema s'"
proof -
  have "wf_table s' t" if m: "(m, t) \<in> set (sc_tables s)" "m \<noteq> n" for m t
  proof (rule wf_tableI [of s])
    show "\<exists>u'. map_of (sc_tables s') r = Some u' \<and> is_key_of k u'"
      if "(r, k) \<in> references t" "map_of (sc_tables s) r = Some u" "is_key_of k u" for r k u
      using that keys [OF m] map_of_SomeD [OF that(2)] by (auto simp: s')
  qed (use assms(1) m in \<open>auto simp: wf_schema_def s'\<close>)
  with t assms(1,3,4) show ?thesis
    by (auto simp: wf_schema_def s' set_alter)
qed

lemma wf_create_index:
  assumes "wf_schema s" and "apply_ddl (Create_Index i n cols u w) s = Inr s'"
  shows "wf_schema s'"
proof -
  let ?x = "\<lparr>ix_table = n, ix_columns = cols, ix_unique = u, ix_where = w\<rparr>"
  have s': "s' = s\<lparr>sc_indexes := sc_indexes s @ [(i, ?x)]\<rparr>" and i: "i \<notin> fst ` set (sc_indexes s)" and "wf_index s ?x"
    using assms(2) by (auto simp: Let_def wf_index_def split: if_splits option.splits)
  with assms(1) show ?thesis by (auto simp: wf_schema_def)
qed

lemma wf_drop_index: "wf_schema s \<Longrightarrow> apply_ddl (Drop_Index i) s = Inr s' \<Longrightarrow> wf_schema s'"
  by (auto simp: wf_schema_def split: if_splits)


lemma wf_index_altered:
  assumes "wf_index s x" and "s' = s\<lparr>sc_tables := alter n f (sc_tables s), sc_indexes := xs\<rparr>"
    and "\<And>t. ix_table x = n \<Longrightarrow> (n, t) \<in> set (sc_tables s) \<Longrightarrow> set (index_mentions x) \<subseteq> set (column_names t)
      \<Longrightarrow> set (index_mentions x) \<subseteq> set (column_names (f t))"
  shows "wf_index s' x"
  using assms by (auto simp: wf_index_def dest: map_of_SomeD)

lemma wf_add_column:
  assumes "wf_schema s" and "apply_ddl (Add_Column n c) s = Inr s'"
  shows "wf_schema s'"
proof -
  let ?f = "\<lambda>t. t\<lparr>tb_columns := tb_columns t @ [c]\<rparr>"
  obtain t where n: "map_of (sc_tables s) n = Some t" and fresh: "cl_name c \<notin> set (column_names t)"
    and c: "type_known s (cl_type c)" and s': "s' = s\<lparr>sc_tables := alter n ?f (sc_tables s)\<rparr>"
    using assms(2) by (auto split: option.splits if_splits)
  have one: "(n, u) \<in> set (sc_tables s) \<Longrightarrow> u = t" for u
    using assms(1) n by (auto simp: wf_schema_def)
  have keys: "is_key_of k (?f u) = is_key_of k u" for k u
    by (simp add: is_key_of_def)
  have s'': "s' = s\<lparr>sc_tables := alter n ?f (sc_tables s), sc_indexes := sc_indexes s\<rparr>"
    by (simp add: s')
  show ?thesis
  proof (rule wf_altered [OF assms(1) s''])
    show "wf_table s' (?f u)" if "(n, u) \<in> set (sc_tables s)" for u
    proof -
      have "wf_table s u" using assms(1) that by (auto simp: wf_schema_def)
      then have "wf_table s (?f u)"
        using one [OF that] fresh c by (auto simp: wf_table_def column_names_def)
      then show ?thesis
        by (rule wf_tableI) (auto simp: s' keys)
    qed
    show "wf_index s' x" if "(i, x) \<in> set (sc_indexes s)" for i x
      by (rule wf_index_altered [OF _ s'']) (use assms(1) that in \<open>auto simp: wf_schema_def column_names_def\<close>)
  qed (use assms(1) in \<open>auto simp: wf_schema_def keys\<close>)
qed

lemma wf_constraints_changed:
  assumes "wf_schema s" and s': "s' = s\<lparr>sc_tables := alter n (\<lambda>t. t\<lparr>tb_constraints := g (tb_constraints t)\<rparr>) (sc_tables s)\<rparr>"
    and g: "\<And>t k. (n, t) \<in> set (sc_tables s) \<Longrightarrow> k \<in> set (g (tb_constraints t))
      \<Longrightarrow> k \<in> set (tb_constraints t) \<or> (\<exists>i w. k = Check i w \<and> condition_column w \<in> set (column_names t))"
    and kept: "\<And>ks k. (\<forall>i w. k \<noteq> Check i w) \<Longrightarrow> k \<in> set ks \<Longrightarrow> k \<in> set (g ks)"
  shows "wf_schema s'"
proof -
  let ?f = "\<lambda>t. t\<lparr>tb_constraints := g (tb_constraints t)\<rparr>"
  have keys: "is_key_of k u \<Longrightarrow> is_key_of k (?f u)" for k u
    by (auto simp: is_key_of_def intro: kept)
  have s'': "s' = s\<lparr>sc_tables := alter n ?f (sc_tables s), sc_indexes := sc_indexes s\<rparr>"
    by (simp add: s')
  show ?thesis
  proof (rule wf_altered [OF assms(1) s''])
    show "wf_table s' (?f u)" if u: "(n, u) \<in> set (sc_tables s)" for u
    proof -
      have "wf_table s u" using assms(1) u by (auto simp: wf_schema_def)
      then have "wf_table s (?f u)"
        using g [OF u] by (fastforce simp: wf_table_def column_names_def reference_known_def)
      then show ?thesis
        by (rule wf_tableI) (use keys in \<open>auto simp: s'\<close>)
    qed
    show "wf_index s' x" if "(i, x) \<in> set (sc_indexes s)" for i x
      by (rule wf_index_altered [OF _ s'']) (use assms(1) that in \<open>auto simp: wf_schema_def column_names_def\<close>)
  qed (use assms(1) keys in \<open>auto simp: wf_schema_def\<close>)
qed

lemma wf_create_check:
  assumes "wf_schema s" and "apply_ddl (Create_Check i n k) s = Inr s'"
  shows "wf_schema s'"
proof -
  obtain t where n: "map_of (sc_tables s) n = Some t" and k: "condition_column k \<in> set (column_names t)"
    and s': "s' = s\<lparr>sc_tables := alter n (\<lambda>t. t\<lparr>tb_constraints := tb_constraints t @ [Check i k]\<rparr>) (sc_tables s)\<rparr>"
    using assms(2) by (auto split: option.splits if_splits)
  show ?thesis
    by (rule wf_constraints_changed [OF assms(1) s']) (use assms(1) n k in \<open>auto simp: wf_schema_def\<close>)
qed

lemma wf_drop_constraint:
  assumes "wf_schema s" and "apply_ddl (Drop_Constraint i n) s = Inr s'"
  shows "wf_schema s'"
proof -
  have s': "s' = s\<lparr>sc_tables := alter n (\<lambda>t. t\<lparr>tb_constraints :=
      filter (\<lambda>k. constraint_name k \<noteq> Some i) (tb_constraints t)\<rparr>) (sc_tables s)\<rparr>"
    using assms(2) by (auto split: option.splits if_splits)
  show ?thesis
    by (rule wf_constraints_changed [OF assms(1) s']) (auto simp: constraint_name_def split: table_constraint.splits)
qed

lemma wf_drop_column:
  assumes "wf_schema s" and "apply_ddl (Drop_Column n c) s = Inr s'"
  shows "wf_schema s'"
proof -
  let ?f = "\<lambda>t. t\<lparr>tb_columns := filter (\<lambda>d. cl_name d \<noteq> c) (tb_columns t),
    tb_constraints := filter (\<lambda>k. c \<notin> set (constraint_columns k)) (tb_constraints t)\<rparr>"
  let ?xs = "filter (\<lambda>(_, x). \<not> (ix_table x = n \<and> c \<in> set (index_mentions x))) (sc_indexes s)"
  have free: "\<forall>(m, t) \<in> set (sc_tables s). (n, c) \<notin> references t"
    and s': "s' = s\<lparr>sc_tables := alter n ?f (sc_tables s), sc_indexes := ?xs\<rparr>"
    using assms(2) by (auto split: option.splits if_splits)
  have keys: "is_key_of k u \<Longrightarrow> k \<noteq> c \<Longrightarrow> is_key_of k (?f u)" for k u
    by (auto simp: is_key_of_def)
  have names: "set (column_names (?f u)) = set (column_names u) - {c}" for u
    by (auto simp: column_names_def)
  show ?thesis
  proof (rule wf_altered [OF assms(1) s'])
    show "wf_table s' (?f u)" if u: "(n, u) \<in> set (sc_tables s)" for u
    proof -
      have w: "wf_table s u" using assms(1) u by (auto simp: wf_schema_def)
      have "set (constraint_columns k) \<subseteq> set (column_names (?f u))" if "k \<in> set (tb_constraints (?f u))" for k
        using w that by (subst names) (auto simp: wf_table_def)
      then have "wf_table s (?f u)"
        using w by (auto simp: wf_table_def column_names_def distinct_map_filter)
      then show ?thesis
      proof (rule wf_tableI)
        show "\<exists>v'. map_of (sc_tables s') r = Some v' \<and> is_key_of k v'"
          if "(r, k) \<in> references (?f u)" "map_of (sc_tables s) r = Some v" "is_key_of k v" for r k v
        proof (cases "r = n \<and> k = c")
          case True
          with that(1) have "(n, c) \<in> references u" by (auto simp: mem_references)
          with free u show ?thesis by auto
        next
          case False
          with that keys show ?thesis by (auto simp: s')
        qed
      qed (auto simp: s')
    qed
    show "wf_index s' x" if "(i, x) \<in> set ?xs" for i x
      by (rule wf_index_altered [OF _ s']) (use assms(1) that names in \<open>auto simp: wf_schema_def\<close>)
    show "is_key_of k (?f u)"
      if "(m, t) \<in> set (sc_tables s)" "(n, k) \<in> references t" "is_key_of k u" for m t k u
      by (rule keys) (use that free in auto)
  qed (use assms(1) in \<open>auto simp: wf_schema_def distinct_map_filter\<close>)
qed

lemma wf_drop_type:
  assumes "wf_schema s" and "apply_ddl (Drop_Type n) s = Inr s'"
  shows "wf_schema s'"
proof -
  have s': "s' = s \<or> s' = s\<lparr>sc_types := without n (sc_types s)\<rparr>"
    and free: "n \<in> fst ` set (sc_types s) \<Longrightarrow> \<forall>(m, t) \<in> set (sc_tables s). n \<notin> fst ` set (enums_of (tb_columns t))"
    using assms(2) by (auto split: if_splits)
  have "wf_table (s\<lparr>sc_types := without n (sc_types s)\<rparr>) t" if t: "(m, t) \<in> set (sc_tables s)" for m t
  proof -
    have w: "wf_table s t" using assms(1) t by (auto simp: wf_schema_def)
    have "type_known (s\<lparr>sc_types := without n (sc_types s)\<rparr>) (cl_type c)" if c: "c \<in> set (tb_columns t)" for c
    proof (cases "cl_type c")
      case (Enum_Type m' ls)
      then have "(m', ls) \<in> set (sc_types s)" "(m', ls) \<in> set (enums_of (tb_columns t))"
        using w c by (force simp: wf_table_def type_known_def enums_of_def enum_of_def)+
      with free t have "m' \<noteq> n" by force
      with \<open>(m', ls) \<in> set (sc_types s)\<close> Enum_Type show ?thesis by (simp add: type_known_def)
    qed (use w c in \<open>auto simp: wf_table_def type_known_def\<close>)
    then show ?thesis using w by (simp add: wf_table_def)
  qed
  moreover have "wf_index (s\<lparr>sc_types := without n (sc_types s)\<rparr>) x = wf_index s x" for x
    by (simp add: wf_index_def)
  ultimately show ?thesis
    using assms(1) s' by (fastforce simp: wf_schema_def)
qed

lemma wf_extensions:
  assumes "wf_schema s" and "apply_ddl (Create_Extension x) s = Inr s' \<or> apply_ddl (Drop_Extension x) s = Inr s'"
  shows "wf_schema s'"
proof -
  have s': "\<exists>xs. s' = s\<lparr>sc_extensions := xs\<rparr> \<and> (''citext'' \<in> set (sc_extensions s) \<and>
      (\<exists>(n, t) \<in> set (sc_tables s). \<exists>c \<in> set (tb_columns t). cl_type c = Citext_Type) \<longrightarrow> ''citext'' \<in> set xs)"
  proof (cases "apply_ddl (Create_Extension x) s = Inr s'")
    case True
    then show ?thesis
      by (intro exI [of _ "sc_extensions s'"]) (auto split: if_splits)
  next
    case False
    with assms(2) show ?thesis
      by (intro exI [of _ "sc_extensions s'"]) (auto split: if_splits)
  qed
  then obtain xs where s': "s' = s\<lparr>sc_extensions := xs\<rparr>"
    and xs: "''citext'' \<in> set (sc_extensions s) \<Longrightarrow> \<exists>(n, t) \<in> set (sc_tables s). \<exists>c \<in> set (tb_columns t). cl_type c = Citext_Type
      \<Longrightarrow> ''citext'' \<in> set xs" by blast
  have "wf_table s' t" if t: "(m, t) \<in> set (sc_tables s)" for m t
  proof -
    have w: "wf_table s t" using assms(1) t by (auto simp: wf_schema_def)
    have "type_known s' (cl_type c)" if c: "c \<in> set (tb_columns t)" for c
      using w c xs t by (cases "cl_type c") (fastforce simp: wf_table_def type_known_def s')+
    then show ?thesis using w by (simp add: wf_table_def s')
  qed
  moreover have "wf_index s' x = wf_index s x" for x
    by (simp add: wf_index_def s')
  ultimately show ?thesis
    using assms(1) by (fastforce simp: wf_schema_def s')
qed

lemma apply_ddl_wf: "wf_schema s \<Longrightarrow> apply_ddl d s = Inr s' \<Longrightarrow> wf_schema s'"
  by (cases d) (blast intro: wf_extensions wf_create_table wf_drop_table wf_create_index wf_drop_index wf_add_column
      wf_drop_column wf_create_check wf_drop_constraint wf_drop_type)+

lemma run_ddl_wf: "wf_schema s \<Longrightarrow> run_ddl ds s = Inr s' \<Longrightarrow> wf_schema s'"
  by (induction ds arbitrary: s) (auto split: sum.splits intro: apply_ddl_wf simp del: apply_ddl.simps)

lemma run_ddl_append: "run_ddl (ds @ es) s = (case run_ddl ds s of Inl e \<Rightarrow> Inl e | Inr s' \<Rightarrow> run_ddl es s')"
  by (induction ds arbitrary: s) (auto split: sum.splits)

end
