(* ===== verification/Schema_Migrations.thy ===== *)
theory Schema_Migrations
  imports Schema_Ddl
begin

text \<open>
  src/migrations/versions: the nine revisions as the lists of statements their \<open>upgrade\<close> and
  \<open>downgrade\<close> functions emit, and Alembic's walk along \<open>down_revision\<close>.  The data statements of two
  revisions are modelled elsewhere: the seed in \<open>Settings_Store\<close>, the redaction of old payloads in
  \<open>Schema_Backfill\<close>.
\<close>

section \<open>The statements\<close>

definition sa_column :: "string \<Rightarrow> sql_type \<Rightarrow> server_default \<Rightarrow> bool \<Rightarrow> column" where
  "sa_column name type default_value nullable =
     \<lparr>cl_name = name, cl_type = type, cl_default = default_value, cl_nullable = nullable\<rparr>"

definition id_column :: column where
  "id_column = sa_column ''id'' Uuid_Type (Sql ''gen_random_uuid()'') False"

definition stamp_column :: "string \<Rightarrow> column" where
  "stamp_column name = sa_column name Timestamptz_Type (Sql ''now()'') False"

definition time_column :: "string \<Rightarrow> column" where
  "time_column name = sa_column name Timestamptz_Type No_Default True"

definition text_column :: "string \<Rightarrow> bool \<Rightarrow> column" where
  "text_column name nullable = sa_column name Text_Type No_Default nullable"

definition uuid_column :: "string \<Rightarrow> bool \<Rightarrow> column" where
  "uuid_column name nullable = sa_column name Uuid_Type No_Default nullable"

lemmas column_defs = sa_column_def id_column_def stamp_column_def time_column_def text_column_def uuid_column_def

record migration =
  mg_revision :: string
  mg_down_revision :: "string option"
  mg_upgrade :: "ddl list"
  mg_downgrade :: "ddl list"

definition EXTENSIONS :: "string list" where
  "EXTENSIONS = [''pgcrypto'', ''citext'', ''pg_trgm'', ''unaccent'', ''btree_gin'']"

definition baseline :: migration where
  "baseline = \<lparr>mg_revision = ''24d82aa2fbee'', mg_down_revision = None,
     mg_upgrade = map Create_Extension EXTENSIONS,
     mg_downgrade = map Drop_Extension (rev EXTENSIONS)\<rparr>"

definition users_table :: ddl where
  "users_table = Create_Table ''users''
     [id_column,
      sa_column ''email'' Citext_Type No_Default False,
      text_column ''password_hash'' False,
      sa_column ''role'' (Enum_Type ''user_role'' [''customer'', ''admin'']) (Literal ''customer'') False,
      time_column ''email_verified_at'',
      sa_column ''is_active'' Boolean_Type (Sql ''true'') False,
      time_column ''anonymized_at'',
      time_column ''deleted_at'',
      stamp_column ''created_at'',
      stamp_column ''updated_at'']
     [Primary_Key [''id'']]"

definition audit_logs_table :: ddl where
  "audit_logs_table = Create_Table ''audit_logs''
     [id_column,
      uuid_column ''actor_user_id'' True,
      text_column ''action'' False,
      text_column ''entity_type'' False,
      uuid_column ''entity_id'' True,
      sa_column ''before_data'' Jsonb_Type No_Default True,
      sa_column ''after_data'' Jsonb_Type No_Default True,
      text_column ''request_id'' True,
      text_column ''ip_hash'' True,
      stamp_column ''created_at'']
     [Foreign_Key ''actor_user_id'' ''users'' ''id'' Set_Null, Primary_Key [''id'']]"

definition email_outbox_table :: ddl where
  "email_outbox_table = Create_Table ''email_outbox''
     [id_column,
      uuid_column ''user_id'' True,
      sa_column ''recipient_email'' Citext_Type No_Default False,
      text_column ''template'' False,
      sa_column ''payload'' Jsonb_Type No_Default False,
      sa_column ''status'' (Enum_Type ''outbox_status'' [''pending'', ''sending'', ''sent'', ''failed'']) (Literal ''pending'') False,
      stamp_column ''send_after'',
      sa_column ''attempt_count'' Integer_Type (Sql ''0'') False,
      text_column ''last_error'' True,
      time_column ''sent_at'',
      stamp_column ''created_at'',
      stamp_column ''updated_at'']
     [Foreign_Key ''user_id'' ''users'' ''id'' Set_Null, Primary_Key [''id'']]"

definition verification_tokens_table :: ddl where
  "verification_tokens_table = Create_Table ''verification_tokens''
     [id_column,
      uuid_column ''user_id'' False,
      text_column ''token_hash'' False,
      sa_column ''expires_at'' Timestamptz_Type No_Default False,
      time_column ''used_at'',
      stamp_column ''created_at'']
     [Foreign_Key ''user_id'' ''users'' ''id'' Cascade, Primary_Key [''id''], Unique [''token_hash'']]"

definition identity_and_platform :: migration where
  "identity_and_platform = \<lparr>mg_revision = ''42601a09ada6'', mg_down_revision = Some ''24d82aa2fbee'',
     mg_upgrade =
      [users_table,
       Create_Index ''ix_users_email_live'' ''users'' [(''email'', False)] True (Some (Is_Null ''deleted_at'')),
       audit_logs_table,
       Create_Index ''ix_audit_logs_entity'' ''audit_logs'' [(''entity_type'', False), (''entity_id'', False)] False None,
       email_outbox_table,
       Create_Index ''ix_email_outbox_due'' ''email_outbox'' [(''send_after'', False)] False (Some (Equals ''status'' ''pending'')),
       verification_tokens_table,
       Create_Index ''ix_verification_tokens_user_id'' ''verification_tokens'' [(''user_id'', False)] False None],
     mg_downgrade =
      [Drop_Index ''ix_verification_tokens_user_id'', Drop_Table ''verification_tokens'',
       Drop_Index ''ix_email_outbox_due'', Drop_Table ''email_outbox'',
       Drop_Index ''ix_audit_logs_entity'', Drop_Table ''audit_logs'',
       Drop_Index ''ix_users_email_live'', Drop_Table ''users'',
       Drop_Type ''outbox_status'', Drop_Type ''user_role'']\<rparr>"

definition sessions_table :: ddl where
  "sessions_table = Create_Table ''sessions''
      [id_column,
       uuid_column ''user_id'' False,
       text_column ''refresh_token_hash'' False,
       sa_column ''token_version'' Integer_Type (Sql ''1'') False,
       sa_column ''expires_at'' Timestamptz_Type No_Default False,
       time_column ''last_used_at'',
       time_column ''rotated_at'',
       time_column ''revoked_at'',
       time_column ''reuse_detected_at'',
       text_column ''ip_hash'' True,
       text_column ''user_agent'' True,
       stamp_column ''created_at'']
      [Check ''ck_sessions_token_version_positive'' (Greater ''token_version'' 0),
       Foreign_Key ''user_id'' ''users'' ''id'' Cascade, Primary_Key [''id''], Unique [''refresh_token_hash'']]"

definition sessions_migration :: migration where
  "sessions_migration = \<lparr>mg_revision = ''33a9f7a809ea'', mg_down_revision = Some ''42601a09ada6'',
     mg_upgrade =
      [sessions_table,
       Create_Index ''ix_sessions_expires_at_live'' ''sessions'' [(''expires_at'', False)] False (Some (Is_Null ''revoked_at'')),
       Create_Index ''ix_sessions_user_id'' ''sessions'' [(''user_id'', False)] False None],
     mg_downgrade =
      [Drop_Index ''ix_sessions_user_id'', Drop_Index ''ix_sessions_expires_at_live'', Drop_Table ''sessions'']\<rparr>"

definition mfa_credentials_table :: ddl where
  "mfa_credentials_table = Create_Table ''mfa_credentials''
      [id_column,
       uuid_column ''user_id'' False,
       sa_column ''method'' (Enum_Type ''mfa_method'' [''totp'']) (Literal ''totp'') False,
       sa_column ''secret_ciphertext'' Bytea_Type No_Default False,
       sa_column ''last_totp_step'' Bigint_Type No_Default True,
       time_column ''enabled_at'',
       time_column ''last_used_at'',
       stamp_column ''created_at'',
       stamp_column ''updated_at'']
      [Foreign_Key ''user_id'' ''users'' ''id'' Cascade, Primary_Key [''id''], Unique [''user_id'']]"

definition mfa_recovery_codes_table :: ddl where
  "mfa_recovery_codes_table = Create_Table ''mfa_recovery_codes''
      [id_column,
       uuid_column ''mfa_credential_id'' False,
       text_column ''code_hash'' False,
       time_column ''used_at'',
       stamp_column ''created_at'']
      [Foreign_Key ''mfa_credential_id'' ''mfa_credentials'' ''id'' Cascade, Primary_Key [''id''], Unique [''code_hash'']]"

definition mfa_migration :: migration where
  "mfa_migration = \<lparr>mg_revision = ''c42f47ccac47'', mg_down_revision = Some ''33a9f7a809ea'',
     mg_upgrade =
      [mfa_credentials_table,
       mfa_recovery_codes_table,
       Create_Index ''ix_mfa_recovery_codes_unused'' ''mfa_recovery_codes'' [(''mfa_credential_id'', False)] False
         (Some (Is_Null ''used_at''))],
     mg_downgrade =
      [Drop_Index ''ix_mfa_recovery_codes_unused'', Drop_Table ''mfa_recovery_codes'', Drop_Table ''mfa_credentials'',
       Drop_Type ''mfa_method'']\<rparr>"

definition outbox_check_migration :: migration where
  "outbox_check_migration = \<lparr>mg_revision = ''8bd689bf2024'', mg_down_revision = Some ''c42f47ccac47'',
     mg_upgrade =
      [Create_Check ''ck_email_outbox_attempt_count_non_negative'' ''email_outbox'' (At_Least ''attempt_count'' 0),
       Create_Index ''ix_verification_tokens_expires_at_live'' ''verification_tokens'' [(''expires_at'', False)] False
         (Some (Is_Null ''used_at''))],
     mg_downgrade =
      [Drop_Index ''ix_verification_tokens_expires_at_live'',
       Drop_Constraint ''ck_email_outbox_attempt_count_non_negative'' ''email_outbox'']\<rparr>"

definition password_reset_tokens_table :: ddl where
  "password_reset_tokens_table = Create_Table ''password_reset_tokens''
      [id_column,
       uuid_column ''user_id'' False,
       text_column ''token_hash'' False,
       sa_column ''expires_at'' Timestamptz_Type No_Default False,
       time_column ''used_at'',
       stamp_column ''created_at'']
      [Foreign_Key ''user_id'' ''users'' ''id'' Cascade, Primary_Key [''id''], Unique [''token_hash'']]"

definition password_reset_migration :: migration where
  "password_reset_migration = \<lparr>mg_revision = ''6bb89f11d84b'', mg_down_revision = Some ''8bd689bf2024'',
     mg_upgrade =
      [password_reset_tokens_table,
       Create_Index ''ix_password_reset_tokens_expires_at_live'' ''password_reset_tokens'' [(''expires_at'', False)] False
         (Some (Is_Null ''used_at'')),
       Create_Index ''ix_password_reset_tokens_user_id'' ''password_reset_tokens'' [(''user_id'', False)] False None,
       Add_Column ''users'' (sa_column ''auth_epoch'' Bigint_Type (Sql ''0'') False)],
     mg_downgrade =
      [Drop_Column ''users'' ''auth_epoch'', Drop_Index ''ix_password_reset_tokens_user_id'',
       Drop_Index ''ix_password_reset_tokens_expires_at_live'', Drop_Table ''password_reset_tokens'']\<rparr>"

definition settings_table :: ddl where
  "settings_table = Create_Table ''settings''
      [id_column,
       text_column ''key'' False,
       sa_column ''type'' (Enum_Type ''setting_type''
         [''boolean'', ''integer'', ''string'', ''money'', ''duration'', ''json'']) No_Default False,
       sa_column ''value'' Jsonb_Type No_Default False,
       text_column ''description'' True,
       uuid_column ''updated_by'' True,
       stamp_column ''created_at'',
       stamp_column ''updated_at'']
      [Foreign_Key ''updated_by'' ''users'' ''id'' Set_Null, Primary_Key [''id''], Unique [''key'']]"

definition settings_migration :: migration where
  "settings_migration = \<lparr>mg_revision = ''de1d8a23512f'', mg_down_revision = Some ''6bb89f11d84b'',
     mg_upgrade =
      [settings_table],
     mg_downgrade = [Drop_Table ''settings'', Drop_Type ''setting_type'']\<rparr>"

definition notifications_table :: ddl where
  "notifications_table = Create_Table ''notifications''
      [id_column,
       uuid_column ''user_id'' False,
       sa_column ''type'' (Enum_Type ''notification_type''
         [''account'', ''order'', ''payment'', ''refund'', ''offer'', ''download'']) No_Default False,
       sa_column ''payload'' Jsonb_Type No_Default False,
       time_column ''read_at'',
       stamp_column ''created_at'']
      [Foreign_Key ''user_id'' ''users'' ''id'' Cascade, Primary_Key [''id'']]"

definition notifications_migration :: migration where
  "notifications_migration = \<lparr>mg_revision = ''ac29d4c2170c'', mg_down_revision = Some ''de1d8a23512f'',
     mg_upgrade =
      [notifications_table,
       Create_Index ''ix_notifications_user_recent'' ''notifications'' [(''user_id'', False), (''created_at'', True)] False None,
       Create_Index ''ix_notifications_user_unread'' ''notifications'' [(''user_id'', False), (''created_at'', True)] False
         (Some (Is_Null ''read_at''))],
     mg_downgrade =
      [Drop_Index ''ix_notifications_user_unread'', Drop_Index ''ix_notifications_user_recent'',
       Drop_Table ''notifications'', Drop_Type ''notification_type'']\<rparr>"

definition value_table :: "string \<Rightarrow> ddl" where
  "value_table name = Create_Table name
     [id_column,
      text_column ''name'' False,
      sa_column ''is_active'' Boolean_Type (Sql ''true'') False,
      time_column ''deleted_at'',
      stamp_column ''created_at'',
      stamp_column ''updated_at'']
     [Primary_Key [''id'']]"

definition categories_table :: ddl where
  "categories_table = Create_Table ''categories''
      [id_column,
       text_column ''name'' False,
       text_column ''slug'' False,
       sa_column ''is_active'' Boolean_Type (Sql ''true'') False,
       time_column ''deleted_at'',
       stamp_column ''created_at'',
       stamp_column ''updated_at'']
      [Primary_Key [''id'']]"

definition catalogue_migration :: migration where
  "catalogue_migration = \<lparr>mg_revision = ''a9c0aec909a9'', mg_down_revision = Some ''ac29d4c2170c'',
     mg_upgrade =
      [categories_table,
       Create_Index ''ix_categories_live_slug'' ''categories'' [(''slug'', False)] True (Some (Is_Null ''deleted_at'')),
       value_table ''colours'',
       value_table ''materials''],
     mg_downgrade =
      [Drop_Table ''materials'', Drop_Table ''colours'', Drop_Index ''ix_categories_live_slug'', Drop_Table ''categories'']\<rparr>"

text \<open>The directory as Alembic reads it: by file name, not by history.\<close>

definition VERSIONS :: "migration list" where
  "VERSIONS = [baseline, sessions_migration, identity_and_platform, password_reset_migration, outbox_check_migration,
     catalogue_migration, notifications_migration, mfa_migration, settings_migration]"

section \<open>Alembic\<close>

text \<open>The revisions from the one after \<open>at\<close> to the head, following \<open>down_revision\<close>; \<open>None\<close> when
  the history branches or runs in a circle.\<close>

fun revisions_after :: "nat \<Rightarrow> migration list \<Rightarrow> string option \<Rightarrow> migration list option" where
  "revisions_after 0 ms at = (if filter (\<lambda>m. mg_down_revision m = at) ms = [] then Some [] else None)"
| "revisions_after (Suc n) ms at = (case filter (\<lambda>m. mg_down_revision m = at) ms of
       [] \<Rightarrow> Some []
     | [m] \<Rightarrow> map_option (Cons m) (revisions_after n ms (Some (mg_revision m)))
     | _ \<Rightarrow> None)"

definition HISTORY :: "migration list" where
  "HISTORY = [baseline, identity_and_platform, sessions_migration, mfa_migration, outbox_check_migration,
     password_reset_migration, settings_migration, notifications_migration, catalogue_migration]"

lemmas table_statement_defs = users_table_def audit_logs_table_def email_outbox_table_def verification_tokens_table_def
  sessions_table_def mfa_credentials_table_def mfa_recovery_codes_table_def password_reset_tokens_table_def
  settings_table_def notifications_table_def categories_table_def value_table_def

lemmas migration_defs = baseline_def identity_and_platform_def sessions_migration_def mfa_migration_def
  outbox_check_migration_def password_reset_migration_def settings_migration_def notifications_migration_def
  catalogue_migration_def

definition upgrade :: "migration list \<Rightarrow> schema \<Rightarrow> ddl_error + schema" where
  "upgrade ms s = run_ddl (concat (map mg_upgrade ms)) s"

definition downgrade :: "migration list \<Rightarrow> schema \<Rightarrow> ddl_error + schema" where
  "downgrade ms s = run_ddl (concat (map mg_downgrade (rev ms))) s"

end
