(* ===== verification/Schema_Metadata.thy ===== *)
theory Schema_Metadata
  imports Schema_Migrations Database
begin

text \<open>
  The ORM models (infrastructure/models.py of the four contexts) as SQLAlchemy reads them: mapped
  columns with their keys, references and defaults, the checks and indexes of \<open>__table_args__\<close>, and
  the table each of them declares.  \<open>onupdate\<close> is a client-side default that no DDL carries.
\<close>

section \<open>Declarative mapping\<close>

record mapped_column =
  mp_name :: string
  mp_type :: sql_type
  mp_nullable :: bool
  mp_default :: server_default
  mp_primary_key :: bool
  mp_unique :: bool
  mp_references :: "(string \<times> string \<times> on_delete) option"
  mp_onupdate :: server_default

record orm_model =
  om_tablename :: string
  om_columns :: "mapped_column list"
  om_checks :: "(string \<times> condition) list"
  om_indexes :: "(string \<times> (string \<times> bool) list \<times> bool \<times> condition option) list"

definition mapped :: "string \<Rightarrow> sql_type \<Rightarrow> bool \<Rightarrow> mapped_column" where
  "mapped name type nullable = \<lparr>mp_name = name, mp_type = type, mp_nullable = nullable, mp_default = No_Default,
     mp_primary_key = False, mp_unique = False, mp_references = None, mp_onupdate = No_Default\<rparr>"

definition mapped_id :: mapped_column where
  "mapped_id = (mapped ''id'' Uuid_Type False)\<lparr>mp_primary_key := True, mp_default := Sql ''gen_random_uuid()''\<rparr>"

definition mapped_time :: "string \<Rightarrow> mapped_column" where
  "mapped_time name = mapped name Timestamptz_Type True"

definition mapped_stamp :: "string \<Rightarrow> mapped_column" where
  "mapped_stamp name = (mapped name Timestamptz_Type False)\<lparr>mp_default := Sql ''now()''\<rparr>"

definition mapped_user :: "on_delete \<Rightarrow> bool \<Rightarrow> string \<Rightarrow> mapped_column" where
  "mapped_user d nullable name = (mapped name Uuid_Type nullable)\<lparr>mp_references := Some (''users'', ''id'', d)\<rparr>"

definition mapped_hash :: "string \<Rightarrow> mapped_column" where
  "mapped_hash name = (mapped name Text_Type False)\<lparr>mp_unique := True\<rparr>"

lemmas mapped_defs = mapped_def mapped_id_def mapped_time_def mapped_stamp_def mapped_user_def mapped_hash_def

text \<open>The table and the indexes a model declares.\<close>

definition mapped_to_column :: "mapped_column \<Rightarrow> column" where
  "mapped_to_column c = \<lparr>cl_name = mp_name c, cl_type = mp_type c, cl_default = mp_default c, cl_nullable = mp_nullable c\<rparr>"

definition orm_constraints :: "orm_model \<Rightarrow> table_constraint list" where
  "orm_constraints m =
     Primary_Key (map mp_name (filter mp_primary_key (om_columns m)))
     # map (\<lambda>c. Unique [mp_name c]) (filter mp_unique (om_columns m))
     @ concat (map (\<lambda>c. case mp_references c of None \<Rightarrow> [] | Some (t, k, d) \<Rightarrow> [Foreign_Key (mp_name c) t k d]) (om_columns m))
     @ map (\<lambda>(n, k). Check n k) (om_checks m)"

definition orm_table :: "orm_model \<Rightarrow> string \<times> table_def" where
  "orm_table m = (om_tablename m, \<lparr>tb_columns = map mapped_to_column (om_columns m), tb_constraints = orm_constraints m\<rparr>)"

definition orm_indexes :: "orm_model \<Rightarrow> (string \<times> index_def) list" where
  "orm_indexes m = map (\<lambda>(i, cols, u, w). (i, \<lparr>ix_table = om_tablename m, ix_columns = cols, ix_unique = u, ix_where = w\<rparr>))
     (om_indexes m)"

section \<open>The enum types\<close>

definition method_value :: "mfa_method \<Rightarrow> string" where
  "method_value m = (case m of TOTP \<Rightarrow> ''totp'')"

definition status_value :: "outbox_status \<Rightarrow> string" where
  "status_value s = (case s of PENDING \<Rightarrow> ''pending'' | SENDING \<Rightarrow> ''sending'' | SENT \<Rightarrow> ''sent'' | FAILED \<Rightarrow> ''failed'')"

definition setting_type_value :: "setting_type \<Rightarrow> string" where
  "setting_type_value t = (case t of BOOLEAN \<Rightarrow> ''boolean'' | INTEGER \<Rightarrow> ''integer'' | STRING \<Rightarrow> ''string''
     | MONEY \<Rightarrow> ''money'' | DURATION \<Rightarrow> ''duration'' | JSON \<Rightarrow> ''json'')"

definition notification_type_value :: "notification_type \<Rightarrow> string" where
  "notification_type_value t = (case t of ACCOUNT \<Rightarrow> ''account'' | ORDER \<Rightarrow> ''order'' | PAYMENT \<Rightarrow> ''payment''
     | REFUND \<Rightarrow> ''refund'' | OFFER \<Rightarrow> ''offer'' | DOWNLOAD \<Rightarrow> ''download'')"

definition role_enum :: sql_type where
  "role_enum = Enum_Type ''user_role'' (map role_value [CUSTOMER, ADMIN])"
definition method_enum :: sql_type where
  "method_enum = Enum_Type ''mfa_method'' (map method_value [TOTP])"
definition status_enum :: sql_type where
  "status_enum = Enum_Type ''outbox_status'' (map status_value [PENDING, SENDING, SENT, FAILED])"
definition setting_enum :: sql_type where
  "setting_enum = Enum_Type ''setting_type'' (map setting_type_value [BOOLEAN, INTEGER, STRING, MONEY, DURATION, JSON])"
definition notification_enum :: sql_type where
  "notification_enum = Enum_Type ''notification_type''
     (map notification_type_value [ACCOUNT, ORDER, PAYMENT, REFUND, OFFER, DOWNLOAD])"

lemmas enum_defs = role_enum_def method_enum_def status_enum_def setting_enum_def notification_enum_def
  role_value_def method_value_def status_value_def setting_type_value_def notification_type_value_def

section \<open>The models\<close>

definition user_model :: orm_model where
  "user_model = \<lparr>om_tablename = ''users'',
     om_columns =
      [mapped_id,
       mapped ''email'' Citext_Type False,
       mapped ''password_hash'' Text_Type False,
       (mapped ''role'' role_enum False)\<lparr>mp_default := Literal (role_value CUSTOMER)\<rparr>,
       mapped_time ''email_verified_at'',
       (mapped ''is_active'' Boolean_Type False)\<lparr>mp_default := Sql ''true''\<rparr>,
       mapped_time ''anonymized_at'',
       mapped_time ''deleted_at'',
       mapped_stamp ''created_at'',
       (mapped_stamp ''updated_at'')\<lparr>mp_onupdate := Sql ''now()''\<rparr>,
       (mapped ''auth_epoch'' Bigint_Type False)\<lparr>mp_default := Sql ''0''\<rparr>],
     om_checks = [],
     om_indexes = [(''ix_users_email_live'', [(''email'', False)], True, Some (Is_Null ''deleted_at''))]\<rparr>"

definition session_model :: orm_model where
  "session_model = \<lparr>om_tablename = ''sessions'',
     om_columns =
      [mapped_id,
       mapped_user Cascade False ''user_id'',
       mapped_hash ''refresh_token_hash'',
       (mapped ''token_version'' Integer_Type False)\<lparr>mp_default := Sql ''1''\<rparr>,
       mapped ''expires_at'' Timestamptz_Type False,
       mapped_time ''last_used_at'',
       mapped_time ''rotated_at'',
       mapped_time ''revoked_at'',
       mapped_time ''reuse_detected_at'',
       mapped ''ip_hash'' Text_Type True,
       mapped ''user_agent'' Text_Type True,
       mapped_stamp ''created_at''],
     om_checks = [(''ck_sessions_token_version_positive'', Greater ''token_version'' 0)],
     om_indexes =
      [(''ix_sessions_user_id'', [(''user_id'', False)], False, None),
       (''ix_sessions_expires_at_live'', [(''expires_at'', False)], False, Some (Is_Null ''revoked_at''))]\<rparr>"

definition verification_token_model :: orm_model where
  "verification_token_model = \<lparr>om_tablename = ''verification_tokens'',
     om_columns =
      [mapped_id,
       mapped_user Cascade False ''user_id'',
       mapped_hash ''token_hash'',
       mapped ''expires_at'' Timestamptz_Type False,
       mapped_time ''used_at'',
       mapped_stamp ''created_at''],
     om_checks = [],
     om_indexes =
      [(''ix_verification_tokens_user_id'', [(''user_id'', False)], False, None),
       (''ix_verification_tokens_expires_at_live'', [(''expires_at'', False)], False, Some (Is_Null ''used_at''))]\<rparr>"

definition password_reset_token_model :: orm_model where
  "password_reset_token_model = \<lparr>om_tablename = ''password_reset_tokens'',
     om_columns =
      [mapped_id,
       mapped_user Cascade False ''user_id'',
       mapped_hash ''token_hash'',
       mapped ''expires_at'' Timestamptz_Type False,
       mapped_time ''used_at'',
       mapped_stamp ''created_at''],
     om_checks = [],
     om_indexes =
      [(''ix_password_reset_tokens_user_id'', [(''user_id'', False)], False, None),
       (''ix_password_reset_tokens_expires_at_live'', [(''expires_at'', False)], False, Some (Is_Null ''used_at''))]\<rparr>"

definition mfa_credential_model :: orm_model where
  "mfa_credential_model = \<lparr>om_tablename = ''mfa_credentials'',
     om_columns =
      [mapped_id,
       (mapped_user Cascade False ''user_id'')\<lparr>mp_unique := True\<rparr>,
       (mapped ''method'' method_enum False)\<lparr>mp_default := Literal (method_value TOTP)\<rparr>,
       mapped ''secret_ciphertext'' Bytea_Type False,
       mapped ''last_totp_step'' Bigint_Type True,
       mapped_time ''enabled_at'',
       mapped_time ''last_used_at'',
       mapped_stamp ''created_at'',
       (mapped_stamp ''updated_at'')\<lparr>mp_onupdate := Sql ''now()''\<rparr>],
     om_checks = [],
     om_indexes = []\<rparr>"

definition mfa_recovery_code_model :: orm_model where
  "mfa_recovery_code_model = \<lparr>om_tablename = ''mfa_recovery_codes'',
     om_columns =
      [mapped_id,
       (mapped ''mfa_credential_id'' Uuid_Type False)\<lparr>mp_references := Some (''mfa_credentials'', ''id'', Cascade)\<rparr>,
       mapped_hash ''code_hash'',
       mapped_time ''used_at'',
       mapped_stamp ''created_at''],
     om_checks = [],
     om_indexes = [(''ix_mfa_recovery_codes_unused'', [(''mfa_credential_id'', False)], False, Some (Is_Null ''used_at''))]\<rparr>"

definition email_outbox_model :: orm_model where
  "email_outbox_model = \<lparr>om_tablename = ''email_outbox'',
     om_columns =
      [mapped_id,
       mapped_user Set_Null True ''user_id'',
       mapped ''recipient_email'' Citext_Type False,
       mapped ''template'' Text_Type False,
       mapped ''payload'' Jsonb_Type False,
       (mapped ''status'' status_enum False)\<lparr>mp_default := Literal (status_value PENDING)\<rparr>,
       mapped_stamp ''send_after'',
       (mapped ''attempt_count'' Integer_Type False)\<lparr>mp_default := Sql ''0''\<rparr>,
       mapped ''last_error'' Text_Type True,
       mapped_time ''sent_at'',
       mapped_stamp ''created_at'',
       (mapped_stamp ''updated_at'')\<lparr>mp_onupdate := Sql ''now()''\<rparr>],
     om_checks = [(''ck_email_outbox_attempt_count_non_negative'', At_Least ''attempt_count'' 0)],
     om_indexes = [(''ix_email_outbox_due'', [(''send_after'', False)], False, Some (Equals ''status'' ''pending''))]\<rparr>"

definition audit_log_model :: orm_model where
  "audit_log_model = \<lparr>om_tablename = ''audit_logs'',
     om_columns =
      [mapped_id,
       mapped_user Set_Null True ''actor_user_id'',
       mapped ''action'' Text_Type False,
       mapped ''entity_type'' Text_Type False,
       mapped ''entity_id'' Uuid_Type True,
       mapped ''before_data'' Jsonb_Type True,
       mapped ''after_data'' Jsonb_Type True,
       mapped ''request_id'' Text_Type True,
       mapped ''ip_hash'' Text_Type True,
       mapped_stamp ''created_at''],
     om_checks = [],
     om_indexes = [(''ix_audit_logs_entity'', [(''entity_type'', False), (''entity_id'', False)], False, None)]\<rparr>"

definition setting_model :: orm_model where
  "setting_model = \<lparr>om_tablename = ''settings'',
     om_columns =
      [mapped_id,
       mapped_hash ''key'',
       mapped ''type'' setting_enum False,
       mapped ''value'' Jsonb_Type False,
       mapped ''description'' Text_Type True,
       mapped_user Set_Null True ''updated_by'',
       mapped_stamp ''created_at'',
       mapped_stamp ''updated_at''],
     om_checks = [],
     om_indexes = []\<rparr>"

definition notification_model :: orm_model where
  "notification_model = \<lparr>om_tablename = ''notifications'',
     om_columns =
      [mapped_id,
       mapped_user Cascade False ''user_id'',
       mapped ''type'' notification_enum False,
       mapped ''payload'' Jsonb_Type False,
       mapped_time ''read_at'',
       mapped_stamp ''created_at''],
     om_checks = [],
     om_indexes =
      [(''ix_notifications_user_recent'', [(''user_id'', False), (''created_at'', True)], False, None),
       (''ix_notifications_user_unread'', [(''user_id'', False), (''created_at'', True)], False, Some (Is_Null ''read_at''))]\<rparr>"

definition category_model :: orm_model where
  "category_model = \<lparr>om_tablename = ''categories'',
     om_columns =
      [mapped_id,
       mapped ''name'' Text_Type False,
       mapped ''slug'' Text_Type False,
       (mapped ''is_active'' Boolean_Type False)\<lparr>mp_default := Sql ''true''\<rparr>,
       mapped_time ''deleted_at'',
       mapped_stamp ''created_at'',
       mapped_stamp ''updated_at''],
     om_checks = [],
     om_indexes = [(''ix_categories_live_slug'', [(''slug'', False)], True, Some (Is_Null ''deleted_at''))]\<rparr>"

definition value_model :: "string \<Rightarrow> orm_model" where
  "value_model name = \<lparr>om_tablename = name,
     om_columns =
      [mapped_id,
       mapped ''name'' Text_Type False,
       (mapped ''is_active'' Boolean_Type False)\<lparr>mp_default := Sql ''true''\<rparr>,
       mapped_time ''deleted_at'',
       mapped_stamp ''created_at'',
       mapped_stamp ''updated_at''],
     om_checks = [],
     om_indexes = []\<rparr>"

definition material_model :: orm_model where "material_model = value_model ''materials''"
definition colour_model :: orm_model where "colour_model = value_model ''colours''"

lemmas model_defs = user_model_def session_model_def verification_token_model_def password_reset_token_model_def
  mfa_credential_model_def mfa_recovery_code_model_def email_outbox_model_def audit_log_model_def setting_model_def
  notification_model_def category_model_def value_model_def material_model_def colour_model_def

text \<open>\<open>Base.metadata\<close> after the import of core/models.py.\<close>

definition METADATA :: "orm_model list" where
  "METADATA = [user_model, session_model, verification_token_model, password_reset_token_model, mfa_credential_model,
     mfa_recovery_code_model, email_outbox_model, audit_log_model, setting_model, notification_model, category_model,
     material_model, colour_model]"

text \<open>A catalogue that declares what the models declare: the same tables with the same columns in the
  same order and the same constraints, the same indexes, and the enum types of the columns.\<close>

definition table_signature :: "string \<times> table_def \<Rightarrow> string \<times> column list \<times> table_constraint set" where
  "table_signature p = (fst p, tb_columns (snd p), set (tb_constraints (snd p)))"

definition agrees_with :: "schema \<Rightarrow> orm_model list \<Rightarrow> bool" where
  "agrees_with s ms \<longleftrightarrow> table_signature ` set (sc_tables s) = table_signature ` set (map orm_table ms)
     \<and> set (sc_indexes s) = set (concat (map orm_indexes ms))
     \<and> set (sc_types s) = set (concat (map (\<lambda>m. enums_of (tb_columns (snd (orm_table m)))) ms))"

end
