(* ===== verification/Schema_Rows.thy ===== *)
theory Schema_Rows
  imports Schema_Metadata Unit_Of_Work
begin

text \<open>
  What it means for rows to satisfy the tables and indexes that the ORM models declare: every cell
  has the type of its column, only nullable columns hold \<open>NULL\<close>, keys, references and checks hold.
  The rows of the model's database are read as cells by column name, and a predicate over its
  records, \<open>integrity\<close>, is shown to give all of it.
\<close>

section \<open>Cells and constraints\<close>

datatype cell =
    Null
  | Cell_Uuid uuid
  | Cell_Text string
  | Cell_Int int
  | Cell_Bool bool
  | Cell_Time timestamp
  | Cell_Bytes bytes
  | Cell_Json pyval

type_synonym row = "(string \<times> cell) list"

definition cell :: "string \<Rightarrow> row \<Rightarrow> cell" where
  "cell c r = (case map_of r c of None \<Rightarrow> Null | Some v \<Rightarrow> v)"

fun typed :: "sql_type \<Rightarrow> cell \<Rightarrow> bool" where
  "typed Uuid_Type (Cell_Uuid u) = True"
| "typed Citext_Type (Cell_Text s) = True"
| "typed Text_Type (Cell_Text s) = True"
| "typed Boolean_Type (Cell_Bool b) = True"
| "typed Timestamptz_Type (Cell_Time t) = True"
| "typed Integer_Type (Cell_Int i) = True"
| "typed Bigint_Type (Cell_Int i) = True"
| "typed Bytea_Type (Cell_Bytes b) = True"
| "typed Jsonb_Type (Cell_Json v) = True"
| "typed (Enum_Type n ls) (Cell_Text s) = (s \<in> set ls)"
| "typed _ _ = False"

text \<open>Comparison of one column: \<open>citext\<close> folds case.\<close>

definition compared :: "sql_type \<Rightarrow> cell \<Rightarrow> cell" where
  "compared t v = (case (t, v) of (Citext_Type, Cell_Text s) \<Rightarrow> Cell_Text (py_lower s) | _ \<Rightarrow> v)"

definition type_of :: "table_def \<Rightarrow> string \<Rightarrow> sql_type" where
  "type_of t c = (case find (\<lambda>d. cl_name d = c) (tb_columns t) of None \<Rightarrow> Text_Type | Some d \<Rightarrow> cl_type d)"

text \<open>Conditions are three-valued: \<open>NULL\<close> compares to nothing.\<close>

definition truth :: "condition \<Rightarrow> row \<Rightarrow> bool option" where
  "truth k r = (case k of
       Is_Null c \<Rightarrow> Some (cell c r = Null)
     | Equals c v \<Rightarrow> (case cell c r of Cell_Text s \<Rightarrow> Some (s = v) | _ \<Rightarrow> None)
     | Greater c n \<Rightarrow> (case cell c r of Cell_Int i \<Rightarrow> Some (n < i) | _ \<Rightarrow> None)
     | At_Least c n \<Rightarrow> (case cell c r of Cell_Int i \<Rightarrow> Some (n \<le> i) | _ \<Rightarrow> None))"

text \<open>No two of the rows agree on the columns; a row with \<open>NULL\<close> in one of them agrees with none.\<close>

definition no_duplicates :: "table_def \<Rightarrow> string list \<Rightarrow> row list \<Rightarrow> bool" where
  "no_duplicates t cs rows = distinct (map (\<lambda>r. map (\<lambda>c. compared (type_of t c) (cell c r)) cs)
     (filter (\<lambda>r. \<forall>c \<in> set cs. cell c r \<noteq> Null) rows))"

definition holds_constraint :: "(string \<Rightarrow> row list) \<Rightarrow> string \<Rightarrow> table_def \<Rightarrow> table_constraint \<Rightarrow> bool" where
  "holds_constraint db n t k = (case k of
       Primary_Key cs \<Rightarrow> (\<forall>r \<in> set (db n). \<forall>c \<in> set cs. cell c r \<noteq> Null) \<and> no_duplicates t cs (db n)
     | Unique cs \<Rightarrow> no_duplicates t cs (db n)
     | Foreign_Key c m rk d \<Rightarrow> (\<forall>r \<in> set (db n). cell c r = Null \<or> (\<exists>r' \<in> set (db m). cell rk r' = cell c r))
     | Check i w \<Rightarrow> (\<forall>r \<in> set (db n). truth w r \<noteq> Some False))"

definition holds_column :: "column \<Rightarrow> row \<Rightarrow> bool" where
  "holds_column c r = (if cell (cl_name c) r = Null then cl_nullable c else typed (cl_type c) (cell (cl_name c) r))"

definition holds_table :: "(string \<Rightarrow> row list) \<Rightarrow> string \<Rightarrow> table_def \<Rightarrow> bool" where
  "holds_table db n t \<longleftrightarrow> (\<forall>r \<in> set (db n). map fst r = column_names t \<and> (\<forall>c \<in> set (tb_columns t). holds_column c r))
     \<and> (\<forall>k \<in> set (tb_constraints t). holds_constraint db n t k)"

definition holds_index :: "(string \<Rightarrow> row list) \<Rightarrow> table_def \<Rightarrow> index_def \<Rightarrow> bool" where
  "holds_index db t x \<longleftrightarrow> (ix_unique x \<longrightarrow> no_duplicates t (map fst (ix_columns x))
     (filter (\<lambda>r. case ix_where x of None \<Rightarrow> True | Some w \<Rightarrow> truth w r = Some True) (db (ix_table x))))"

definition holds_model :: "(string \<Rightarrow> row list) \<Rightarrow> orm_model \<Rightarrow> bool" where
  "holds_model db m \<longleftrightarrow> holds_table db (fst (orm_table m)) (snd (orm_table m))
     \<and> (\<forall>(i, x) \<in> set (orm_indexes m). holds_index db (snd (orm_table m)) x)"

section \<open>The rows of the database\<close>

definition or_null :: "('a \<Rightarrow> cell) \<Rightarrow> 'a option \<Rightarrow> cell" where
  "or_null f v = (case v of None \<Rightarrow> Null | Some x \<Rightarrow> f x)"

lemma or_null_simps [simp]: "or_null f None = Null" "or_null f (Some x) = f x"
  by (simp_all add: or_null_def)

text \<open>A \<open>JSONB\<close> column stores a Python \<open>None\<close> it is given as the JSON value \<open>null\<close>, not as \<open>NULL\<close>.\<close>

definition json_or_null :: "(string \<times> pyval) list option \<Rightarrow> cell" where
  "json_or_null d = Cell_Json (case d of None \<Rightarrow> PNone | Some kvs \<Rightarrow> PDict kvs)"

definition user_row :: "user \<Rightarrow> row" where
  "user_row u = [(''id'', Cell_Uuid (u_id u)), (''email'', Cell_Text (u_email u)),
     (''password_hash'', Cell_Text (u_password_hash u)), (''role'', Cell_Text (role_value (u_role u))),
     (''email_verified_at'', or_null Cell_Time (u_email_verified_at u)), (''is_active'', Cell_Bool (u_is_active u)),
     (''anonymized_at'', or_null Cell_Time (u_anonymized_at u)), (''deleted_at'', or_null Cell_Time (u_deleted_at u)),
     (''created_at'', Cell_Time (u_created_at u)), (''updated_at'', Cell_Time (u_updated_at u)),
     (''auth_epoch'', Cell_Int (u_auth_epoch u))]"

definition session_row :: "session \<Rightarrow> row" where
  "session_row s = [(''id'', Cell_Uuid (s_id s)), (''user_id'', Cell_Uuid (s_user_id s)),
     (''refresh_token_hash'', Cell_Text (s_refresh_token_hash s)), (''token_version'', Cell_Int (s_token_version s)),
     (''expires_at'', Cell_Time (s_expires_at s)), (''last_used_at'', or_null Cell_Time (s_last_used_at s)),
     (''rotated_at'', or_null Cell_Time (s_rotated_at s)), (''revoked_at'', or_null Cell_Time (s_revoked_at s)),
     (''reuse_detected_at'', or_null Cell_Time (s_reuse_detected_at s)), (''ip_hash'', or_null Cell_Text (s_ip_hash s)),
     (''user_agent'', or_null Cell_Text (s_user_agent s)), (''created_at'', Cell_Time (s_created_at s))]"

definition verification_token_row :: "verification_token \<Rightarrow> row" where
  "verification_token_row t = [(''id'', Cell_Uuid (vt_id t)), (''user_id'', Cell_Uuid (vt_user_id t)),
     (''token_hash'', Cell_Text (vt_token_hash t)), (''expires_at'', Cell_Time (vt_expires_at t)),
     (''used_at'', or_null Cell_Time (vt_used_at t)), (''created_at'', Cell_Time (vt_created_at t))]"

definition reset_token_row :: "reset_token \<Rightarrow> row" where
  "reset_token_row t = [(''id'', Cell_Uuid (rt_id t)), (''user_id'', Cell_Uuid (rt_user_id t)),
     (''token_hash'', Cell_Text (rt_token_hash t)), (''expires_at'', Cell_Time (rt_expires_at t)),
     (''used_at'', or_null Cell_Time (rt_used_at t)), (''created_at'', Cell_Time (rt_created_at t))]"

definition mfa_credential_row :: "mfa_credential \<Rightarrow> row" where
  "mfa_credential_row c = [(''id'', Cell_Uuid (mc_id c)), (''user_id'', Cell_Uuid (mc_user_id c)),
     (''method'', Cell_Text (method_value (mc_method c))), (''secret_ciphertext'', Cell_Bytes (mc_secret_ciphertext c)),
     (''last_totp_step'', or_null Cell_Int (mc_last_totp_step c)), (''enabled_at'', or_null Cell_Time (mc_enabled_at c)),
     (''last_used_at'', or_null Cell_Time (mc_last_used_at c)), (''created_at'', Cell_Time (mc_created_at c)),
     (''updated_at'', Cell_Time (mc_updated_at c))]"

definition recovery_code_row :: "recovery_code \<Rightarrow> row" where
  "recovery_code_row c = [(''id'', Cell_Uuid (rc_id c)), (''mfa_credential_id'', Cell_Uuid (rc_mfa_credential_id c)),
     (''code_hash'', Cell_Text (rc_code_hash c)), (''used_at'', or_null Cell_Time (rc_used_at c)),
     (''created_at'', Cell_Time (rc_created_at c))]"

definition email_outbox_row :: "outbox_message \<Rightarrow> row" where
  "email_outbox_row m = [(''id'', Cell_Uuid (ob_id m)), (''user_id'', or_null Cell_Uuid (ob_user_id m)),
     (''recipient_email'', Cell_Text (ob_recipient_email m)), (''template'', Cell_Text (ob_template m)),
     (''payload'', Cell_Json (PDict (ob_payload m))), (''status'', Cell_Text (status_value (ob_status m))),
     (''send_after'', Cell_Time (ob_send_after m)), (''attempt_count'', Cell_Int (ob_attempt_count m)),
     (''last_error'', or_null Cell_Text (ob_last_error m)), (''sent_at'', or_null Cell_Time (ob_sent_at m)),
     (''created_at'', Cell_Time (ob_created_at m)), (''updated_at'', Cell_Time (ob_updated_at m))]"

definition audit_log_row :: "audit_entry \<Rightarrow> row" where
  "audit_log_row a = [(''id'', Cell_Uuid (al_id a)), (''actor_user_id'', or_null Cell_Uuid (al_actor_user_id a)),
     (''action'', Cell_Text (al_action a)), (''entity_type'', Cell_Text (al_entity_type a)),
     (''entity_id'', or_null Cell_Uuid (al_entity_id a)),
     (''before_data'', json_or_null (al_before_data a)),
     (''after_data'', json_or_null (al_after_data a)),
     (''request_id'', or_null Cell_Text (al_request_id a)), (''ip_hash'', or_null Cell_Text (al_ip_hash a)),
     (''created_at'', Cell_Time (al_created_at a))]"

definition setting_row :: "setting \<Rightarrow> row" where
  "setting_row s = [(''id'', Cell_Uuid (st_id s)), (''key'', Cell_Text (st_key s)),
     (''type'', Cell_Text (setting_type_value (st_type s))), (''value'', Cell_Json (st_value s)),
     (''description'', or_null Cell_Text (st_description s)), (''updated_by'', or_null Cell_Uuid (st_updated_by s)),
     (''created_at'', Cell_Time (st_created_at s)), (''updated_at'', Cell_Time (st_updated_at s))]"

definition notification_row :: "notification \<Rightarrow> row" where
  "notification_row n = [(''id'', Cell_Uuid (nt_id n)), (''user_id'', Cell_Uuid (nt_user_id n)),
     (''type'', Cell_Text (notification_type_value (nt_type n))), (''payload'', Cell_Json (PDict (nt_payload n))),
     (''read_at'', or_null Cell_Time (nt_read_at n)), (''created_at'', Cell_Time (nt_created_at n))]"

definition category_row :: "category \<Rightarrow> row" where
  "category_row c = [(''id'', Cell_Uuid (rv_id c)), (''name'', Cell_Text (rv_name c)), (''slug'', Cell_Text (cat_slug c)),
     (''is_active'', Cell_Bool (rv_is_active c)), (''deleted_at'', or_null Cell_Time (rv_deleted_at c)),
     (''created_at'', Cell_Time (rv_created_at c)), (''updated_at'', Cell_Time (rv_updated_at c))]"

definition value_row :: "reference_value \<Rightarrow> row" where
  "value_row v = [(''id'', Cell_Uuid (rv_id v)), (''name'', Cell_Text (rv_name v)), (''is_active'', Cell_Bool (rv_is_active v)),
     (''deleted_at'', or_null Cell_Time (rv_deleted_at v)), (''created_at'', Cell_Time (rv_created_at v)),
     (''updated_at'', Cell_Time (rv_updated_at v))]"

lemmas row_defs = json_or_null_def user_row_def session_row_def verification_token_row_def reset_token_row_def mfa_credential_row_def
  recovery_code_row_def email_outbox_row_def audit_log_row_def setting_row_def notification_row_def category_row_def
  value_row_def

definition rows_of :: "database \<Rightarrow> string \<Rightarrow> row list" where
  "rows_of db n =
     (if n = ''users'' then map user_row (users db)
      else if n = ''sessions'' then map session_row (sessions db)
      else if n = ''verification_tokens'' then map verification_token_row (verification_tokens db)
      else if n = ''password_reset_tokens'' then map reset_token_row (reset_tokens db)
      else if n = ''mfa_credentials'' then map mfa_credential_row (mfa_credentials db)
      else if n = ''mfa_recovery_codes'' then map recovery_code_row (recovery_codes db)
      else if n = ''email_outbox'' then map email_outbox_row (email_outbox db)
      else if n = ''audit_logs'' then map audit_log_row (audit_logs db)
      else if n = ''settings'' then map setting_row (setting_rows db)
      else if n = ''notifications'' then map notification_row (notifications db)
      else if n = ''categories'' then map category_row (categories db)
      else if n = ''materials'' then map value_row (materials db)
      else if n = ''colours'' then map value_row (colours db)
      else [])"

definition satisfies_schema :: "database \<Rightarrow> bool" where
  "satisfies_schema db = list_all (holds_model (rows_of db)) METADATA"

end
