(* ===== verification/Schema_Integrity.thy ===== *)
theory Schema_Integrity
  imports Schema_Rows
begin

text \<open>
  \<open>integrity\<close>: the keys, references and checks of the schema, table by table, over the records of the
  model.  It gives \<open>satisfies_schema\<close>, so an invariant proof only has to deal with records.
\<close>

section \<open>Table by table\<close>

definition users_ok :: "user list \<Rightarrow> bool" where
  "users_ok us \<longleftrightarrow> distinct (map u_id us)
     \<and> distinct (map (\<lambda>u. py_lower (u_email u)) (filter (\<lambda>u. u_deleted_at u = None) us))"

definition sessions_ok :: "uuid set \<Rightarrow> session list \<Rightarrow> bool" where
  "sessions_ok U ss \<longleftrightarrow> distinct (map s_id ss) \<and> distinct (map s_refresh_token_hash ss)
     \<and> (\<forall>s \<in> set ss. s_user_id s \<in> U \<and> 0 < s_token_version s)"

definition verification_tokens_ok :: "uuid set \<Rightarrow> verification_token list \<Rightarrow> bool" where
  "verification_tokens_ok U ts \<longleftrightarrow> distinct (map vt_id ts) \<and> distinct (map vt_token_hash ts) \<and> (\<forall>t \<in> set ts. vt_user_id t \<in> U)"

definition reset_tokens_ok :: "uuid set \<Rightarrow> reset_token list \<Rightarrow> bool" where
  "reset_tokens_ok U ts \<longleftrightarrow> distinct (map rt_id ts) \<and> distinct (map rt_token_hash ts) \<and> (\<forall>t \<in> set ts. rt_user_id t \<in> U)"

definition mfa_credentials_ok :: "uuid set \<Rightarrow> mfa_credential list \<Rightarrow> bool" where
  "mfa_credentials_ok U cs \<longleftrightarrow> distinct (map mc_id cs) \<and> distinct (map mc_user_id cs) \<and> (\<forall>c \<in> set cs. mc_user_id c \<in> U)"

definition recovery_codes_ok :: "uuid set \<Rightarrow> recovery_code list \<Rightarrow> bool" where
  "recovery_codes_ok M cs \<longleftrightarrow> distinct (map rc_id cs) \<and> distinct (map rc_code_hash cs)
     \<and> (\<forall>c \<in> set cs. rc_mfa_credential_id c \<in> M)"

definition refers :: "uuid set \<Rightarrow> uuid option \<Rightarrow> bool" where
  "refers U i \<longleftrightarrow> (case i of None \<Rightarrow> True | Some j \<Rightarrow> j \<in> U)"

definition outbox_rows_ok :: "uuid set \<Rightarrow> outbox_message list \<Rightarrow> bool" where
  "outbox_rows_ok U ms \<longleftrightarrow> distinct (map ob_id ms) \<and> (\<forall>m \<in> set ms. refers U (ob_user_id m) \<and> 0 \<le> ob_attempt_count m)"

definition audit_rows_ok :: "uuid set \<Rightarrow> audit_entry list \<Rightarrow> bool" where
  "audit_rows_ok U as \<longleftrightarrow> distinct (map al_id as) \<and> (\<forall>a \<in> set as. refers U (al_actor_user_id a))"

definition setting_rows_ok :: "uuid set \<Rightarrow> setting list \<Rightarrow> bool" where
  "setting_rows_ok U ss \<longleftrightarrow> distinct (map st_id ss) \<and> distinct (map st_key ss) \<and> (\<forall>s \<in> set ss. refers U (st_updated_by s))"

definition notifications_ok :: "uuid set \<Rightarrow> notification list \<Rightarrow> bool" where
  "notifications_ok U ns \<longleftrightarrow> distinct (map nt_id ns) \<and> (\<forall>n \<in> set ns. nt_user_id n \<in> U)"

definition categories_ok :: "category list \<Rightarrow> bool" where
  "categories_ok cs \<longleftrightarrow> distinct (map rv_id cs) \<and> distinct (map cat_slug (live_categories cs))"

abbreviation user_ids :: "database \<Rightarrow> uuid set" where
  "user_ids db \<equiv> u_id ` set (users db)"

definition integrity :: "database \<Rightarrow> bool" where
  "integrity db \<longleftrightarrow> users_ok (users db) \<and> sessions_ok (user_ids db) (sessions db)
     \<and> verification_tokens_ok (user_ids db) (verification_tokens db) \<and> reset_tokens_ok (user_ids db) (reset_tokens db)
     \<and> mfa_credentials_ok (user_ids db) (mfa_credentials db)
     \<and> recovery_codes_ok (mc_id ` set (mfa_credentials db)) (recovery_codes db)
     \<and> outbox_rows_ok (user_ids db) (email_outbox db) \<and> audit_rows_ok (user_ids db) (audit_logs db)
     \<and> setting_rows_ok (user_ids db) (setting_rows db) \<and> notifications_ok (user_ids db) (notifications db)
     \<and> categories_ok (categories db) \<and> distinct (map rv_id (materials db)) \<and> distinct (map rv_id (colours db))"

section \<open>Integrity is what the schema asks for\<close>

lemma enum_labels [simp]:
  "role_value r \<in> set (map role_value [CUSTOMER, ADMIN])" "method_value m \<in> set (map method_value [TOTP])"
  "status_value s \<in> set (map status_value [PENDING, SENDING, SENT, FAILED])"
  "setting_type_value t \<in> set (map setting_type_value [BOOLEAN, INTEGER, STRING, MONEY, DURATION, JSON])"
  "notification_type_value n \<in> set (map notification_type_value [ACCOUNT, ORDER, PAYMENT, REFUND, OFFER, DOWNLOAD])"
  by ((cases r; simp); fail | (cases m; simp); fail | (cases s; simp); fail | (cases t; simp); fail | (cases n; simp); fail)+

lemma no_duplicates_by:
  assumes "\<And>v. compared (type_of t c) (cell c (f v)) = g (key v)" and "inj g" and "\<And>v. cell c (f v) \<noteq> Null"
  shows "no_duplicates t [c] (map f vs) = distinct (map key vs)"
proof -
  have "no_duplicates t [c] (map f vs) = distinct (map (\<lambda>v. [g (key v)]) vs)"
    using assms(1,3) by (simp add: no_duplicates_def comp_def)
  also have "\<dots> = distinct (map key vs)"
    using assms(2) by (auto simp: distinct_map inj_on_def inj_def)
  finally show ?thesis .
qed

lemma inj_cells [simp]: "inj Cell_Uuid" "inj Cell_Text"
  by (auto simp: inj_def)

lemma compared_uuid [simp]: "compared t (Cell_Uuid u) = Cell_Uuid u"
  by (simp add: compared_def split: sql_type.split)

lemma distinct_ids [simp]:
    "no_duplicates t [''id''] (map user_row x0) = distinct (map u_id x0)"
    "no_duplicates t [''id''] (map session_row x1) = distinct (map s_id x1)"
    "no_duplicates t [''id''] (map verification_token_row x2) = distinct (map vt_id x2)"
    "no_duplicates t [''id''] (map reset_token_row x3) = distinct (map rt_id x3)"
    "no_duplicates t [''id''] (map mfa_credential_row x4) = distinct (map mc_id x4)"
    "no_duplicates t [''id''] (map recovery_code_row x5) = distinct (map rc_id x5)"
    "no_duplicates t [''id''] (map email_outbox_row x6) = distinct (map ob_id x6)"
    "no_duplicates t [''id''] (map audit_log_row x7) = distinct (map al_id x7)"
    "no_duplicates t [''id''] (map setting_row x8) = distinct (map st_id x8)"
    "no_duplicates t [''id''] (map notification_row x9) = distinct (map nt_id x9)"
    "no_duplicates t [''id''] (map category_row x10) = distinct (map rv_id x10)"
    "no_duplicates t [''id''] (map value_row x11) = distinct (map rv_id x11)"
  by (rule no_duplicates_by [where g = Cell_Uuid]; simp add: cell_def row_defs)+

lemma distinct_owner [simp]:
  "no_duplicates t [''user_id''] (map mfa_credential_row cs) = distinct (map mc_user_id cs)"
  by (rule no_duplicates_by [where g = Cell_Uuid]; simp add: cell_def row_defs)

lemma compared_text: "t \<noteq> Citext_Type \<Longrightarrow> compared t (Cell_Text s) = Cell_Text s"
  by (simp add: compared_def split: sql_type.split)

lemma distinct_texts:
  "type_of t ''refresh_token_hash'' \<noteq> Citext_Type
    \<Longrightarrow> no_duplicates t [''refresh_token_hash''] (map session_row ss) = distinct (map s_refresh_token_hash ss)"
  "type_of t ''token_hash'' \<noteq> Citext_Type
    \<Longrightarrow> no_duplicates t [''token_hash''] (map verification_token_row vs) = distinct (map vt_token_hash vs)"
  "type_of t ''token_hash'' \<noteq> Citext_Type
    \<Longrightarrow> no_duplicates t [''token_hash''] (map reset_token_row rs) = distinct (map rt_token_hash rs)"
  "type_of t ''code_hash'' \<noteq> Citext_Type
    \<Longrightarrow> no_duplicates t [''code_hash''] (map recovery_code_row cs) = distinct (map rc_code_hash cs)"
  "type_of t ''key'' \<noteq> Citext_Type \<Longrightarrow> no_duplicates t [''key''] (map setting_row ks) = distinct (map st_key ks)"
  "type_of t ''slug'' \<noteq> Citext_Type \<Longrightarrow> no_duplicates t [''slug''] (map category_row gs) = distinct (map cat_slug gs)"
  by (rule no_duplicates_by [where g = Cell_Text]; simp add: cell_def row_defs compared_text)+

lemma distinct_emails:
  "type_of t ''email'' = Citext_Type
    \<Longrightarrow> no_duplicates t [''email''] (map user_row us) = distinct (map (\<lambda>u. py_lower (u_email u)) us)"
  by (rule no_duplicates_by [where g = Cell_Text]; simp add: cell_def row_defs compared_def)

lemma or_null_null [simp]:
  "or_null Cell_Time t = Null \<longleftrightarrow> t = None" "or_null Cell_Text s = Null \<longleftrightarrow> s = None"
  "or_null Cell_Int i = Null \<longleftrightarrow> i = None" "or_null Cell_Uuid u = Null \<longleftrightarrow> u = None"
  "or_null (\<lambda>d. Cell_Json (PDict d)) d = Null \<longleftrightarrow> d = None"
  by (simp_all add: or_null_def split: option.split)

lemma or_null_typed [simp]:
  "t \<noteq> None \<Longrightarrow> typed Timestamptz_Type (or_null Cell_Time t)" "s \<noteq> None \<Longrightarrow> typed Text_Type (or_null Cell_Text s)"
  "i \<noteq> None \<Longrightarrow> typed Bigint_Type (or_null Cell_Int i)" "u \<noteq> None \<Longrightarrow> typed Uuid_Type (or_null Cell_Uuid u)"
  "d \<noteq> None \<Longrightarrow> typed Jsonb_Type (or_null (\<lambda>d. Cell_Json (PDict d)) d)"
  by auto

lemma column_typed [simp]:
  "(if or_null f v = Null then True else typed T (or_null f v)) = (or_null f v \<noteq> Null \<longrightarrow> typed T (or_null f v))"
  by simp

lemma labels_listed [simp]:
  "role_value r = role_value CUSTOMER \<or> role_value r = role_value ADMIN"
  "(method_value m = method_value TOTP) = True"
  "status_value s = status_value PENDING \<or> status_value s = status_value SENDING \<or> status_value s = status_value SENT
    \<or> status_value s = status_value FAILED"
  "setting_type_value t = setting_type_value BOOLEAN \<or> setting_type_value t = setting_type_value INTEGER
    \<or> setting_type_value t = setting_type_value STRING \<or> setting_type_value t = setting_type_value MONEY
    \<or> setting_type_value t = setting_type_value DURATION \<or> setting_type_value t = setting_type_value JSON"
  "notification_type_value n = notification_type_value ACCOUNT \<or> notification_type_value n = notification_type_value ORDER
    \<or> notification_type_value n = notification_type_value PAYMENT \<or> notification_type_value n = notification_type_value REFUND
    \<or> notification_type_value n = notification_type_value OFFER \<or> notification_type_value n = notification_type_value DOWNLOAD"
  by ((cases r; simp); fail | (cases m; simp); fail | (cases s; simp); fail | (cases t; simp); fail | (cases n; simp); fail)+

lemma key_found:
  "(\<exists>u \<in> set us. u_id u = i) \<longleftrightarrow> i \<in> u_id ` set us"
  "(\<exists>c \<in> set cs. mc_id c = i) \<longleftrightarrow> i \<in> mc_id ` set cs"
  "(j = None \<or> (\<exists>u \<in> set us. Cell_Uuid (u_id u) = or_null Cell_Uuid j)) \<longleftrightarrow> refers (u_id ` set us) j"
  by (auto simp: refers_def image_iff split: option.split)

lemmas holds_defs = holds_model_def holds_table_def holds_index_def orm_table_def orm_indexes_def mapped_defs
  orm_constraints_def mapped_to_column_def column_names_def holds_constraint_def holds_column_def cell_def row_defs
  distinct_texts distinct_emails type_of_def truth_def filter_map comp_def key_found

lemma value_model_holds:
  assumes "distinct (map rv_id vs)" and "rows_of db n = map value_row vs"
  shows "holds_model (rows_of db) (value_model n)"
  using assms by (simp add: value_model_def holds_defs)

lemma user_model_holds: "users_ok (users db) \<Longrightarrow> holds_model (rows_of db) user_model"
  by (simp add: users_ok_def user_model_def holds_defs rows_of_def role_enum_def)

lemma session_model_holds: "sessions_ok (user_ids db) (sessions db) \<Longrightarrow> holds_model (rows_of db) session_model"
  by (simp add: sessions_ok_def session_model_def holds_defs rows_of_def )

lemma verification_token_model_holds: "verification_tokens_ok (user_ids db) (verification_tokens db) \<Longrightarrow> holds_model (rows_of db) verification_token_model"
  by (simp add: verification_tokens_ok_def verification_token_model_def holds_defs rows_of_def )

lemma password_reset_token_model_holds: "reset_tokens_ok (user_ids db) (reset_tokens db) \<Longrightarrow> holds_model (rows_of db) password_reset_token_model"
  by (simp add: reset_tokens_ok_def password_reset_token_model_def holds_defs rows_of_def )

lemma mfa_credential_model_holds: "mfa_credentials_ok (user_ids db) (mfa_credentials db) \<Longrightarrow> holds_model (rows_of db) mfa_credential_model"
  by (simp add: mfa_credentials_ok_def mfa_credential_model_def holds_defs rows_of_def method_enum_def)

lemma mfa_recovery_code_model_holds: "recovery_codes_ok (mc_id ` set (mfa_credentials db)) (recovery_codes db) \<Longrightarrow> holds_model (rows_of db) mfa_recovery_code_model"
  by (simp add: recovery_codes_ok_def mfa_recovery_code_model_def holds_defs rows_of_def )

lemma email_outbox_model_holds: "outbox_rows_ok (user_ids db) (email_outbox db) \<Longrightarrow> holds_model (rows_of db) email_outbox_model"
  by (simp add: outbox_rows_ok_def email_outbox_model_def holds_defs rows_of_def status_enum_def)

lemma audit_log_model_holds: "audit_rows_ok (user_ids db) (audit_logs db) \<Longrightarrow> holds_model (rows_of db) audit_log_model"
  by (simp add: audit_rows_ok_def audit_log_model_def holds_defs rows_of_def)

lemma setting_model_holds: "setting_rows_ok (user_ids db) (setting_rows db) \<Longrightarrow> holds_model (rows_of db) setting_model"
  by (simp add: setting_rows_ok_def setting_model_def holds_defs rows_of_def setting_enum_def)

lemma notification_model_holds: "notifications_ok (user_ids db) (notifications db) \<Longrightarrow> holds_model (rows_of db) notification_model"
  by (simp add: notifications_ok_def notification_model_def holds_defs rows_of_def notification_enum_def)

lemma category_model_holds: "categories_ok (categories db) \<Longrightarrow> holds_model (rows_of db) category_model"
  by (simp add: categories_ok_def category_model_def holds_defs rows_of_def live_categories_def)

lemma material_model_holds: "distinct (map rv_id (materials db)) \<Longrightarrow> holds_model (rows_of db) material_model"
  unfolding material_model_def by (rule value_model_holds) (simp_all add: rows_of_def)

lemma colour_model_holds: "distinct (map rv_id (colours db)) \<Longrightarrow> holds_model (rows_of db) colour_model"
  unfolding colour_model_def by (rule value_model_holds) (simp_all add: rows_of_def)

theorem integrity_satisfies: "integrity db \<Longrightarrow> satisfies_schema db"
  by (simp add: integrity_def satisfies_schema_def METADATA_def user_model_holds session_model_holds
    verification_token_model_holds password_reset_token_model_holds mfa_credential_model_holds
    mfa_recovery_code_model_holds email_outbox_model_holds audit_log_model_holds setting_model_holds
    notification_model_holds category_model_holds material_model_holds
    colour_model_holds)

end
