(* ===== verification/Schema_Invariant.thy ===== *)
theory Schema_Invariant
  imports Record_Keeping Schema_Integrity
begin

text \<open>
  Every state the service reaches satisfies the schema its migrations build.  \<open>tables_ok\<close> is the part
  of \<open>integrity\<close> that the invariant \<open>wf_db\<close> of the use cases does not hold already; every statement
  of the repositories is shown to keep it, and with it every use case and every step of the service.
\<close>

section \<open>The invariant\<close>

text \<open>No operation of the service deletes an account softly: \<open>deleted_at\<close> stays \<open>NULL\<close>, so the
  partial unique index on the address is a unique index.\<close>

definition accounts_ok :: "user list \<Rightarrow> bool" where
  "accounts_ok us \<longleftrightarrow> distinct (map u_id us) \<and> distinct (map (\<lambda>u. py_lower (u_email u)) us)
     \<and> (\<forall>u \<in> set us. u_deleted_at u = None)"

definition tables_ok :: "database \<Rightarrow> bool" where
  "tables_ok db \<longleftrightarrow> accounts_ok (users db) \<and> sessions_ok (user_ids db) (sessions db)
     \<and> verification_tokens_ok (user_ids db) (verification_tokens db) \<and> reset_tokens_ok (user_ids db) (reset_tokens db)
     \<and> mfa_credentials_ok (user_ids db) (mfa_credentials db)
     \<and> recovery_codes_ok (mc_id ` set (mfa_credentials db)) (recovery_codes db)
     \<and> outbox_rows_ok (user_ids db) (email_outbox db) \<and> audit_rows_ok (user_ids db) (audit_logs db)
     \<and> setting_rows_ok (user_ids db) (setting_rows db)"

lemma accounts_users: "accounts_ok us \<Longrightarrow> users_ok us"
  by (simp add: accounts_ok_def users_ok_def cong: filter_cong)

lemma tables_integrity: "wf_db db \<Longrightarrow> tables_ok db \<Longrightarrow> integrity db"
  by (simp add: integrity_def tables_ok_def wf_db_def wf_office_def notifications_ok_def categories_ok_def accounts_users)

text \<open>Every table reads its own rows and the identifiers it refers to.\<close>

lemma tables_ok_cong:
  assumes "tables_ok db" and "users db' = users db" and "sessions db' = sessions db"
    and "verification_tokens db' = verification_tokens db" and "reset_tokens db' = reset_tokens db"
    and "mfa_credentials db' = mfa_credentials db" and "recovery_codes db' = recovery_codes db"
    and "email_outbox db' = email_outbox db" and "audit_logs db' = audit_logs db" and "setting_rows db' = setting_rows db"
  shows "tables_ok db'"
  using assms by (simp add: tables_ok_def)

lemmas rows_ok_defs = accounts_ok_def sessions_ok_def verification_tokens_ok_def reset_tokens_ok_def
  mfa_credentials_ok_def recovery_codes_ok_def outbox_rows_ok_def audit_rows_ok_def setting_rows_ok_def

lemma refers_simps [simp]: "refers U None" "refers U (Some i) \<longleftrightarrow> i \<in> U"
  by (simp_all add: refers_def)

lemma refers_mono: "refers U i \<Longrightarrow> U \<subseteq> V \<Longrightarrow> refers V i"
  by (auto simp: refers_def split: option.splits)

lemma refers_known: "\<not> (\<exists>i. r = Some i \<and> user_by_id i db = None) \<Longrightarrow> refers (user_ids db) r"
  by (cases r) (auto simp: user_by_id_def row_by_None_iff)

lemma rows_ok_mono:
  assumes "U \<subseteq> V"
  shows "sessions_ok U a \<Longrightarrow> sessions_ok V a" and "verification_tokens_ok U b \<Longrightarrow> verification_tokens_ok V b"
    and "reset_tokens_ok U c \<Longrightarrow> reset_tokens_ok V c" and "mfa_credentials_ok U d \<Longrightarrow> mfa_credentials_ok V d"
    and "recovery_codes_ok U e \<Longrightarrow> recovery_codes_ok V e" and "outbox_rows_ok U f \<Longrightarrow> outbox_rows_ok V f"
    and "audit_rows_ok U g \<Longrightarrow> audit_rows_ok V g" and "setting_rows_ok U h \<Longrightarrow> setting_rows_ok V h"
  using assms unfolding rows_ok_defs by (blast intro: refers_mono)+

lemma tables_ok_update:
  assumes "tables_ok db"
  shows "sessions_ok (user_ids db) a \<Longrightarrow> tables_ok (db\<lparr>sessions := a\<rparr>)"
    and "verification_tokens_ok (user_ids db) b \<Longrightarrow> tables_ok (db\<lparr>verification_tokens := b\<rparr>)"
    and "reset_tokens_ok (user_ids db) c \<Longrightarrow> tables_ok (db\<lparr>reset_tokens := c\<rparr>)"
    and "recovery_codes_ok (mc_id ` set (mfa_credentials db)) d \<Longrightarrow> tables_ok (db\<lparr>recovery_codes := d\<rparr>)"
    and "outbox_rows_ok (user_ids db) e \<Longrightarrow> tables_ok (db\<lparr>email_outbox := e\<rparr>)"
    and "audit_rows_ok (user_ids db) f \<Longrightarrow> tables_ok (db\<lparr>audit_logs := f\<rparr>)"
    and "setting_rows_ok (user_ids db) g \<Longrightarrow> tables_ok (db\<lparr>setting_rows := g\<rparr>)"
  using assms by (simp_all add: tables_ok_def)

lemma tables_ok_credentials:
  assumes "tables_ok db" and "mfa_credentials_ok (user_ids db) cs" and "mc_id ` set (mfa_credentials db) \<subseteq> mc_id ` set cs"
  shows "tables_ok (db\<lparr>mfa_credentials := cs\<rparr>)"
  using assms by (simp add: tables_ok_def rows_ok_mono(5))

lemma tables_ok_accounts:
  assumes "tables_ok db" and "accounts_ok us" and "user_ids db \<subseteq> u_id ` set us"
  shows "tables_ok (db\<lparr>users := us\<rparr>)"
  using assms rows_ok_mono [OF assms(3)] by (simp add: tables_ok_def)

lemma tables_ok_counter [simp]: "tables_ok (db\<lparr>gen_ctr := n\<rparr>) = tables_ok db" "tables_ok (db\<lparr>tx_now := t\<rparr>) = tables_ok db"
  "tables_ok (db\<lparr>categories := cs\<rparr>) = tables_ok db" "tables_ok (db\<lparr>materials := ms\<rparr>) = tables_ok db"
  "tables_ok (db\<lparr>colours := ls\<rparr>) = tables_ok db" "tables_ok (db\<lparr>notifications := ns\<rparr>) = tables_ok db"
  by (simp_all add: tables_ok_def)

lemma tables_okD:
  assumes "tables_ok db"
  shows "accounts_ok (users db)" and "sessions_ok (user_ids db) (sessions db)"
    and "verification_tokens_ok (user_ids db) (verification_tokens db)" and "reset_tokens_ok (user_ids db) (reset_tokens db)"
    and "mfa_credentials_ok (user_ids db) (mfa_credentials db)"
    and "recovery_codes_ok (mc_id ` set (mfa_credentials db)) (recovery_codes db)"
    and "outbox_rows_ok (user_ids db) (email_outbox db)" and "audit_rows_ok (user_ids db) (audit_logs db)"
    and "setting_rows_ok (user_ids db) (setting_rows db)"
  using assms by (simp_all add: tables_ok_def)

text \<open>A row more.\<close>

lemma rows_ok_snoc:
  "accounts_ok (us @ [u]) \<longleftrightarrow> accounts_ok us \<and> u_id u \<notin> u_id ` set us
     \<and> py_lower (u_email u) \<notin> (\<lambda>u. py_lower (u_email u)) ` set us \<and> u_deleted_at u = None"
  "sessions_ok U (ss @ [s]) \<longleftrightarrow> sessions_ok U ss \<and> s_id s \<notin> s_id ` set ss
     \<and> s_refresh_token_hash s \<notin> s_refresh_token_hash ` set ss \<and> s_user_id s \<in> U \<and> 0 < s_token_version s"
  "verification_tokens_ok U (vs @ [v]) \<longleftrightarrow> verification_tokens_ok U vs \<and> vt_id v \<notin> vt_id ` set vs
     \<and> vt_token_hash v \<notin> vt_token_hash ` set vs \<and> vt_user_id v \<in> U"
  "reset_tokens_ok U (rs @ [r]) \<longleftrightarrow> reset_tokens_ok U rs \<and> rt_id r \<notin> rt_id ` set rs
     \<and> rt_token_hash r \<notin> rt_token_hash ` set rs \<and> rt_user_id r \<in> U"
  "mfa_credentials_ok U (ms @ [m]) \<longleftrightarrow> mfa_credentials_ok U ms \<and> mc_id m \<notin> mc_id ` set ms
     \<and> mc_user_id m \<notin> mc_user_id ` set ms \<and> mc_user_id m \<in> U"
  "recovery_codes_ok M (cs @ [c]) \<longleftrightarrow> recovery_codes_ok M cs \<and> rc_id c \<notin> rc_id ` set cs
     \<and> rc_code_hash c \<notin> rc_code_hash ` set cs \<and> rc_mfa_credential_id c \<in> M"
  "outbox_rows_ok U (os @ [ob]) \<longleftrightarrow> outbox_rows_ok U os \<and> ob_id ob \<notin> ob_id ` set os
     \<and> refers U (ob_user_id ob) \<and> 0 \<le> ob_attempt_count ob"
  "audit_rows_ok U (as @ [a]) \<longleftrightarrow> audit_rows_ok U as \<and> al_id a \<notin> al_id ` set as \<and> refers U (al_actor_user_id a)"
  by (simp_all add: rows_ok_defs; blast)+

section \<open>Every statement keeps it\<close>

lemmas found_defs = user_by_id_def session_by_id_def vt_by_hash_def rt_by_hash_def mc_by_user_id_def mc_by_id_def
  rc_by_id_def ob_by_id_def row_by_None_iff

lemma row_by_key: "row_by key k rows = Some r \<Longrightarrow> k \<in> key ` set rows"
  by (auto dest: row_by_SomeD)

named_theorems safe \<open>commands that keep the tables\<close>

lemmas [safe] = preserves_ret preserves_raise preserves_query preserves_from_entity preserves_andthen
  preserves_if preserves_case_option preserves_case_prod preserves_case_rotation preserves_platform preserves_catalog

lemma user_add_tables:
  assumes "tables_ok db" and "user_add email h db = Inr (u, db')"
  shows "tables_ok db'"
proof -
  from assms(2) have free: "user_by_id (next_uuid db) db = None" "user_by_email email db = None"
    and db': "db' = (drawn db)\<lparr>users := users db @ [u]\<rparr>"
    and u: "u_id u = next_uuid db" "u_email u = email" "u_deleted_at u = None"
    by (auto simp: user_add_def Let_def split: if_splits)
  have "py_lower email \<notin> (\<lambda>u. py_lower (u_email u)) ` set (users db)"
    using free(2) tables_okD(1) [OF assms(1)] by (auto simp: user_by_email_def find_None_iff accounts_ok_def)
  then have "accounts_ok (users db @ [u])"
    using free(1) tables_okD(1) [OF assms(1)] by (auto simp: rows_ok_snoc u found_defs)
  with assms(1) show ?thesis unfolding db' by (intro tables_ok_accounts) auto
qed

lemma safe_adds [safe]:
  "preserves tables_ok (exec (vt_add i h e))" "preserves tables_ok (exec (rt_add i h e))"
  "preserves tables_ok (exec (session_add sid i h e ip ua))"
  "preserves tables_ok (exec (outbox_add oi rcpt tm pl))" "preserves tables_ok (exec (audit_add a))"
  "preserves tables_ok (exec (mc_add i m ct))"
proof -
  show "preserves tables_ok (exec (mc_add i m ct))"
    by (rule preserves_exec)
      (auto simp: mc_add_def found_defs tables_okD(5) rows_ok_snoc split: if_splits intro!: tables_ok_credentials)
qed (rule preserves_exec, auto simp: vt_add_def rt_add_def session_add_def outbox_add_def audit_add_def found_defs
    tables_okD rows_ok_snoc refers_known [unfolded found_defs] split: if_splits intro!: tables_ok_update)+

text \<open>A row written back.  \<open>UPDATE\<close> by key leaves the keys alone.\<close>

lemma user_save_tables:
  assumes "tables_ok db" and "user_save u db = Inr db'" and "u_deleted_at u = None"
  shows "tables_ok db'"
proof -
  from assms(2) have db': "db' = db\<lparr>users := put_row u_id (u_id u) (user_stored db u) (users db)\<rparr>"
    by (auto simp: user_save_def split: option.splits)
  have "accounts_ok (put_row u_id (u_id u) (user_stored db u) (users db))"
    using tables_okD(1) [OF assms(1)] assms(3) by (auto simp: accounts_ok_def elim!: set_put_rowE)
  with assms(1) show ?thesis unfolding db' by (intro tables_ok_accounts) (auto simp: set_map_fst_put)
qed

lemma session_save_tables:
  assumes "tables_ok db" and "session_save s db = Inr db'" and "0 < s_token_version s"
  shows "tables_ok db'"
proof -
  let ?ss = "put_row s_id (s_id s) (session_stored db s) (sessions db)"
  from assms(2) have db': "db' = db\<lparr>sessions := ?ss\<rparr>" and free: "session_hash_free s db"
    by (auto simp: session_save_def split: option.splits if_splits)
  have old: "sessions_ok (user_ids db) (sessions db)" by (rule tables_okD(2) [OF assms(1)])
  have hash: "s_refresh_token_hash (session_stored db s r) = s_refresh_token_hash s"
    "s_user_id (session_stored db s r) = s_user_id r" "s_token_version (session_stored db s r) = s_token_version s" for r
    by (simp_all add: session_stored_def)
  have "distinct (map s_refresh_token_hash ?ss)"
    using old free
    by (auto simp: put_row_def distinct_map inj_on_def hash session_hash_free_def sessions_ok_def split: if_splits; metis)
  then have "sessions_ok (user_ids db) ?ss"
    using old assms(3) by (auto simp: sessions_ok_def hash elim!: set_put_rowE)
  with assms(1) show ?thesis unfolding db' by (rule tables_ok_update(1))
qed

lemma safe_saves [safe]:
  "preserves tables_ok (exec (vt_save v))" "preserves tables_ok (exec (rt_save r))" "preserves tables_ok (exec (rc_save c))"
  "preserves tables_ok (exec (outbox_save m))" "preserves tables_ok (exec (setting_save st))"
  "preserves tables_ok (exec (mc_save mc))"
proof -
  show "preserves tables_ok (exec (vt_save v))"
    by (rule preserves_exec, auto simp: vt_save_def split: option.splits intro!: tables_ok_update)
      (auto simp: verification_tokens_ok_def vt_stored_def elim!: set_put_rowE dest!: tables_okD(3))
  show "preserves tables_ok (exec (rt_save r))"
    by (rule preserves_exec, auto simp: rt_save_def split: option.splits intro!: tables_ok_update)
      (auto simp: reset_tokens_ok_def rt_stored_def elim!: set_put_rowE dest!: tables_okD(4))
  show "preserves tables_ok (exec (rc_save c))"
    by (rule preserves_exec, auto simp: rc_save_def split: option.splits intro!: tables_ok_update)
      (auto simp: recovery_codes_ok_def rc_stored_def elim!: set_put_rowE dest!: tables_okD(6))
  show "preserves tables_ok (exec (mc_save mc))"
    by (rule preserves_exec, auto simp: mc_save_def split: option.splits intro!: tables_ok_credentials)
      (auto simp: mfa_credentials_ok_def set_map_fst_put elim!: set_put_rowE dest!: tables_okD(5))
  show "preserves tables_ok (exec (outbox_save m))"
    by (rule preserves_exec, auto simp: outbox_save_def split: option.splits if_splits intro!: tables_ok_update)
      (auto simp: outbox_rows_ok_def ob_stored_def Let_def elim!: set_put_rowE dest!: tables_okD(7))
  show "preserves tables_ok (exec (setting_save st))"
    by (rule preserves_exec, auto simp: setting_save_def split: option.splits if_splits intro!: tables_ok_update)
      (auto simp: setting_rows_ok_def setting_stored_def found_defs elim!: set_put_rowE dest!: tables_okD(9) row_by_key)
qed

lemma safe_bulk [safe]:
  "preserves tables_ok (bulk (revoke_all_for_user i now))"
  "preserves tables_ok (bulk (consume_outstanding_for_user i now))"
  "preserves tables_ok (bulk (rc_delete_unused i))" "preserves tables_ok (bulk (set_read_state i j r))"
proof -
  show "preserves tables_ok (bulk (revoke_all_for_user i now))"
    by (rule preserves_bulk, simp add: revoke_all_for_user_def, rule tables_ok_update(1), assumption)
      (auto simp: sessions_ok_def elim!: set_update_whereE dest!: tables_okD(2))
  show "preserves tables_ok (bulk (consume_outstanding_for_user i now))"
    by (rule preserves_bulk, simp add: consume_outstanding_for_user_def, rule tables_ok_update(3), assumption)
      (auto simp: reset_tokens_ok_def elim!: set_update_whereE dest!: tables_okD(4))
  show "preserves tables_ok (bulk (rc_delete_unused i))"
    by (rule preserves_bulk, simp add: rc_delete_unused_def, rule tables_ok_update(4), assumption)
      (auto simp: recovery_codes_ok_def distinct_map_filter_rows dest!: tables_okD(6))
  show "preserves tables_ok (bulk (set_read_state i j r))"
    by (rule preserves_bulk) (auto simp: set_read_state_def)
qed

lemma rc_add_set_tables_ok: "rc_add_set i hs db = Inr db' \<Longrightarrow> tables_ok db \<Longrightarrow> tables_ok db'"
proof (induction i hs db rule: rc_add_set.induct)
  case (2 i h hs db)
  then show ?case
    by (auto simp: found_defs rows_ok_snoc tables_okD(6) split: if_splits intro!: 2(1) tables_ok_update(4) dest!: row_by_key)
qed simp

lemma safe_inserts [safe]:
  "preserves tables_ok (insert_row (user_add email h))" "preserves tables_ok (insert_row (notification_add i nty d))"
  "preserves tables_ok (insert_row (category_add n s b))" "preserves tables_ok (exec (rc_add_set mi hs))"
  "preserves tables_ok (exec (category_save cat))"
proof -
  show "preserves tables_ok (insert_row (user_add email h))" by (rule preserves_insert) (rule user_add_tables)
  show "preserves tables_ok (exec (rc_add_set mi hs))" by (rule preserves_exec) (rule rc_add_set_tables_ok)
  show "preserves tables_ok (insert_row (notification_add i nty d))"
    by (rule preserves_insert) (auto simp: notification_add_def Let_def split: if_splits)
  show "preserves tables_ok (insert_row (category_add n s b))"
    by (rule preserves_insert) (auto simp: category_add_def Let_def split: if_splits)
  show "preserves tables_ok (exec (category_save cat))"
    by (rule preserves_exec) (auto dest!: category_save_frame(1))
qed

lemma value_statements_safe:
  assumes "R \<in> {material_repository, colour_repository}"
  shows "preserves tables_ok (insert_row (vr_add R n b))" and "preserves tables_ok (exec (vr_save R v))"
proof -
  show "preserves tables_ok (insert_row (vr_add R n b))"
    using assms by (intro preserves_insert) (auto simp: value_repositories dest!: value_add_frame)
  show "preserves tables_ok (exec (vr_save R v))"
    using assms by (intro preserves_exec) (auto simp: value_repositories dest!: value_save_frame)
qed

section \<open>Every use case keeps it\<close>

text \<open>An account or a session is written back as it was read, apart from what the use case changes:
  \<open>deleted_at\<close> stays empty and the version of a refresh token positive.\<close>

lemma safe_user_save: "u_deleted_at u = None \<Longrightarrow> preserves tables_ok (exec (user_save u))"
  by (rule preserves_exec) (rule user_save_tables)

lemma safe_session_save: "0 < s_token_version s \<Longrightarrow> preserves tables_ok (exec (session_save s))"
  by (rule preserves_exec) (rule session_save_tables)

lemma safe_read:
  assumes "\<And>db x. I db \<Longrightarrow> q db = Some x \<Longrightarrow> P x"
    and "preserves I c" and "\<And>x. P x \<Longrightarrow> preserves I (f x)"
  shows "preserves I (andthen (query q) (\<lambda>found. case found of None \<Rightarrow> c | Some x \<Rightarrow> f x))"
  unfolding preserves_def
proof (intro allI impI)
  fix db
  assume I: "I db"
  show "I (snd (andthen (query q) (\<lambda>found. case found of None \<Rightarrow> c | Some x \<Rightarrow> f x) db))"
  proof (cases "q db")
    case None
    with I assms(2) show ?thesis by (simp add: andthen_def query_def preserves_def)
  next
    case (Some x)
    with I assms(3) [OF assms(1) [OF I Some]] show ?thesis by (simp add: andthen_def query_def preserves_def)
  qed
qed

lemma safe_read_user:
  assumes "preserves tables_ok c" and "\<And>u. u_deleted_at u = None \<Longrightarrow> preserves tables_ok (f u)"
  shows "preserves tables_ok (andthen (query (user_by_id i)) (\<lambda>found. case found of None \<Rightarrow> c | Some u \<Rightarrow> f u))"
  by (rule safe_read [where P = "\<lambda>u. u_deleted_at u = None", OF _ assms])
    (auto simp: accounts_ok_def dest!: tables_okD(1) user_found)

lemma safe_read_session:
  assumes "preserves tables_ok c" and "\<And>s. 0 < s_token_version s \<Longrightarrow> preserves tables_ok (f s)"
  shows "preserves tables_ok (andthen (query (session_by_id i)) (\<lambda>found. case found of None \<Rightarrow> c | Some s \<Rightarrow> f s))"
  by (rule safe_read [where P = "\<lambda>s. 0 < s_token_version s", OF _ assms])
    (auto simp: sessions_ok_def session_by_id_def dest!: tables_okD(2) row_by_SomeD(1))

lemma safe_commands [safe]:
  "preserves tables_ok (register_user A now salt raw email pw rid ih)"
  "preserves tables_ok (request_password_reset A now raw email rid ih)"
  "preserves tables_ok (login_locked A now sid a i h)"
  "preserves tables_ok (mfa_setup A secret nonce i pw rid ih)"
  "preserves tables_ok (mfa_confirm_setup A now draws i code rid ih)"
  "preserves tables_ok (mfa_regenerate_recovery_codes A now draws i pw rid ih)"
  "preserves tables_ok (mfa_verify A now i cd rcode rid ih)"
  "preserves tables_ok (complete_mfa_login A now sid i ep ih ua rid)"
  "preserves tables_ok (update_setting now key v actor rid ih)"
  "preserves tables_ok (create_notification fl i nty payload)"
  "preserves tables_ok (create_category name slug act actor rid ih)"
  "preserves tables_ok (update_category now ci name' slug' act' actor rid ih)"
  "preserves tables_ok (archive_category now ci actor rid ih)"
  unfolding register_user_def request_password_reset_def login_locked_def
    open_session_def mfa_setup_def mfa_confirm_setup_def
    mfa_regenerate_recovery_codes_def mfa_verify_def verify_recovery_def verify_totp_def complete_mfa_login_def
    update_setting_def create_notification_def create_category_def update_category_def archive_category_def
    issue_verification_email_def issue_password_reset_email_def Let_def
  by (intro safe)+

lemma safe_resend: "preserves tables_ok (resend_verification A now raw email rid ih)"
  unfolding resend_verification_def perform_dummy_hash_def issue_verification_email_def Let_def
  by (intro safe | auto intro!: safe split: argon2_outcome.split)+

lemma safe_verify_email: "preserves tables_ok (verify_email now t rid ih)"
  unfolding verify_email_def
  by (intro keeps_entity safe_read_user safe safe_user_save) (auto simp: mark_verified_def split: if_splits)

lemma safe_confirm_reset: "preserves tables_ok (confirm_password_reset A now salt raw pw rid ih)"
  unfolding confirm_password_reset_def Let_def
  by (intro safe_read_user safe safe_user_save) (simp add: user_methods)

lemma safe_logout: "preserves tables_ok (logout now sid rid ih)"
  unfolding logout_def by (intro safe_read_session safe safe_session_save) (simp add: revoke_def)

lemma safe_refresh: "preserves tables_ok (refresh_session A now raw rid ih mfa)"
  unfolding refresh_session_def Let_def
  by (intro safe_read_session safe safe_session_save)
    (auto simp: revoke_def rotate_session_def mark_reuse_detected_def Let_def split: if_splits)

lemma safe_values:
  assumes "R \<in> {material_repository, colour_repository}"
  shows "preserves tables_ok (create_reference_value R ty name act actor rid ih)"
    and "preserves tables_ok (update_reference_value R ty now i name' act' actor rid ih)"
    and "preserves tables_ok (archive_reference_value R ty now i actor rid ih)"
  unfolding create_reference_value_def update_reference_value_def archive_reference_value_def Let_def
  by (intro safe value_statements_safe [OF assms])+

lemma safe_set_active: "preserves tables_ok (set_user_active now i b actor rid ih)"
proof -
  have prod: "preserves tables_ok (case p of (True, v) \<Rightarrow> f v | (False, v) \<Rightarrow> g v)"
    if "\<And>v. p = (True, v) \<Longrightarrow> preserves tables_ok (f v)" and "\<And>v. p = (False, v) \<Longrightarrow> preserves tables_ok (g v)"
    for p :: "bool \<times> user" and f g :: "user \<Rightarrow> set_active_result option cmd"
    using that by (cases p) (auto split: bool.split)
  show ?thesis
    unfolding set_user_active_def Let_def
    by (intro safe_read_user prod safe safe_user_save)
      (auto simp: set_active_def invalidate_credentials_def split: if_splits)
qed

section \<open>The jobs\<close>

lemma purge_tables:
  assumes "tables_ok db"
  shows "tables_ok (snd (purge_never_verified_before cutoff db))"
proof -
  let ?us = "filter (\<lambda>u. \<not> purgeable cutoff u) (users db)"
  let ?dead = "\<lambda>i. i \<in> set (map u_id (filter (purgeable cutoff) (users db)))"
  let ?cs = "filter (\<lambda>c. \<not> ?dead (mc_user_id c)) (mfa_credentials db)"
  have kept: "i \<in> u_id ` set ?us" if "i \<in> user_ids db" "\<not> ?dead i" for i using that by auto
  have null: "refers (u_id ` set ?us) (case r of None \<Rightarrow> None | Some i \<Rightarrow> if ?dead i then None else Some i)"
    if "refers (user_ids db) r" for r
    using that kept by (cases r) auto
  let ?null = "\<lambda>ref. case ref of None \<Rightarrow> None | Some i \<Rightarrow> if ?dead i then None else Some i"
  note ok = tables_okD [OF assms, unfolded rows_ok_defs]
  have "accounts_ok ?us" using ok(1) by (auto simp: accounts_ok_def distinct_map_filter_rows)
  moreover have "sessions_ok (u_id ` set ?us) (filter (\<lambda>s. \<not> ?dead (s_user_id s)) (sessions db))"
    using ok(2) kept by (simp add: sessions_ok_def distinct_map_filter_rows)
  moreover have "verification_tokens_ok (u_id ` set ?us) (filter (\<lambda>t. \<not> ?dead (vt_user_id t)) (verification_tokens db))"
    using ok(3) kept by (simp add: verification_tokens_ok_def distinct_map_filter_rows)
  moreover have "reset_tokens_ok (u_id ` set ?us) (filter (\<lambda>t. \<not> ?dead (rt_user_id t)) (reset_tokens db))"
    using ok(4) kept by (simp add: reset_tokens_ok_def distinct_map_filter_rows)
  moreover have "mfa_credentials_ok (u_id ` set ?us) ?cs"
    using ok(5) kept by (simp add: mfa_credentials_ok_def distinct_map_filter_rows)
  moreover have "recovery_codes_ok (mc_id ` set ?cs)
      (filter (\<lambda>c. \<not> (\<exists>m \<in> set (mfa_credentials db). mc_id m = rc_mfa_credential_id c \<and> ?dead (mc_user_id m))) (recovery_codes db))"
    using ok(6) by (auto simp: recovery_codes_ok_def distinct_map_filter_rows image_iff) metis
  moreover have "outbox_rows_ok (u_id ` set ?us) (map (\<lambda>m. m\<lparr>ob_user_id := ?null (ob_user_id m)\<rparr>) (email_outbox db))"
    using ok(7) null by (simp add: outbox_rows_ok_def comp_def)
  moreover have "audit_rows_ok (u_id ` set ?us) (map (\<lambda>a. a\<lparr>al_actor_user_id := ?null (al_actor_user_id a)\<rparr>) (audit_logs db))"
    using ok(8) null by (simp add: audit_rows_ok_def comp_def)
  moreover have "setting_rows_ok (u_id ` set ?us) (map (\<lambda>s. s\<lparr>st_updated_by := ?null (st_updated_by s)\<rparr>) (setting_rows db))"
    using ok(9) null by (simp add: setting_rows_ok_def comp_def)
  ultimately show ?thesis
    unfolding purge_never_verified_before_def Let_def tables_ok_def by simp
qed

lemma purge_job_tables:
  assumes "tables_ok db"
  shows "tables_ok (committed (\<lambda>_. False) (purge_unverified_accounts now) db)"
proof (rule committed_plain [where P = tables_ok])
  fix a db'
  assume "purge_unverified_accounts now db = (Inr a, db')"
  then obtain n where "purge_never_verified_before (now - seconds n) db = (a, db')"
    by (auto simp: purge_unverified_accounts_def andthen_Inr bulk_Inr dest!: settings_reads)
  with purge_tables [OF assms, of "now - seconds n"] show "tables_ok db'" by simp
qed (use assms in simp)

lemma outbox_save_tables: "outbox_save m db = Inr db' \<Longrightarrow> tables_ok db \<Longrightarrow> tables_ok db'"
  using preservesD [OF safe_saves(4), of m db] by (auto simp: exec_def)

lemma dispatch_tables: "tables_ok db \<Longrightarrow> tables_ok (snd (dispatch_outbox send locked tks db))"
proof -
  have "dispatch_loop send locked ts k db = (out, db') \<Longrightarrow> tables_ok db \<Longrightarrow> tables_ok db'" for ts k db out db'
    by (induction send locked ts k db rule: dispatch_loop.induct)
      (auto split: list.splits sum.splits dest: outbox_save_tables)
  then show "tables_ok db \<Longrightarrow> tables_ok (snd (dispatch_outbox send locked tks db))"
    by (metis dispatch_outbox_def prod.collapse)
qed

section \<open>Every step keeps it\<close>

lemma committed_tables:
  assumes "preserves tables_ok c" and "tables_ok db"
  shows "tables_ok (committed cm c db)"
  using assms by (auto simp: committed_def in_transaction_def preserves_def split: prod.splits sum.splits
    dest!: spec [of _ db])

lemma safe_second_factor: "preserves tables_ok (verify_and_complete A now sid p b rq)"
  unfolding verify_and_complete_def by (intro safe)

lemma step_tables:
  assumes "auth_step A S S'" and "tables_ok (sy_db S)"
  shows "tables_ok (sy_db S')"
  using assms
proof (cases rule: auth_step.cases)
  case (opens_session i h now sid a res db' u)
  with preservesD [OF safe_commands(3) opens_session(3)] assms(2) show ?thesis by simp
next
  case (issues_challenge i h now sid a uid ep db' cid)
  with preservesD [OF safe_commands(3) issues_challenge(3)] assms(2) show ?thesis by simp
next
  case (refreshes now raw rid ih mfa out db' new)
  with committed_tables [OF safe_refresh assms(2), of is_session_terminated A now raw rid ih mfa] show ?thesis
    by (simp add: committed_def)
next
  case (confirms_mfa c now draws code rid ih res db')
  with preservesD [OF safe_commands(5) confirms_mfa(3)] assms(2) show ?thesis by simp
next
  case (completes_login p now sid b rq res db' u)
  with preservesD [OF safe_second_factor completes_login(3)] assms(2) show ?thesis by simp
next
  case (fails_second_factor p now sid b rq e db')
  with committed_tables [OF safe_second_factor assms(2), of "\<lambda>e. e = MfaCodeReplayedError" A now sid p b rq] show ?thesis
    by (simp add: committed_def)
qed (auto simp: known_ids_def intro!: committed_tables safe safe_resend safe_verify_email safe_confirm_reset
    safe_logout safe_values safe_set_active purge_job_tables dispatch_tables)

lemma initial_tables: "initial S \<Longrightarrow> tables_ok (sy_db S)"
  by (simp add: initial_def tables_ok_def rows_ok_defs) (simp add: seeded_valid [unfolded settings_valid_def])

lemma reachable_tables:
  assumes "reachable A S"
  shows "tables_ok (sy_db S)"
proof -
  obtain S0 where S0: "initial S0" "(auth_step A)\<^sup>*\<^sup>* S0 S" using assms by (auto simp: reachable_def)
  from S0(2) initial_tables [OF S0(1)] show ?thesis
    by (induction rule: rtranclp_induct) (auto intro: step_tables)
qed


end
