(* ===== verification/Schema_Backfill.thy ===== *)
theory Schema_Backfill
  imports Platform_Entities
begin

text \<open>
  The data statements of revision 8bd689bf2024: mail that will not be sent again loses the secrets of
  its payload.  The payload column is \<open>JSONB NOT NULL\<close> and holds whatever an older release wrote, so
  a row is its status and any JSON value.  A statement that raises, or would write \<open>NULL\<close>, is \<open>None\<close>:
  the migration is rolled back.  \<open>AND\<close> is read from left to right.  PostgreSQL's text of a JSON value
  that is not a string is the parameter \<open>txt\<close>.
\<close>

record stored_mail =
  sm_id :: uuid
  sm_status :: outbox_status
  sm_payload :: pyval

definition stored_mail_of :: "outbox_message \<Rightarrow> stored_mail" where
  "stored_mail_of m = \<lparr>sm_id = ob_id m, sm_status = ob_status m, sm_payload = PDict (ob_payload m)\<rparr>"

definition TERMINAL_STATES :: "outbox_status list" where
  "TERMINAL_STATES = [SENT, FAILED]"

section \<open>JSON functions and \<open>UPDATE\<close>\<close>

fun jsonb_typeof :: "pyval \<Rightarrow> string" where
  "jsonb_typeof PNone = ''null''"
| "jsonb_typeof (PBool b) = ''boolean''"
| "jsonb_typeof (PInt i) = ''number''"
| "jsonb_typeof (PFloat m e) = ''number''"
| "jsonb_typeof (PStr s) = ''string''"
| "jsonb_typeof (PTime t) = ''string''"
| "jsonb_typeof (PList vs) = ''array''"
| "jsonb_typeof (PDict d) = ''object''"

definition jsonb_object_keys :: "pyval \<Rightarrow> string list option" where
  "jsonb_object_keys v = (case v of PDict d \<Rightarrow> Some (map fst d) | _ \<Rightarrow> None)"

definition each_text :: "(pyval \<Rightarrow> string) \<Rightarrow> pyval \<Rightarrow> string option" where
  "each_text txt v = (case v of PNone \<Rightarrow> None | PStr s \<Rightarrow> Some s | _ \<Rightarrow> Some (txt v))"

definition jsonb_each_text :: "(pyval \<Rightarrow> string) \<Rightarrow> pyval \<Rightarrow> (string \<times> string option) list option" where
  "jsonb_each_text txt v = (case v of PDict d \<Rightarrow> Some (map (\<lambda>(k, x). (k, each_text txt x)) d) | _ \<Rightarrow> None)"

text \<open>Over no rows an aggregate is \<open>NULL\<close>.\<close>

definition jsonb_object_agg :: "(string \<times> pyval) list \<Rightarrow> pyval option" where
  "jsonb_object_agg kvs = (if kvs = [] then None else Some (PDict kvs))"

fun sql_update :: "('r \<Rightarrow> bool option) \<Rightarrow> ('r \<Rightarrow> 'r option) \<Rightarrow> 'r list \<Rightarrow> (nat \<times> 'r list) option" where
  "sql_update P f [] = Some (0, [])"
| "sql_update P f (r # rs) = (case P r of
       None \<Rightarrow> None
     | Some hit \<Rightarrow> (case (if hit then f r else Some r, sql_update P f rs) of
           (Some r', Some (n, rs')) \<Rightarrow> Some (n + (if hit then 1 else 0), r' # rs')
         | _ \<Rightarrow> None))"

section \<open>The two statements\<close>

definition SANITISE_NON_OBJECT_PAYLOADS :: "stored_mail list \<Rightarrow> (nat \<times> stored_mail list) option" where
  "SANITISE_NON_OBJECT_PAYLOADS = sql_update
     (\<lambda>r. Some (sm_status r \<in> set TERMINAL_STATES \<and> jsonb_typeof (sm_payload r) \<noteq> ''object''))
     (\<lambda>r. Some (r\<lparr>sm_payload := PDict []\<rparr>))"

definition to_redact :: "(pyval \<Rightarrow> string) \<Rightarrow> stored_mail \<Rightarrow> bool option" where
  "to_redact txt r =
     (if sm_status r \<notin> set TERMINAL_STATES then Some False
      else if jsonb_typeof (sm_payload r) \<noteq> ''object'' then Some False
      else if sm_payload r = PDict [] then Some False
      else map_option (\<lambda>kvs. list_ex (\<lambda>kv. snd kv \<noteq> Some REDACTED) kvs) (jsonb_each_text txt (sm_payload r)))"

definition redact_object :: "stored_mail \<Rightarrow> stored_mail option" where
  "redact_object r = (case jsonb_object_keys (sm_payload r) of
       None \<Rightarrow> None
     | Some ks \<Rightarrow> map_option (\<lambda>p. r\<lparr>sm_payload := p\<rparr>) (jsonb_object_agg (map (\<lambda>k. (k, PStr REDACTED)) ks)))"

definition REDACT_OBJECT_PAYLOADS :: "(pyval \<Rightarrow> string) \<Rightarrow> stored_mail list \<Rightarrow> (nat \<times> stored_mail list) option" where
  "REDACT_OBJECT_PAYLOADS txt = sql_update (to_redact txt) redact_object"

definition redaction_backfill :: "(pyval \<Rightarrow> string) \<Rightarrow> stored_mail list \<Rightarrow> stored_mail list option" where
  "redaction_backfill txt rows = (case SANITISE_NON_OBJECT_PAYLOADS rows of
       None \<Rightarrow> None
     | Some (_, rows') \<Rightarrow> map_option snd (REDACT_OBJECT_PAYLOADS txt rows'))"

section \<open>What the backfill does\<close>

lemma sql_update_all:
  assumes "\<And>r. r \<in> set rs \<Longrightarrow> P r = Some (hit r)" and "\<And>r. r \<in> set rs \<Longrightarrow> hit r \<Longrightarrow> f r = Some (g r)"
    and "\<And>r. r \<in> set rs \<Longrightarrow> \<not> hit r \<Longrightarrow> g r = r"
  shows "sql_update P f rs = Some (length (filter hit rs), map g rs)"
  using assms by (induction rs) auto

text \<open>The row a fresh release would have left: as \<open>_redact_payload\<close> writes it.\<close>

definition scrubbed :: "stored_mail \<Rightarrow> stored_mail" where
  "scrubbed r = (if sm_status r \<in> set TERMINAL_STATES
     then r\<lparr>sm_payload := (case sm_payload r of PDict d \<Rightarrow> PDict (map (\<lambda>(k, _). (k, PStr REDACTED)) d) | _ \<Rightarrow> PDict [])\<rparr>
     else r)"

definition objected :: "stored_mail \<Rightarrow> stored_mail" where
  "objected r = (if sm_status r \<in> set TERMINAL_STATES \<and> jsonb_typeof (sm_payload r) \<noteq> ''object''
     then r\<lparr>sm_payload := PDict []\<rparr> else r)"

lemma jsonb_object: "jsonb_typeof v = ''object'' \<longleftrightarrow> (\<exists>d. v = PDict d)"
  by (cases v) simp_all

lemma sanitised: "\<exists>n. SANITISE_NON_OBJECT_PAYLOADS rows = Some (n, map objected rows)"
  unfolding SANITISE_NON_OBJECT_PAYLOADS_def
  by (rule exI, rule sql_update_all [where g = objected and hit = "\<lambda>r. sm_status r \<in> set TERMINAL_STATES
      \<and> jsonb_typeof (sm_payload r) \<noteq> ''object''"]) (auto simp: objected_def)

lemma each_text_redacted:
  assumes "\<And>v. (\<forall>s. v \<noteq> PStr s) \<Longrightarrow> txt v \<noteq> REDACTED"
  shows "each_text txt v = Some REDACTED \<longleftrightarrow> v = PStr REDACTED"
  using assms [of v] by (auto simp: each_text_def split: pyval.splits)

lemma scrubbed_fixed: "scrubbed (scrubbed r) = scrubbed r"
  by (auto simp: scrubbed_def comp_def case_prod_beta split: pyval.splits)

lemma scrubbed_objected: "scrubbed (objected r) = scrubbed r"
  by (auto simp: scrubbed_def objected_def jsonb_object split: pyval.splits)

definition leaks :: "stored_mail \<Rightarrow> bool" where
  "leaks r \<longleftrightarrow> sm_status r \<in> set TERMINAL_STATES
     \<and> (case sm_payload r of PDict d \<Rightarrow> list_ex (\<lambda>(k, v). v \<noteq> PStr REDACTED) d | _ \<Rightarrow> False)"

lemma redaction:
  assumes "\<And>v. (\<forall>s. v \<noteq> PStr s) \<Longrightarrow> txt v \<noteq> REDACTED" and "\<And>r. r \<in> set rows \<Longrightarrow> objected r = r"
  shows "REDACT_OBJECT_PAYLOADS txt rows = Some (length (filter leaks rows), map scrubbed rows)"
  unfolding REDACT_OBJECT_PAYLOADS_def
proof (rule sql_update_all)
  fix r
  assume r: "r \<in> set rows"
  have obj: "sm_status r \<in> set TERMINAL_STATES \<Longrightarrow> \<exists>d. sm_payload r = PDict d"
    using assms(2) [OF r] by (cases r) (auto simp: objected_def jsonb_object [symmetric] split: if_splits)
  show "to_redact txt r = Some (leaks r)"
    using obj by (auto simp: to_redact_def leaks_def jsonb_each_text_def list_ex_iff each_text_redacted [OF assms(1)]
        case_prod_beta split: pyval.split)
  show "leaks r \<Longrightarrow> redact_object r = Some (scrubbed r)"
    by (auto simp: leaks_def redact_object_def jsonb_object_keys_def jsonb_object_agg_def scrubbed_def comp_def case_prod_beta
        split: pyval.splits)
  show "\<not> leaks r \<Longrightarrow> scrubbed r = r"
    using obj by (cases r) (auto simp: leaks_def scrubbed_def list_ex_iff intro!: map_idI split: pyval.splits)
qed

lemma backfill_scrubs:
  assumes "\<And>v. (\<forall>s. v \<noteq> PStr s) \<Longrightarrow> txt v \<noteq> REDACTED"
  shows "redaction_backfill txt rows = Some (map scrubbed rows)"
proof -
  have "objected (objected r) = objected r" for r by (simp add: objected_def)
  then have "REDACT_OBJECT_PAYLOADS txt (map objected rows)
      = Some (length (filter leaks (map objected rows)), map scrubbed (map objected rows))"
    by (intro redaction [OF assms]) auto
  moreover obtain n where "SANITISE_NON_OBJECT_PAYLOADS rows = Some (n, map objected rows)"
    using sanitised by blast
  ultimately show ?thesis by (simp add: redaction_backfill_def comp_def scrubbed_objected)
qed

text \<open>C21: The backfill of revision 8bd689bf2024 never fails, whatever JSON the outbox holds.  A pending or
  sending row is left as it is; a sent or failed one ends as an object with its keys and nothing but
  redaction marks, as \<open>EmailOutboxMessage._redact_payload\<close> would have written it; running it again
  rewrites nothing.\<close>

theorem backfill_redacts_terminal_mail:
  assumes "\<forall>v. (\<forall>s. v \<noteq> PStr s) \<longrightarrow> txt v \<noteq> REDACTED"
  shows "\<exists>rows'. redaction_backfill txt rows = Some rows' \<and> length rows' = length rows
    \<and> (\<forall>k < length rows. sm_status (rows ! k) \<in> {PENDING, SENDING} \<longrightarrow> rows' ! k = rows ! k)
    \<and> (\<forall>k < length rows. sm_status (rows ! k) \<in> {SENT, FAILED} \<longrightarrow>
         (\<exists>d. sm_payload (rows' ! k) = PDict d \<and> (\<forall>(f, v) \<in> set d. v = PStr REDACTED)
            \<and> (\<forall>m. rows ! k = stored_mail_of m \<longrightarrow> rows' ! k = stored_mail_of (redact_payload m))))
    \<and> SANITISE_NON_OBJECT_PAYLOADS rows' = Some (0, rows') \<and> REDACT_OBJECT_PAYLOADS txt rows' = Some (0, rows')"
proof (rule exI [of _ "map scrubbed rows"], intro conjI allI impI)
  have marks: "\<And>v. (\<forall>s. v \<noteq> PStr s) \<Longrightarrow> txt v \<noteq> REDACTED" using assms by blast
  show "redaction_backfill txt rows = Some (map scrubbed rows)" by (rule backfill_scrubs [OF marks])
  have "objected (scrubbed r) = scrubbed r" for r
    by (auto simp: objected_def scrubbed_def jsonb_object split: pyval.splits)
  moreover have "\<not> leaks (scrubbed r)" for r
    by (auto simp: leaks_def scrubbed_def list_ex_iff split: pyval.splits if_splits)
  ultimately show "REDACT_OBJECT_PAYLOADS txt (map scrubbed rows) = Some (0, map scrubbed rows)"
    by (subst redaction [OF marks]) (auto simp: comp_def scrubbed_fixed)
  show "SANITISE_NON_OBJECT_PAYLOADS (map scrubbed rows) = Some (0, map scrubbed rows)"
    unfolding SANITISE_NON_OBJECT_PAYLOADS_def
    by (subst sql_update_all [where g = "\<lambda>r. r" and hit = "\<lambda>r. False"])
      (auto simp: scrubbed_def jsonb_object split: pyval.split)
next
  fix k
  assume k: "k < length rows"
  show "map scrubbed rows ! k = rows ! k" if "sm_status (rows ! k) \<in> {PENDING, SENDING}"
    using k that by (auto simp: scrubbed_def TERMINAL_STATES_def)
  show "\<exists>d. sm_payload (map scrubbed rows ! k) = PDict d \<and> (\<forall>(f, v) \<in> set d. v = PStr REDACTED)
      \<and> (\<forall>m. rows ! k = stored_mail_of m \<longrightarrow> map scrubbed rows ! k = stored_mail_of (redact_payload m))"
    if "sm_status (rows ! k) \<in> {SENT, FAILED}"
    using k that
    by (auto simp: scrubbed_def TERMINAL_STATES_def stored_mail_of_def redact_payload_def split: pyval.split)
qed simp

end
