(* ===== verification/Worked_Schema.thy ===== *)
theory Worked_Schema
  imports Worked_Office Schema_Invariant Schema_Backfill
begin


definition old_mails :: "stored_mail list" where
  "old_mails = [\<lparr>sm_id = 1, sm_status = SENT, sm_payload = PDict [(''token'', PStr ''secret''), (''n'', PNone)]\<rparr>,
     \<lparr>sm_id = 2, sm_status = FAILED, sm_payload = PList [PStr ''secret'']\<rparr>,
     \<lparr>sm_id = 3, sm_status = PENDING, sm_payload = PDict [(''token'', PStr ''secret'')]\<rparr>]"

theorem backfill_redacts_terminal_mail_witness:
  "\<exists>rows'. redaction_backfill (\<lambda>_. ''1'') old_mails = Some rows' \<and> length rows' = 3 \<and> rows' ! 2 = old_mails ! 2"
  using backfill_redacts_terminal_mail [of "\<lambda>_. ''1''" old_mails] by (auto simp: REDACTED_def old_mails_def)

end
