(* ===== verification/Http_Responses.thy ===== *)
theory Http_Responses
  imports Api_Boundary "HOL-Library.AList"
begin

text \<open>
  What reaches the client: api/errors.py turns exceptions into problem documents (RFC 9457) and
  api/middleware.py gives every request an id.  Starlette keeps the two apart: the handler of
  \<open>Exception\<close> runs outside the middleware, the other handlers inside.  Header names are matched
  without case, and a response carries them in lower case.  \<open>content-type\<close> and
  \<open>content-length\<close> are left to Starlette.
\<close>

section \<open>Request ids\<close>

definition REQUEST_ID_HEADER :: string where "REQUEST_ID_HEADER = ''X-Request-ID''"

text \<open>\<open>header\<close> is the caller's, \<open>fresh\<close> the \<open>uuid4\<close> drawn; an empty header counts as none.\<close>

definition assign_request_id :: "string option \<Rightarrow> uuid \<Rightarrow> string" where
  "assign_request_id header fresh = (case header of
       Some h \<Rightarrow> if h \<noteq> [] then h else ''req_'' @ hex_fixed 32 (unat fresh)
     | None \<Rightarrow> ''req_'' @ hex_fixed 32 (unat fresh))"

section \<open>Exceptions and problem documents\<close>

record error_item =
  ei_loc :: "pyval list"
  ei_msg :: string
  ei_type :: string

text \<open>The four classes \<open>register_exception_handlers\<close> names; the text of an unexpected exception
  may hold anything.\<close>

datatype exn =
    HTTP_Exception int string "(string \<times> string) list"
  | Request_Validation_Error "error_item list"
  | Api_Error api_error
  | Other_Exception string

record problem_document =
  pd_type :: string
  pd_title :: string
  pd_status :: int
  pd_detail :: string
  pd_instance :: string
  pd_code :: string
  pd_request_id :: string
  pd_errors :: "error_item list"

record 'a response =
  rs_status :: int
  rs_headers :: "(string \<times> string) list"
  rs_cookies :: "cookie list"
  rs_body :: "problem_document + 'a"

definition lower_header :: "string \<Rightarrow> string" where
  "lower_header k = map lower_char k"

definition raw_headers :: "(string \<times> string) list \<Rightarrow> (string \<times> string) list" where
  "raw_headers hs = map (\<lambda>(k, v). (lower_header k, v)) hs"

text \<open>\<open>_STATUS_CODE_NAMES.get(status, "HTTP_ERROR")\<close>.\<close>

definition STATUS_CODE_NAMES :: "(int \<times> string) list" where
  "STATUS_CODE_NAMES = [(400, ''MALFORMED_REQUEST''), (404, ''NOT_FOUND''), (405, ''METHOD_NOT_ALLOWED''),
     (503, ''SERVICE_UNAVAILABLE'')]"

definition status_code_name :: "int \<Rightarrow> string" where
  "status_code_name status = (case map_of STATUS_CODE_NAMES status of None \<Rightarrow> ''HTTP_ERROR'' | Some n \<Rightarrow> n)"

text \<open>The id overrides a header of the same spelling (\<open>{**headers, REQUEST_ID_HEADER: id}\<close>).\<close>

definition problem_response :: "settings \<Rightarrow> string \<Rightarrow> string \<Rightarrow> int \<Rightarrow> string \<Rightarrow> string \<Rightarrow> string \<Rightarrow> error_item list
    \<Rightarrow> (string \<times> string) list \<Rightarrow> 'a response" where
  "problem_response cfg path request_id status code title detail errors headers =
     \<lparr>rs_status = status, rs_headers = raw_headers (AList.update REQUEST_ID_HEADER request_id headers), rs_cookies = [],
      rs_body = Inl \<lparr>pd_type = base_url cfg @ ''/problems/'' @ code, pd_title = title, pd_status = status,
        pd_detail = detail, pd_instance = path, pd_code = code, pd_request_id = request_id, pd_errors = errors\<rparr>\<rparr>"

definition http_exception_handler ::
  "settings \<Rightarrow> string \<Rightarrow> string \<Rightarrow> int \<Rightarrow> string \<Rightarrow> (string \<times> string) list \<Rightarrow> 'a response" where
  "http_exception_handler cfg path request_id status detail headers =
     problem_response cfg path request_id status (status_code_name status) ''Request cannot be completed'' detail [] headers"

definition validation_exception_handler :: "settings \<Rightarrow> string \<Rightarrow> string \<Rightarrow> error_item list \<Rightarrow> 'a response" where
  "validation_exception_handler cfg path request_id errors =
     (if list_ex (\<lambda>e. ei_type e = ''json_invalid'') errors
      then problem_response cfg path request_id 400 ''MALFORMED_REQUEST'' ''Request body could not be parsed''
        ''The request body is not valid JSON.'' errors []
      else problem_response cfg path request_id 422 ''VALIDATION_ERROR'' ''Request body failed validation''
        ''One or more fields failed validation.'' errors [])"

definition api_error_handler :: "settings \<Rightarrow> string \<Rightarrow> string \<Rightarrow> api_error \<Rightarrow> 'a response" where
  "api_error_handler cfg path request_id e =
     problem_response cfg path request_id (ae_status_code e) (ae_code e) (ae_title e) (ae_detail e) [] (ae_headers e)"

definition unhandled_exception_handler :: "settings \<Rightarrow> string \<Rightarrow> string \<Rightarrow> 'a response" where
  "unhandled_exception_handler cfg path request_id =
     problem_response cfg path request_id 500 ''INTERNAL_ERROR'' ''An unexpected error occurred''
       ''An unexpected error occurred. It has been logged for investigation.'' [] []"

section \<open>The stack\<close>

text \<open>\<open>response.headers[k] = v\<close>: the first header of that name is replaced, further ones go.\<close>

fun set_header :: "string \<Rightarrow> string \<Rightarrow> (string \<times> string) list \<Rightarrow> (string \<times> string) list" where
  "set_header k v [] = [(lower_header k, v)]"
| "set_header k v ((k', v') # hs) =
     (if k' = lower_header k then (lower_header k, v) # filter (\<lambda>(x, _). x \<noteq> lower_header k) hs
      else (k', v') # set_header k v hs)"

definition request_id_middleware :: "string \<Rightarrow> 'a response \<Rightarrow> 'a response" where
  "request_id_middleware request_id r = r\<lparr>rs_headers := set_header REQUEST_ID_HEADER request_id (rs_headers r)\<rparr>"

definition response_of :: "'a answer \<Rightarrow> 'a response" where
  "response_of a = \<lparr>rs_status = an_status a, rs_headers = raw_headers (an_headers a), rs_cookies = an_cookies a,
     rs_body = Inr (an_body a)\<rparr>"

definition serve :: "settings \<Rightarrow> string \<Rightarrow> string \<Rightarrow> exn + 'a answer \<Rightarrow> 'a response" where
  "serve cfg path request_id outcome = (case outcome of
       Inl (Other_Exception _) \<Rightarrow> unhandled_exception_handler cfg path request_id
     | Inl (HTTP_Exception status detail headers) \<Rightarrow>
         request_id_middleware request_id (http_exception_handler cfg path request_id status detail headers)
     | Inl (Request_Validation_Error errors) \<Rightarrow>
         request_id_middleware request_id (validation_exception_handler cfg path request_id errors)
     | Inl (Api_Error e) \<Rightarrow> request_id_middleware request_id (api_error_handler cfg path request_id e)
     | Inr a \<Rightarrow> request_id_middleware request_id (response_of a))"

text \<open>The outcome of a route: the failures of the other theories are documents already, or an
  exception of some text.\<close>

definition outcome_of :: "string \<Rightarrow> failure + 'a answer \<Rightarrow> exn + 'a answer" where
  "outcome_of text_of_exception x = (case x of
       Inl (Problem e) \<Rightarrow> Inl (Api_Error e)
     | Inl Unhandled \<Rightarrow> Inl (Other_Exception text_of_exception)
     | Inr a \<Rightarrow> Inr a)"

section \<open>What every response carries\<close>

lemma set_header_once: "filter (\<lambda>h. fst h = lower_header k) (set_header k v hs) = [(lower_header k, v)]"
  by (induction k v hs rule: set_header.induct) (auto simp: case_prod_beta' filter_empty_conv)

lemma set_header_others:
  "filter (\<lambda>h. fst h \<noteq> lower_header k) (set_header k v hs) = filter (\<lambda>h. fst h \<noteq> lower_header k) hs"
  by (induction k v hs rule: set_header.induct) (auto simp: case_prod_beta')

lemmas handler_defs = http_exception_handler_def validation_exception_handler_def api_error_handler_def
  unhandled_exception_handler_def problem_response_def

lemmas serve_defs = handler_defs serve_def request_id_middleware_def

lemma id_header: "lower_header REQUEST_ID_HEADER = ''x-request-id''"
  by code_simp

lemma served_id_once:
  "filter (\<lambda>h. fst h = ''x-request-id'') (rs_headers (serve cfg path rid outcome)) = [(''x-request-id'', rid)]"
proof (cases "\<exists>t. outcome = Inl (Other_Exception t)")
  case True
  then show ?thesis by (auto simp: serve_defs raw_headers_def id_header)
next
  case False
  have "\<exists>r. serve cfg path rid outcome = request_id_middleware rid r"
    using False by (auto simp: serve_def split: sum.split exn.split)
  then show ?thesis using set_header_once [of REQUEST_ID_HEADER] by (auto simp: request_id_middleware_def id_header)
qed

text \<open>C39: Every response carries the id of its request, once, and a problem document agrees with it and
  with the response about id, status and path.  The answer of a route is passed on as it is, its
  other headers included, and an unexpected exception leaves no trace of its text.\<close>

theorem every_response_correlated:
  "let rid = assign_request_id header fresh; r = serve cfg path rid outcome in
     filter (\<lambda>h. fst h = ''x-request-id'') (rs_headers r) = [(''x-request-id'', rid)]
     \<and> rid \<noteq> [] \<and> (\<forall>h. header = Some h \<and> h \<noteq> [] \<longrightarrow> rid = h)
     \<and> (case (outcome, rs_body r) of
          (Inl x, Inl d) \<Rightarrow> pd_request_id d = rid \<and> pd_status d = rs_status r \<and> pd_instance d = path
            \<and> pd_type d = base_url cfg @ ''/problems/'' @ pd_code d \<and> rs_cookies r = []
            \<and> (\<forall>t t'. x = Other_Exception t \<longrightarrow> rs_status r = 500 \<and> r = serve cfg path rid (Inl (Other_Exception t')))
        | (Inr a, Inr b) \<Rightarrow> b = an_body a \<and> rs_status r = an_status a \<and> rs_cookies r = an_cookies a
            \<and> filter (\<lambda>h. fst h \<noteq> ''x-request-id'') (rs_headers r)
              = filter (\<lambda>h. fst h \<noteq> ''x-request-id'') (raw_headers (an_headers a))
        | _ \<Rightarrow> False)"
proof -
  define rid where "rid = assign_request_id header fresh"
  define r where "r = serve cfg path rid outcome"
  have "rid \<noteq> []" "\<And>h. header = Some h \<Longrightarrow> h \<noteq> [] \<Longrightarrow> rid = h"
    by (auto simp: rid_def assign_request_id_def split: option.split)
  moreover have "filter (\<lambda>h. fst h = ''x-request-id'') (rs_headers r) = [(''x-request-id'', rid)]"
    unfolding r_def by (rule served_id_once)
  moreover have "case (outcome, rs_body r) of
          (Inl x, Inl d) \<Rightarrow> pd_request_id d = rid \<and> pd_status d = rs_status r \<and> pd_instance d = path
            \<and> pd_type d = base_url cfg @ ''/problems/'' @ pd_code d \<and> rs_cookies r = []
            \<and> (\<forall>t t'. x = Other_Exception t \<longrightarrow> rs_status r = 500 \<and> r = serve cfg path rid (Inl (Other_Exception t')))
        | (Inr a, Inr b) \<Rightarrow> b = an_body a \<and> rs_status r = an_status a \<and> rs_cookies r = an_cookies a
            \<and> filter (\<lambda>h. fst h \<noteq> ''x-request-id'') (rs_headers r)
              = filter (\<lambda>h. fst h \<noteq> ''x-request-id'') (raw_headers (an_headers a))
        | _ \<Rightarrow> False"
  proof (cases outcome)
    case (Inl x)
    then show ?thesis by (cases x) (simp_all add: r_def serve_defs)
  next
    case (Inr a)
    then show ?thesis using set_header_others [of REQUEST_ID_HEADER] by (simp add: r_def serve_def request_id_middleware_def response_of_def id_header)
  qed
  ultimately show ?thesis by (simp add: rid_def [symmetric] r_def [symmetric])
qed

text \<open>The failures the other theories write down as documents are those of these handlers.\<close>

lemma validation_document:
  "serve cfg path rid (outcome_of t (Inl validation_error)) = serve cfg path rid (Inl (Request_Validation_Error []))"
  by (simp add: outcome_of_def validation_error_def problem_def serve_def handler_defs)

lemma missing_route_document:
  "serve cfg path rid (outcome_of t (Inl not_found_error)) = serve cfg path rid (Inl (HTTP_Exception 404 ''Not Found'' []))"
  by (simp add: outcome_of_def not_found_error_def problem_def serve_def handler_defs status_code_name_def STATUS_CODE_NAMES_def)

end
