(* ===== verification/Http_Routing.thy ===== *)
theory Http_Routing
  imports Http_Responses Mfa_Routes Settings_Routes Catalogue_Routes
begin

text \<open>
  The application of main.py: its routes in the order the routers of api/v1 mount them, with the
  dependencies each resolves; Starlette's choice of a route; the health checks (api/health.py); and
  the security annotations of the OpenAPI document (api/openapi.py).  A path is the list of its
  segments.  FastAPI's own documentation routes and its redirects of trailing slashes are left out, and
  so is the parsing of a JSON body, which FastAPI does before it resolves the dependencies.
\<close>

section \<open>The route table\<close>

datatype segment = Fixed string | Param string

datatype guard = Rate_Limit | Current_User | Current_Verified_User | Require_Csrf | Require_Admin | Require_Admin_Enrollment

record operation =
  op_method :: string
  op_path :: "segment list"
  op_guards :: "guard list"

text \<open>\<open>include_router\<close>: the prefix and the dependencies of a router go before those of its routes.\<close>

definition router :: "segment list \<Rightarrow> guard list \<Rightarrow> operation list \<Rightarrow> operation list" where
  "router prefix guards ops = map (\<lambda>x. x\<lparr>op_path := prefix @ op_path x, op_guards := guards @ op_guards x\<rparr>) ops"

definition operation :: "string \<Rightarrow> segment list \<Rightarrow> guard list \<Rightarrow> operation" where
  "operation m path guards = \<lparr>op_method = m, op_path = path, op_guards = guards\<rparr>"

definition health_router :: "operation list" where
  "health_router =
     [operation ''GET'' [Fixed ''health'', Fixed ''live''] [],
      operation ''GET'' [Fixed ''health'', Fixed ''ready''] []]"

definition identity_auth_router :: "operation list" where
  "identity_auth_router = router [Fixed ''auth''] []
     [operation ''POST'' [Fixed ''register''] [Rate_Limit],
      operation ''POST'' [Fixed ''verify-email''] [Rate_Limit],
      operation ''POST'' [Fixed ''login''] [Rate_Limit],
      operation ''POST'' [Fixed ''logout''] [Require_Csrf],
      operation ''POST'' [Fixed ''refresh''] [Rate_Limit],
      operation ''POST'' [Fixed ''resend-verification''] [Rate_Limit],
      operation ''POST'' [Fixed ''password-reset'', Fixed ''request''] [Rate_Limit],
      operation ''POST'' [Fixed ''password-reset'', Fixed ''confirm''] [Rate_Limit]]"

definition identity_mfa_router :: "operation list" where
  "identity_mfa_router = router [Fixed ''auth'', Fixed ''mfa''] []
     [operation ''POST'' [Fixed ''setup''] [Rate_Limit, Require_Admin_Enrollment],
      operation ''POST'' [Fixed ''setup'', Fixed ''confirm''] [Rate_Limit, Require_Admin_Enrollment],
      operation ''POST'' [Fixed ''verify''] [Rate_Limit],
      operation ''POST'' [Fixed ''recovery-codes'', Fixed ''regenerate''] [Rate_Limit, Require_Csrf, Require_Admin]]"

definition settings_admin_router :: "operation list" where
  "settings_admin_router = router [Fixed ''settings''] []
     [operation ''GET'' [] [],
      operation ''GET'' [Param ''key''] [],
      operation ''PATCH'' [Param ''key''] [Require_Csrf]]"

definition value_operations :: "string \<Rightarrow> string \<Rightarrow> operation list" where
  "value_operations collection identifier =
     [operation ''GET'' [Fixed collection] [],
      operation ''POST'' [Fixed collection] [Require_Csrf],
      operation ''GET'' [Fixed collection, Param identifier] [],
      operation ''PATCH'' [Fixed collection, Param identifier] [Require_Csrf],
      operation ''DELETE'' [Fixed collection, Param identifier] [Require_Csrf]]"

definition catalogue_admin_router :: "operation list" where
  "catalogue_admin_router = value_operations ''categories'' ''category_id''
     @ value_operations ''materials'' ''material_id'' @ value_operations ''colours'' ''colour_id''"

definition admin_users_router :: "operation list" where
  "admin_users_router = router [Fixed ''users''] []
     [operation ''GET'' [] [],
      operation ''GET'' [Param ''user_id''] [],
      operation ''PATCH'' [Param ''user_id''] [Require_Csrf]]"

definition admin_router :: "operation list" where
  "admin_router = router [Fixed ''admin''] [Require_Admin]
     (settings_admin_router @ catalogue_admin_router @ admin_users_router)"

definition identity_profile_router :: "operation list" where
  "identity_profile_router = router [Fixed ''me''] [] [operation ''GET'' [] [Current_User]]"

definition engagement_notifications_router :: "operation list" where
  "engagement_notifications_router = router [Fixed ''me'', Fixed ''notifications''] []
     [operation ''GET'' [] [Current_User],
      operation ''PATCH'' [Param ''notification_id''] [Require_Csrf, Current_Verified_User]]"

definition public_settings_router :: "operation list" where
  "public_settings_router = router [Fixed ''settings''] [] [operation ''GET'' [Fixed ''public''] [Rate_Limit]]"

definition public_catalogue_router :: "operation list" where
  "public_catalogue_router =
     [operation ''GET'' [Fixed ''categories''] [Rate_Limit],
      operation ''GET'' [Fixed ''materials''] [Rate_Limit],
      operation ''GET'' [Fixed ''colours''] [Rate_Limit]]"

definition auth_router :: "operation list" where
  "auth_router = identity_auth_router @ identity_mfa_router"

definition me_router :: "operation list" where
  "me_router = identity_profile_router @ engagement_notifications_router"

definition v1_router :: "operation list" where
  "v1_router = router [Fixed ''api'', Fixed ''v1''] []
     (auth_router @ admin_router @ me_router @ public_settings_router @ public_catalogue_router)"

definition app_routes :: "operation list" where
  "app_routes = health_router @ v1_router"

section \<open>Choosing a route\<close>

definition segment_matches :: "segment \<Rightarrow> string \<Rightarrow> bool" where
  "segment_matches t s = (case t of Fixed f \<Rightarrow> s = f | Param _ \<Rightarrow> s \<noteq> [])"

definition path_matches :: "segment list \<Rightarrow> string list \<Rightarrow> bool" where
  "path_matches ts ss = list_all2 segment_matches ts ss"

text \<open>The first route that matches path and method; failing that, the first that matches the path
  answers 405 and names its own method; failing that, 404.\<close>

definition find_route :: "string \<Rightarrow> string list \<Rightarrow> exn + operation" where
  "find_route method path =
     (case find (\<lambda>x. path_matches (op_path x) path \<and> op_method x = method) app_routes of
        Some x \<Rightarrow> Inr x
      | None \<Rightarrow> (case find (\<lambda>x. path_matches (op_path x) path) app_routes of
            Some x \<Rightarrow> Inl (HTTP_Exception 405 ''Method Not Allowed'' [(''Allow'', op_method x)])
          | None \<Rightarrow> Inl (HTTP_Exception 404 ''Not Found'' [])))"

section \<open>Health checks\<close>

record readiness_read =
  rr_version :: string
  rr_commit :: string

definition liveness :: "unit answer" where
  "liveness = \<lparr>an_status = 200, an_headers = [], an_cookies = [], an_body = ()\<rparr>"

text \<open>Whether PostgreSQL answers \<open>SELECT 1\<close> and Redis \<open>PING\<close>.\<close>

definition readiness :: "settings \<Rightarrow> bool \<Rightarrow> bool \<Rightarrow> exn + readiness_read answer" where
  "readiness cfg database_up redis_up =
     (if \<not> database_up then Inl (HTTP_Exception 503 ''Database is unavailable.'' [])
      else if \<not> redis_up then Inl (HTTP_Exception 503 ''Redis is unavailable.'' [])
      else Inr \<lparr>an_status = 200, an_headers = [], an_cookies = [],
             an_body = \<lparr>rr_version = app_version cfg, rr_commit = git_commit_sha cfg\<rparr>\<rparr>)"

section \<open>The OpenAPI document\<close>

record security_scheme =
  sx_type :: string
  sx_in :: string
  sx_name :: string
  sx_description :: string

definition SECURITY_SCHEMES :: "(string \<times> security_scheme) list" where
  "SECURITY_SCHEMES =
     [(''sessionCookie'', \<lparr>sx_type = ''apiKey'', sx_in = ''cookie'', sx_name = ACCESS_COOKIE,
        sx_description = ''Short-lived signed access token, set httpOnly by `POST /auth/login` or `POST /auth/mfa/verify` (ADR-006). The browser sends it automatically; `''
          @ REFRESH_COOKIE @ ''` rotates it through `POST /auth/refresh`.''\<rparr>),
      (''csrfToken'', \<lparr>sx_type = ''apiKey'', sx_in = ''header'', sx_name = CSRF_HEADER,
        sx_description = ''Double-submit CSRF defence (SEC-03). Copy the readable `'' @ CSRF_COOKIE
          @ ''` cookie into this header on every cookie-authenticated unsafe method.''\<rparr>)]"

definition UNAUTHENTICATED_PATHS :: "string list" where
  "UNAUTHENTICATED_PATHS = [''/api/v1/auth/register'', ''/api/v1/auth/login'', ''/api/v1/auth/verify-email'',
     ''/api/v1/auth/resend-verification'', ''/api/v1/auth/mfa/verify'', ''/health'', ''/health/ready'']"

definition SAFE_METHODS :: "string list" where
  "SAFE_METHODS = [''get'', ''head'', ''options'']"

text \<open>One list per alternative; each scheme with its scopes.\<close>

definition requirements :: "string \<Rightarrow> string \<Rightarrow> (string \<times> string list) list list option" where
  "requirements path method =
     (if path \<in> set UNAUTHENTICATED_PATHS then None
      else if method \<in> set SAFE_METHODS then Some [[(''sessionCookie'', [])]]
      else Some [[(''sessionCookie'', []), (''csrfToken'', [])]])"

text \<open>The pass over the document FastAPI generates: its operations by path and method (an entry that is
  no operation is \<open>None\<close>), the rest of an operation being \<open>'o\<close>.  The annotated document is kept on the
  application and served from there on.\<close>

record 'o operation_object =
  oo_content :: 'o
  oo_security :: "(string \<times> string list) list list option"

record 'o openapi =
  oa_security_schemes :: "(string \<times> security_scheme) list"
  oa_paths :: "(string \<times> (string \<times> 'o operation_object option) list) list"

definition secured :: "string \<Rightarrow> string \<Rightarrow> 'o operation_object \<Rightarrow> 'o operation_object" where
  "secured path method x = (case requirements path (map lower_char method) of
       None \<Rightarrow> x | Some r \<Rightarrow> x\<lparr>oo_security := Some r\<rparr>)"

definition annotated :: "'o openapi \<Rightarrow> 'o openapi" where
  "annotated schema = schema\<lparr>oa_security_schemes := SECURITY_SCHEMES,
     oa_paths := map (\<lambda>(path, ops). (path, map (\<lambda>(method, x). (method, map_option (secured path method) x)) ops))
       (oa_paths schema)\<rparr>"

definition custom_openapi :: "'o openapi option \<Rightarrow> 'o openapi \<Rightarrow> 'o openapi \<times> 'o openapi option" where
  "custom_openapi cached generated = (case cached of
       Some schema \<Rightarrow> (schema, Some schema)
     | None \<Rightarrow> (annotated generated, Some (annotated generated)))"

text \<open>Once served, the document stays the same whatever FastAPI would generate; and annotating it
  twice is annotating it once.\<close>

lemma secured_twice: "secured path method \<circ> secured path method = secured path method"
  by (simp add: fun_eq_iff secured_def split: option.split)

lemma custom_openapi_stable:
  "custom_openapi (snd (custom_openapi c g)) g' = (fst (custom_openapi c g), snd (custom_openapi c g))"
  "annotated (annotated g) = annotated g"
  by (simp add: custom_openapi_def split: option.split)
    (simp add: annotated_def comp_def case_prod_beta' option.map_comp secured_twice [unfolded comp_def])

definition path_text :: "segment list \<Rightarrow> string" where
  "path_text ts = concat (map (\<lambda>t. CHR ''/'' # (case t of Fixed f \<Rightarrow> f | Param p \<Rightarrow> ''{'' @ p @ ''}'')) ts)"

text \<open>The \<open>security\<close> of each operation of the document.\<close>

definition documented :: "operation \<Rightarrow> (string \<times> string list) list list option" where
  "documented x = requirements (path_text (op_path x)) (map lower_char (op_method x))"

text \<open>What the dependencies of an operation ask of the caller.\<close>

definition demanded :: "operation \<Rightarrow> (string \<times> string list) list list option" where
  "demanded x =
     (if set (op_guards x) \<subseteq> {Rate_Limit} then None
      else if Require_Csrf \<in> set (op_guards x) \<or> Require_Admin_Enrollment \<in> set (op_guards x)
      then Some [[(''sessionCookie'', []), (''csrfToken'', [])]]
      else Some [[(''sessionCookie'', [])]])"

text \<open>The document states what every operation demands, but for eight that anyone may call: it
  describes those as needing a session.  No operation that needs one is described as open.\<close>

theorem openapi_overstates:
  "map (\<lambda>x. (op_method x, path_text (op_path x))) (filter (\<lambda>x. documented x \<noteq> demanded x) app_routes)
     = [(''GET'', ''/health/live''), (''POST'', ''/api/v1/auth/refresh''),
        (''POST'', ''/api/v1/auth/password-reset/request''), (''POST'', ''/api/v1/auth/password-reset/confirm''),
        (''GET'', ''/api/v1/settings/public''), (''GET'', ''/api/v1/categories''), (''GET'', ''/api/v1/materials''),
        (''GET'', ''/api/v1/colours'')]
   \<and> list_all (\<lambda>x. documented x \<noteq> demanded x \<longrightarrow> demanded x = None) app_routes"
  by code_simp

section \<open>The administrator's routes are hidden from customers\<close>

text \<open>To a customer's request the route answers as no route at all would, and nothing happens.\<close>

definition hidden :: "app \<Rightarrow> timestamp \<Rightarrow> request \<Rightarrow> 'a route \<Rightarrow> bool" where
  "hidden A now rq r \<longleftrightarrow> (\<forall>w c t path rid. current_claims A now rq (w_db w) = Inr c \<and> ac_role c = CUSTOMER
     \<longrightarrow> snd (r w) = w
       \<and> serve (app_cfg A) path rid (outcome_of t (fst (r w)))
         = serve (app_cfg A) path rid (Inl (HTTP_Exception 404 ''Not Found'' [])))"

lemma hidden_admin: "hidden A now rq (depends (\<lambda>w. require_admin A now rq (w_db w)) h)"
  by (auto simp: hidden_def depends_def require_admin_def missing_route_document)


text \<open>The method is not: asked with a method it does not have, a route of the administrator tells
  anyone that it exists, and one method it has.\<close>

lemma wrong_method_reveals:
  "find_route ''PUT'' [''api'', ''v1'', ''admin'', ''settings''] = Inl (HTTP_Exception 405 ''Method Not Allowed'' [(''Allow'', ''GET'')])"
  "find_route ''PUT'' [''api'', ''v1'', ''admin'', ''nothing''] = Inl (HTTP_Exception 404 ''Not Found'' [])"
  by (code_simp; fail)+

end
