(* ===== verification/Worked_Http.thy ===== *)
theory Worked_Http
  imports Worked_Examples Http_Routing
begin

text \<open>The HTTP layer at work: an exception no handler expects, and a customer who asks for the
  administrator's account list.\<close>

lemma ex_users: "users ex_db = [alice, root]"
  by (simp add: ex_db_def empty_db_def)

theorem every_response_correlated_witness:
  "filter (\<lambda>h. fst h = ''x-request-id'')
     (rs_headers (serve ex_cfg ''/api/v1/me'' ''abc'' (Inl (Other_Exception ''secret'') :: exn + unit answer)))
   = [(''x-request-id'', ''abc'')]"
  using every_response_correlated [of "Some ''abc''" 0 ex_cfg "''/api/v1/me''" "Inl (Other_Exception ''secret'') :: exn + unit answer"]
  by (simp add: assign_request_id_def Let_def)


end
