(* ===== verification/Row_Mapping.thy ===== *)
theory Row_Mapping
  imports Schema_Rows "HOL-Library.Monad_Syntax" "HOL-Library.Sublist"
begin

text \<open>
  The mapping between rows and entities: the \<open>_to_domain\<close> functions of the repositories of the four
  contexts, which read a row as SQLAlchemy presents it, against the columns \<open>Schema_Rows\<close> says an
  entity is stored in; and how the catalogue recognises a violated index by its name.
\<close>

section \<open>Reading a cell\<close>

definition uuid_of_cell :: "cell \<Rightarrow> uuid option" where
  "uuid_of_cell c = (case c of Cell_Uuid u \<Rightarrow> Some u | _ \<Rightarrow> None)"
definition text_of_cell :: "cell \<Rightarrow> string option" where
  "text_of_cell c = (case c of Cell_Text s \<Rightarrow> Some s | _ \<Rightarrow> None)"
definition int_of_cell :: "cell \<Rightarrow> int option" where
  "int_of_cell c = (case c of Cell_Int i \<Rightarrow> Some i | _ \<Rightarrow> None)"
definition bool_of_cell :: "cell \<Rightarrow> bool option" where
  "bool_of_cell c = (case c of Cell_Bool b \<Rightarrow> Some b | _ \<Rightarrow> None)"
definition time_of_cell :: "cell \<Rightarrow> timestamp option" where
  "time_of_cell c = (case c of Cell_Time t \<Rightarrow> Some t | _ \<Rightarrow> None)"
definition bytes_of_cell :: "cell \<Rightarrow> bytes option" where
  "bytes_of_cell c = (case c of Cell_Bytes b \<Rightarrow> Some b | _ \<Rightarrow> None)"
definition json_of_cell :: "cell \<Rightarrow> pyval option" where
  "json_of_cell c = (case c of Cell_Json v \<Rightarrow> Some v | _ \<Rightarrow> None)"
definition dict_of_cell :: "cell \<Rightarrow> (string \<times> pyval) list option" where
  "dict_of_cell c = (case c of Cell_Json (PDict d) \<Rightarrow> Some d | _ \<Rightarrow> None)"

definition nullable :: "(cell \<Rightarrow> 'a option) \<Rightarrow> cell \<Rightarrow> 'a option option" where
  "nullable f c = (if c = Null then Some None else map_option Some (f c))"

text \<open>Both \<open>NULL\<close> and the JSON value \<open>null\<close> are read as \<open>None\<close>.\<close>

definition dict_or_none :: "cell \<Rightarrow> (string \<times> pyval) list option option" where
  "dict_or_none c = (if c = Cell_Json PNone then Some None else nullable dict_of_cell c)"

text \<open>An enum column holds the value of the member that is read.\<close>

definition enum_of_cell :: "('a \<Rightarrow> string) \<Rightarrow> 'a list \<Rightarrow> cell \<Rightarrow> 'a option" where
  "enum_of_cell value_of members c = (case c of Cell_Text s \<Rightarrow> find (\<lambda>m. value_of m = s) members | _ \<Rightarrow> None)"

lemmas cell_reader_defs = uuid_of_cell_def text_of_cell_def int_of_cell_def bool_of_cell_def time_of_cell_def
  bytes_of_cell_def json_of_cell_def dict_of_cell_def

section \<open>Reading a row\<close>

text \<open>\<open>None\<close> is a row whose cells are not those of the columns.\<close>

definition user_to_domain :: "row \<Rightarrow> user option" where
  "user_to_domain m = do {
     i \<leftarrow> uuid_of_cell (cell ''id'' m);
     email \<leftarrow> text_of_cell (cell ''email'' m);
     password_hash \<leftarrow> text_of_cell (cell ''password_hash'' m);
     role \<leftarrow> enum_of_cell role_value [CUSTOMER, ADMIN] (cell ''role'' m);
     email_verified_at \<leftarrow> nullable time_of_cell (cell ''email_verified_at'' m);
     is_active \<leftarrow> bool_of_cell (cell ''is_active'' m);
     anonymized_at \<leftarrow> nullable time_of_cell (cell ''anonymized_at'' m);
     deleted_at \<leftarrow> nullable time_of_cell (cell ''deleted_at'' m);
     created_at \<leftarrow> time_of_cell (cell ''created_at'' m);
     updated_at \<leftarrow> time_of_cell (cell ''updated_at'' m);
     auth_epoch \<leftarrow> int_of_cell (cell ''auth_epoch'' m);
     Some \<lparr>u_id = i, u_email = email, u_password_hash = password_hash, u_role = role,
       u_email_verified_at = email_verified_at, u_is_active = is_active,
       u_anonymized_at = anonymized_at, u_deleted_at = deleted_at, u_created_at = created_at,
       u_updated_at = updated_at, u_auth_epoch = auth_epoch\<rparr> }"

definition session_to_domain :: "row \<Rightarrow> session option" where
  "session_to_domain m = do {
     i \<leftarrow> uuid_of_cell (cell ''id'' m);
     user_id \<leftarrow> uuid_of_cell (cell ''user_id'' m);
     refresh_token_hash \<leftarrow> text_of_cell (cell ''refresh_token_hash'' m);
     token_version \<leftarrow> int_of_cell (cell ''token_version'' m);
     expires_at \<leftarrow> time_of_cell (cell ''expires_at'' m);
     last_used_at \<leftarrow> nullable time_of_cell (cell ''last_used_at'' m);
     rotated_at \<leftarrow> nullable time_of_cell (cell ''rotated_at'' m);
     revoked_at \<leftarrow> nullable time_of_cell (cell ''revoked_at'' m);
     reuse_detected_at \<leftarrow> nullable time_of_cell (cell ''reuse_detected_at'' m);
     ip_hash \<leftarrow> nullable text_of_cell (cell ''ip_hash'' m);
     user_agent \<leftarrow> nullable text_of_cell (cell ''user_agent'' m);
     created_at \<leftarrow> time_of_cell (cell ''created_at'' m);
     Some \<lparr>s_id = i, s_user_id = user_id, s_refresh_token_hash = refresh_token_hash,
       s_token_version = token_version, s_expires_at = expires_at, s_last_used_at = last_used_at,
       s_rotated_at = rotated_at, s_revoked_at = revoked_at, s_reuse_detected_at = reuse_detected_at,
       s_ip_hash = ip_hash, s_user_agent = user_agent, s_created_at = created_at\<rparr> }"

definition token_to_domain :: "row \<Rightarrow> verification_token option" where
  "token_to_domain m = do {
     i \<leftarrow> uuid_of_cell (cell ''id'' m);
     user_id \<leftarrow> uuid_of_cell (cell ''user_id'' m);
     token_hash \<leftarrow> text_of_cell (cell ''token_hash'' m);
     expires_at \<leftarrow> time_of_cell (cell ''expires_at'' m);
     used_at \<leftarrow> nullable time_of_cell (cell ''used_at'' m);
     created_at \<leftarrow> time_of_cell (cell ''created_at'' m);
     Some \<lparr>vt_id = i, vt_user_id = user_id, vt_token_hash = token_hash, vt_expires_at = expires_at,
       vt_used_at = used_at, vt_created_at = created_at\<rparr> }"

definition mfa_credential_to_domain :: "row \<Rightarrow> mfa_credential option" where
  "mfa_credential_to_domain m = do {
     i \<leftarrow> uuid_of_cell (cell ''id'' m);
     user_id \<leftarrow> uuid_of_cell (cell ''user_id'' m);
     k \<leftarrow> enum_of_cell method_value [TOTP] (cell ''method'' m);
     secret_ciphertext \<leftarrow> bytes_of_cell (cell ''secret_ciphertext'' m);
     enabled_at \<leftarrow> nullable time_of_cell (cell ''enabled_at'' m);
     last_used_at \<leftarrow> nullable time_of_cell (cell ''last_used_at'' m);
     last_totp_step \<leftarrow> nullable int_of_cell (cell ''last_totp_step'' m);
     created_at \<leftarrow> time_of_cell (cell ''created_at'' m);
     updated_at \<leftarrow> time_of_cell (cell ''updated_at'' m);
     Some \<lparr>mc_id = i, mc_user_id = user_id, mc_method = k, mc_secret_ciphertext = secret_ciphertext,
       mc_enabled_at = enabled_at, mc_last_used_at = last_used_at, mc_last_totp_step = last_totp_step,
       mc_created_at = created_at, mc_updated_at = updated_at\<rparr> }"

definition mfa_recovery_code_to_domain :: "row \<Rightarrow> recovery_code option" where
  "mfa_recovery_code_to_domain m = do {
     i \<leftarrow> uuid_of_cell (cell ''id'' m);
     mfa_credential_id \<leftarrow> uuid_of_cell (cell ''mfa_credential_id'' m);
     code_hash \<leftarrow> text_of_cell (cell ''code_hash'' m);
     used_at \<leftarrow> nullable time_of_cell (cell ''used_at'' m);
     created_at \<leftarrow> time_of_cell (cell ''created_at'' m);
     Some \<lparr>rc_id = i, rc_mfa_credential_id = mfa_credential_id, rc_code_hash = code_hash,
       rc_used_at = used_at, rc_created_at = created_at\<rparr> }"

definition reset_token_to_domain :: "row \<Rightarrow> reset_token option" where
  "reset_token_to_domain m = do {
     i \<leftarrow> uuid_of_cell (cell ''id'' m);
     user_id \<leftarrow> uuid_of_cell (cell ''user_id'' m);
     token_hash \<leftarrow> text_of_cell (cell ''token_hash'' m);
     expires_at \<leftarrow> time_of_cell (cell ''expires_at'' m);
     used_at \<leftarrow> nullable time_of_cell (cell ''used_at'' m);
     created_at \<leftarrow> time_of_cell (cell ''created_at'' m);
     Some \<lparr>rt_id = i, rt_user_id = user_id, rt_token_hash = token_hash, rt_expires_at = expires_at,
       rt_used_at = used_at, rt_created_at = created_at\<rparr> }"

definition outbox_to_domain :: "row \<Rightarrow> outbox_message option" where
  "outbox_to_domain m = do {
     i \<leftarrow> uuid_of_cell (cell ''id'' m);
     user_id \<leftarrow> nullable uuid_of_cell (cell ''user_id'' m);
     recipient_email \<leftarrow> text_of_cell (cell ''recipient_email'' m);
     template \<leftarrow> text_of_cell (cell ''template'' m);
     payload \<leftarrow> dict_of_cell (cell ''payload'' m);
     status \<leftarrow> enum_of_cell status_value [PENDING, SENDING, SENT, FAILED] (cell ''status'' m);
     send_after \<leftarrow> time_of_cell (cell ''send_after'' m);
     attempt_count \<leftarrow> int_of_cell (cell ''attempt_count'' m);
     last_error \<leftarrow> nullable text_of_cell (cell ''last_error'' m);
     sent_at \<leftarrow> nullable time_of_cell (cell ''sent_at'' m);
     created_at \<leftarrow> time_of_cell (cell ''created_at'' m);
     updated_at \<leftarrow> time_of_cell (cell ''updated_at'' m);
     Some \<lparr>ob_id = i, ob_user_id = user_id, ob_recipient_email = recipient_email, ob_template = template,
       ob_payload = payload, ob_status = status, ob_send_after = send_after,
       ob_attempt_count = attempt_count, ob_last_error = last_error, ob_sent_at = sent_at,
       ob_created_at = created_at, ob_updated_at = updated_at\<rparr> }"

definition audit_to_domain :: "row \<Rightarrow> audit_entry option" where
  "audit_to_domain m = do {
     i \<leftarrow> uuid_of_cell (cell ''id'' m);
     actor_user_id \<leftarrow> nullable uuid_of_cell (cell ''actor_user_id'' m);
     action \<leftarrow> text_of_cell (cell ''action'' m);
     entity_type \<leftarrow> text_of_cell (cell ''entity_type'' m);
     entity_id \<leftarrow> nullable uuid_of_cell (cell ''entity_id'' m);
     before_data \<leftarrow> dict_or_none (cell ''before_data'' m);
     after_data \<leftarrow> dict_or_none (cell ''after_data'' m);
     request_id \<leftarrow> nullable text_of_cell (cell ''request_id'' m);
     ip_hash \<leftarrow> nullable text_of_cell (cell ''ip_hash'' m);
     created_at \<leftarrow> time_of_cell (cell ''created_at'' m);
     Some \<lparr>al_id = i, al_actor_user_id = actor_user_id, al_action = action, al_entity_type = entity_type,
       al_entity_id = entity_id, al_before_data = before_data, al_after_data = after_data,
       al_request_id = request_id, al_ip_hash = ip_hash, al_created_at = created_at\<rparr> }"

definition setting_to_domain :: "row \<Rightarrow> setting option" where
  "setting_to_domain m = do {
     i \<leftarrow> uuid_of_cell (cell ''id'' m);
     k \<leftarrow> text_of_cell (cell ''key'' m);
     t \<leftarrow> enum_of_cell setting_type_value [BOOLEAN, INTEGER, STRING, MONEY, DURATION, JSON] (cell ''type'' m);
     v \<leftarrow> json_of_cell (cell ''value'' m);
     description \<leftarrow> nullable text_of_cell (cell ''description'' m);
     updated_by \<leftarrow> nullable uuid_of_cell (cell ''updated_by'' m);
     created_at \<leftarrow> time_of_cell (cell ''created_at'' m);
     updated_at \<leftarrow> time_of_cell (cell ''updated_at'' m);
     Some \<lparr>st_id = i, st_key = k, st_type = t, st_value = v, st_description = description,
       st_updated_by = updated_by, st_created_at = created_at, st_updated_at = updated_at\<rparr> }"

definition notification_to_domain :: "row \<Rightarrow> notification option" where
  "notification_to_domain m = do {
     i \<leftarrow> uuid_of_cell (cell ''id'' m);
     user_id \<leftarrow> uuid_of_cell (cell ''user_id'' m);
     t \<leftarrow> enum_of_cell notification_type_value [ACCOUNT, ORDER, PAYMENT, REFUND, OFFER, DOWNLOAD] (cell ''type'' m);
     payload \<leftarrow> dict_of_cell (cell ''payload'' m);
     read_at \<leftarrow> nullable time_of_cell (cell ''read_at'' m);
     created_at \<leftarrow> time_of_cell (cell ''created_at'' m);
     Some \<lparr>nt_id = i, nt_user_id = user_id, nt_type = t, nt_payload = payload, nt_read_at = read_at,
       nt_created_at = created_at\<rparr> }"

definition category_to_domain :: "row \<Rightarrow> category option" where
  "category_to_domain m = do {
     i \<leftarrow> uuid_of_cell (cell ''id'' m);
     name \<leftarrow> text_of_cell (cell ''name'' m);
     is_active \<leftarrow> bool_of_cell (cell ''is_active'' m);
     deleted_at \<leftarrow> nullable time_of_cell (cell ''deleted_at'' m);
     created_at \<leftarrow> time_of_cell (cell ''created_at'' m);
     updated_at \<leftarrow> time_of_cell (cell ''updated_at'' m);
     slug \<leftarrow> text_of_cell (cell ''slug'' m);
     Some \<lparr>rv_id = i, rv_name = name, rv_is_active = is_active, rv_deleted_at = deleted_at,
       rv_created_at = created_at, rv_updated_at = updated_at, cat_slug = slug\<rparr> }"

definition value_to_domain :: "row \<Rightarrow> reference_value option" where
  "value_to_domain m = do {
     i \<leftarrow> uuid_of_cell (cell ''id'' m);
     name \<leftarrow> text_of_cell (cell ''name'' m);
     is_active \<leftarrow> bool_of_cell (cell ''is_active'' m);
     deleted_at \<leftarrow> nullable time_of_cell (cell ''deleted_at'' m);
     created_at \<leftarrow> time_of_cell (cell ''created_at'' m);
     updated_at \<leftarrow> time_of_cell (cell ''updated_at'' m);
     Some \<lparr>rv_id = i, rv_name = name, rv_is_active = is_active, rv_deleted_at = deleted_at,
       rv_created_at = created_at, rv_updated_at = updated_at\<rparr> }"

lemmas to_domain_defs = user_to_domain_def session_to_domain_def token_to_domain_def mfa_credential_to_domain_def
  mfa_recovery_code_to_domain_def reset_token_to_domain_def outbox_to_domain_def audit_to_domain_def
  setting_to_domain_def notification_to_domain_def category_to_domain_def value_to_domain_def

section \<open>What is stored is read back\<close>

lemma read_cell [simp]:
  "uuid_of_cell (Cell_Uuid u) = Some u" "text_of_cell (Cell_Text s) = Some s" "int_of_cell (Cell_Int i) = Some i"
  "bool_of_cell (Cell_Bool b) = Some b" "time_of_cell (Cell_Time t) = Some t" "bytes_of_cell (Cell_Bytes bs) = Some bs"
  "json_of_cell (Cell_Json v) = Some v" "dict_of_cell (Cell_Json (PDict d)) = Some d"
  by (simp_all add: cell_reader_defs)

lemma read_nullable [simp]:
  "(\<And>x. f (g x) = Some x) \<Longrightarrow> (\<And>x. g x \<noteq> Null) \<Longrightarrow> nullable f (or_null g v) = Some v"
  by (cases v) (simp_all add: nullable_def)

lemma read_dict [simp]: "dict_or_none (json_or_null d) = Some d"
  by (cases d) (simp_all add: dict_or_none_def json_or_null_def nullable_def)

lemma read_enum [simp]:
  "enum_of_cell role_value [CUSTOMER, ADMIN] (Cell_Text (role_value r)) = Some r"
  "enum_of_cell method_value [TOTP] (Cell_Text (method_value k)) = Some k"
  "enum_of_cell status_value [PENDING, SENDING, SENT, FAILED] (Cell_Text (status_value st)) = Some st"
  "enum_of_cell setting_type_value [BOOLEAN, INTEGER, STRING, MONEY, DURATION, JSON] (Cell_Text (setting_type_value ty)) = Some ty"
  "enum_of_cell notification_type_value [ACCOUNT, ORDER, PAYMENT, REFUND, OFFER, DOWNLOAD]
     (Cell_Text (notification_type_value nt)) = Some nt"
proof -
  show "enum_of_cell role_value [CUSTOMER, ADMIN] (Cell_Text (role_value r)) = Some r"
    by (cases r) (simp_all add: enum_of_cell_def role_value_def)
  show "enum_of_cell method_value [TOTP] (Cell_Text (method_value k)) = Some k"
    by (cases k) (simp add: enum_of_cell_def method_value_def)
  show "enum_of_cell status_value [PENDING, SENDING, SENT, FAILED] (Cell_Text (status_value st)) = Some st"
    by (cases st) (simp_all add: enum_of_cell_def status_value_def)
  show "enum_of_cell setting_type_value [BOOLEAN, INTEGER, STRING, MONEY, DURATION, JSON]
      (Cell_Text (setting_type_value ty)) = Some ty"
    by (cases ty) (simp_all add: enum_of_cell_def setting_type_value_def)
  show "enum_of_cell notification_type_value [ACCOUNT, ORDER, PAYMENT, REFUND, OFFER, DOWNLOAD]
      (Cell_Text (notification_type_value nt)) = Some nt"
    by (cases nt) (simp_all add: enum_of_cell_def notification_type_value_def)
qed

lemma cell_Cons [simp]: "cell c ((k, v) # r) = (if k = c then v else cell c r)"
  by (simp add: cell_def)

lemma users_read_back: "user_to_domain (user_row u) = Some u"
  by (simp add: user_to_domain_def user_row_def)
lemma sessions_read_back: "session_to_domain (session_row s) = Some s"
  by (simp add: session_to_domain_def session_row_def)
lemma tokens_read_back: "token_to_domain (verification_token_row t) = Some t"
  by (simp add: token_to_domain_def verification_token_row_def)
lemma reset_tokens_read_back: "reset_token_to_domain (reset_token_row t) = Some t"
  by (simp add: reset_token_to_domain_def reset_token_row_def)
lemma credentials_read_back: "mfa_credential_to_domain (mfa_credential_row c) = Some c"
  by (simp add: mfa_credential_to_domain_def mfa_credential_row_def)
lemma recovery_codes_read_back: "mfa_recovery_code_to_domain (recovery_code_row c) = Some c"
  by (simp add: mfa_recovery_code_to_domain_def recovery_code_row_def)
lemma mails_read_back: "outbox_to_domain (email_outbox_row m) = Some m"
  by (simp add: outbox_to_domain_def email_outbox_row_def)
lemma audits_read_back: "audit_to_domain (audit_log_row a) = Some a"
  by (simp add: audit_to_domain_def audit_log_row_def)
lemma settings_read_back: "setting_to_domain (setting_row s) = Some s"
  by (simp add: setting_to_domain_def setting_row_def)
lemma notifications_read_back: "notification_to_domain (notification_row n) = Some n"
  by (simp add: notification_to_domain_def notification_row_def)
lemma categories_read_back: "category_to_domain (category_row c) = Some c"
  by (simp add: category_to_domain_def category_row_def)
lemma values_read_back: "value_to_domain (value_row v) = Some v"
  by (simp add: value_to_domain_def value_row_def)

section \<open>What the schema admits can be read\<close>

text \<open>The rows a table admits: its columns, each with a cell of its type.\<close>

definition admitted :: "orm_model \<Rightarrow> row \<Rightarrow> bool" where
  "admitted m r \<longleftrightarrow> map fst r = map mp_name (om_columns m) \<and> list_all (\<lambda>c. holds_column (mapped_to_column c) r) (om_columns m)"

lemma holds_model_admitted: "holds_model db m \<Longrightarrow> r \<in> set (db (om_tablename m)) \<Longrightarrow> admitted m r"
  by (auto simp: holds_model_def holds_table_def admitted_def orm_table_def column_names_def mapped_to_column_def
      list_all_iff comp_def)

lemma typed_cell:
  "typed Uuid_Type c \<longleftrightarrow> (\<exists>u. c = Cell_Uuid u)" "typed Citext_Type c \<longleftrightarrow> (\<exists>s. c = Cell_Text s)"
  "typed Text_Type c \<longleftrightarrow> (\<exists>s. c = Cell_Text s)" "typed Boolean_Type c \<longleftrightarrow> (\<exists>b. c = Cell_Bool b)"
  "typed Timestamptz_Type c \<longleftrightarrow> (\<exists>t. c = Cell_Time t)" "typed Integer_Type c \<longleftrightarrow> (\<exists>i. c = Cell_Int i)"
  "typed Bigint_Type c \<longleftrightarrow> (\<exists>i. c = Cell_Int i)" "typed Bytea_Type c \<longleftrightarrow> (\<exists>bs. c = Cell_Bytes bs)"
  "typed Jsonb_Type c \<longleftrightarrow> (\<exists>v. c = Cell_Json v)"
  by (cases c; simp; fail)+

lemma typed_member: "set xs = UNIV \<Longrightarrow> typed (Enum_Type n (map f xs)) c \<longleftrightarrow> (\<exists>x. c = Cell_Text (f x))"
  by (cases c) auto

lemma typed_enum:
  "typed role_enum c \<longleftrightarrow> (\<exists>r. c = Cell_Text (role_value r))" "typed method_enum c \<longleftrightarrow> (\<exists>k. c = Cell_Text (method_value k))"
  "typed setting_enum c \<longleftrightarrow> (\<exists>ty. c = Cell_Text (setting_type_value ty))"
proof -
  have "set [CUSTOMER, ADMIN] = UNIV" "set [TOTP] = UNIV" "set [BOOLEAN, INTEGER, STRING, MONEY, DURATION, JSON] = UNIV"
    using user_role.exhaust setting_type.exhaust mfa_method.exhaust by auto
  note members = this [THEN typed_member]
  show "typed role_enum c \<longleftrightarrow> (\<exists>r. c = Cell_Text (role_value r))" unfolding role_enum_def by (rule members(1))
  show "typed method_enum c \<longleftrightarrow> (\<exists>k. c = Cell_Text (method_value k))" unfolding method_enum_def by (rule members(2))
  show "typed setting_enum c \<longleftrightarrow> (\<exists>ty. c = Cell_Text (setting_type_value ty))" unfolding setting_enum_def by (rule members(3))
qed

lemma column_needed: "holds_column \<lparr>cl_name = n, cl_type = t, cl_default = d, cl_nullable = False\<rparr> r \<longleftrightarrow> typed t (cell n r)"
  by (cases t) (auto simp: holds_column_def)

lemma column_nullable:
  assumes "\<And>c. typed t c \<longleftrightarrow> (\<exists>x. c = f x)"
  shows "holds_column \<lparr>cl_name = n, cl_type = t, cl_default = d, cl_nullable = True\<rparr> r \<longleftrightarrow> (\<exists>v. cell n r = or_null f v)"
proof -
  have "(\<exists>v. cell n r = or_null f v) \<longleftrightarrow> cell n r = Null \<or> (\<exists>x. cell n r = f x)"
    by (auto simp: or_null_def split: option.split)
  then show ?thesis using assms [of "cell n r"] by (auto simp: holds_column_def)
qed

lemmas column_facts = column_needed column_nullable [OF typed_cell(1)] column_nullable [OF typed_cell(3)]
  column_nullable [OF typed_cell(5)] column_nullable [OF typed_cell(7)] typed_cell typed_enum

lemmas admitted_simps = admitted_def mapped_to_column_def mapped_defs column_facts

text \<open>A function that reads rows and one that writes them are each other's inverses, between the entities
  and the rows a table admits.\<close>

definition maps_onto :: "(row \<Rightarrow> 'e option) \<Rightarrow> ('e \<Rightarrow> row) \<Rightarrow> orm_model \<Rightarrow> bool" where
  "maps_onto to_domain to_row m \<longleftrightarrow> (\<forall>e. to_domain (to_row e) = Some e)
     \<and> (\<forall>r. admitted m r \<longrightarrow> (\<exists>e. to_domain r = Some e \<and> to_row e = r))"

lemma users_mapped: "maps_onto user_to_domain user_row user_model"
  unfolding maps_onto_def using users_read_back
  by (clarsimp simp: admitted_simps user_model_def user_to_domain_def user_row_def map_eq_Cons_conv)

lemma sessions_mapped: "maps_onto session_to_domain session_row session_model"
  unfolding maps_onto_def using sessions_read_back
  by (clarsimp simp: admitted_simps session_model_def session_to_domain_def session_row_def map_eq_Cons_conv)

lemma tokens_mapped: "maps_onto token_to_domain verification_token_row verification_token_model"
  unfolding maps_onto_def using tokens_read_back
  by (clarsimp simp: admitted_simps verification_token_model_def token_to_domain_def verification_token_row_def map_eq_Cons_conv)

lemma reset_tokens_mapped: "maps_onto reset_token_to_domain reset_token_row password_reset_token_model"
  unfolding maps_onto_def using reset_tokens_read_back
  by (clarsimp simp: admitted_simps password_reset_token_model_def reset_token_to_domain_def reset_token_row_def map_eq_Cons_conv)

lemma credentials_mapped: "maps_onto mfa_credential_to_domain mfa_credential_row mfa_credential_model"
  unfolding maps_onto_def using credentials_read_back
  by (clarsimp simp: admitted_simps mfa_credential_model_def mfa_credential_to_domain_def mfa_credential_row_def map_eq_Cons_conv)

lemma recovery_codes_mapped: "maps_onto mfa_recovery_code_to_domain recovery_code_row mfa_recovery_code_model"
  unfolding maps_onto_def using recovery_codes_read_back
  by (clarsimp simp: admitted_simps mfa_recovery_code_model_def mfa_recovery_code_to_domain_def recovery_code_row_def map_eq_Cons_conv)

lemma settings_mapped: "maps_onto setting_to_domain setting_row setting_model"
  unfolding maps_onto_def using settings_read_back
  by (clarsimp simp: admitted_simps setting_model_def setting_to_domain_def setting_row_def map_eq_Cons_conv)

lemma categories_mapped: "maps_onto category_to_domain category_row category_model"
  unfolding maps_onto_def using categories_read_back
  by (clarsimp simp: admitted_simps category_model_def category_to_domain_def category_row_def map_eq_Cons_conv)

lemma values_mapped: "maps_onto value_to_domain value_row (value_model n)"
  unfolding maps_onto_def using values_read_back
  by (clarsimp simp: admitted_simps value_model_def value_to_domain_def value_row_def map_eq_Cons_conv)

text \<open>C38: What a repository hands out is the entity that was stored: every \<open>_to_domain\<close> function inverts the
  mapping of its entity to columns.  And it can read whatever the table admits: in the ten tables without
  a JSON object, every admitted row is the row of exactly one entity, the one that is read.\<close>

theorem rows_are_entities:
  "maps_onto user_to_domain user_row user_model \<and> maps_onto session_to_domain session_row session_model
   \<and> maps_onto token_to_domain verification_token_row verification_token_model
   \<and> maps_onto reset_token_to_domain reset_token_row password_reset_token_model
   \<and> maps_onto mfa_credential_to_domain mfa_credential_row mfa_credential_model
   \<and> maps_onto mfa_recovery_code_to_domain recovery_code_row mfa_recovery_code_model
   \<and> maps_onto setting_to_domain setting_row setting_model \<and> maps_onto category_to_domain category_row category_model
   \<and> maps_onto value_to_domain value_row material_model \<and> maps_onto value_to_domain value_row colour_model
   \<and> (\<forall>m. outbox_to_domain (email_outbox_row m) = Some m) \<and> (\<forall>a. audit_to_domain (audit_log_row a) = Some a)
   \<and> (\<forall>n. notification_to_domain (notification_row n) = Some n)"
  by (simp add: users_mapped sessions_mapped tokens_mapped reset_tokens_mapped credentials_mapped recovery_codes_mapped
      settings_mapped categories_mapped values_mapped material_model_def colour_model_def mails_read_back
      audits_read_back notifications_read_back)

section \<open>Which index was violated\<close>

definition LIVE_SLUG_INDEX :: string where "LIVE_SLUG_INDEX = ''ix_categories_live_slug''"

text \<open>The name the driver gives, if the chain of causes carries one, or else the text of the error.\<close>

definition is_live_slug_violation :: "string option \<Rightarrow> string \<Rightarrow> bool" where
  "is_live_slug_violation named error_text = (case named of
       Some n \<Rightarrow> n = LIVE_SLUG_INDEX | None \<Rightarrow> sublist LIVE_SLUG_INDEX error_text)"

text \<open>The name is the one of the only unique index of the table, and the driver's name alone decides
  when there is one.\<close>

lemma live_slug_index:
  "map fst (filter (\<lambda>(i, cols, unique, w). unique) (om_indexes category_model)) = [LIVE_SLUG_INDEX]"
  "is_live_slug_violation (Some n) t \<longleftrightarrow> n \<in> fst ` set (om_indexes category_model)"
  by (simp_all add: category_model_def LIVE_SLUG_INDEX_def is_live_slug_violation_def)

end
