(* ===== verification/Schema_Drift.thy ===== *)
theory Schema_Drift
  imports Schema_Metadata
begin

text \<open>
  The migrations against the models: the history is one line through all revisions, an upgrade from
  nothing builds exactly the tables the ORM models declare, and a downgrade takes back what the
  upgrade did, whatever catalogue it started from.
\<close>

section \<open>The history\<close>

lemma history_followed: "revisions_after (length VERSIONS) VERSIONS None = Some HISTORY"
  by (simp add: VERSIONS_def HISTORY_def migration_defs numeral_eq_Suc)

lemma history_complete: "set HISTORY = set VERSIONS"
  by (auto simp: VERSIONS_def HISTORY_def)

lemma upgrade_Nil [simp]: "upgrade [] s = Inr s"
  by (simp add: upgrade_def)

lemma upgrade_Cons: "upgrade (m # ms) s = (case run_ddl (mg_upgrade m) s of Inl e \<Rightarrow> Inl e | Inr s' \<Rightarrow> upgrade ms s')"
  by (simp add: upgrade_def run_ddl_append split: sum.split)

lemma baseline_up:
  "run_ddl (mg_upgrade baseline) empty_schema = Inr (empty_schema\<lparr>sc_extensions := EXTENSIONS\<rparr>)"
  by (simp add: baseline_def EXTENSIONS_def empty_schema_def)

lemma history_builds: "case upgrade HISTORY empty_schema of Inl e \<Rightarrow> False | Inr s \<Rightarrow> agrees_with s METADATA"
  by code_simp


section \<open>Taking statements back\<close>

definition undoes :: "ddl list \<Rightarrow> ddl list \<Rightarrow> bool" where
  "undoes us ds \<longleftrightarrow> (\<forall>s s'. wf_schema s \<and> run_ddl us s = Inr s' \<longrightarrow> run_ddl ds s' = Inr s)"

lemma undoesI: "(\<And>s s'. wf_schema s \<Longrightarrow> run_ddl us s = Inr s' \<Longrightarrow> run_ddl ds s' = Inr s) \<Longrightarrow> undoes us ds"
  by (simp add: undoes_def)

lemma undoesD: "undoes us ds \<Longrightarrow> wf_schema s \<Longrightarrow> run_ddl us s = Inr s' \<Longrightarrow> run_ddl ds s' = Inr s"
  by (simp add: undoes_def)

named_theorems undo_intros \<open>statements and the statements that take them back\<close>

lemma undoes_Nil: "undoes [] []"
  by (simp add: undoes_def)

lemma undoes_append:
  assumes "undoes us ds" and "undoes us' ds'"
  shows "undoes (us @ us') (ds' @ ds)"
proof (rule undoesI)
  fix s s'' assume wf: "wf_schema s" and "run_ddl (us @ us') s = Inr s''"
  then obtain s' where 1: "run_ddl us s = Inr s'" and 2: "run_ddl us' s' = Inr s''"
    by (auto simp: run_ddl_append split: sum.splits)
  from undoesD [OF assms(2) run_ddl_wf [OF wf 1] 2] undoesD [OF assms(1) wf 1]
  show "run_ddl (ds' @ ds) s'' = Inr s" by (simp add: run_ddl_append)
qed

lemma undoes_Cons: "undoes [u] [d] \<Longrightarrow> undoes us ds \<Longrightarrow> undoes (u # us) (ds @ [d])"
  using undoes_append [of "[u]" "[d]" us ds] by simp

lemma undo_create_index [undo_intros]: "undoes [Create_Index i n cols u w] [Drop_Index i]"
  by (rule undoesI) (auto simp: Let_def split: if_splits option.splits)

lemma undo_create_table_types:
  assumes "wf_schema s" and "apply_ddl (Create_Table n cs ks) s = Inr s'"
  shows "apply_ddl (Drop_Table n) s' = Inr (s\<lparr>sc_types := sc_types s @ enums_of cs\<rparr>)"
    and "distinct (map fst (sc_types s @ enums_of cs))"
proof -
  let ?t = "\<lparr>tb_columns = cs, tb_constraints = ks\<rparr>"
  have s': "s' = s\<lparr>sc_types := sc_types s @ enums_of cs, sc_tables := sc_tables s @ [(n, ?t)]\<rparr>"
    and n: "n \<notin> fst ` set (sc_tables s)" and d: "distinct (map fst (sc_types s @ enums_of cs))"
    using assms(2) by (auto simp: Let_def split: if_splits)
  have "n \<notin> fst ` references t" if "(m, t) \<in> set (sc_tables s)" for m t
  proof
    assume "n \<in> fst ` references t"
    then obtain c k e where "Foreign_Key c n k e \<in> set (tb_constraints t)" by (auto simp: mem_references)
    with assms(1) that have "reference_known (sc_tables s) (Foreign_Key c n k e)"
      by (auto simp: wf_schema_def wf_table_def)
    with n show False by (auto simp: reference_known_def split: option.splits dest: map_of_SomeD intro: rev_image_eqI)
  qed
  moreover have "filter (\<lambda>(_, x). ix_table x \<noteq> n) (sc_indexes s) = sc_indexes s"
    using assms(1) n by (force simp: filter_id_conv wf_schema_def wf_index_def dest: map_of_SomeD)
  ultimately show "apply_ddl (Drop_Table n) s' = Inr (s\<lparr>sc_types := sc_types s @ enums_of cs\<rparr>)"
    using n by (auto simp: s')
  from d show "distinct (map fst (sc_types s @ enums_of cs))" .
qed

lemma undo_create_table [undo_intros]: "enums_of cs = [] \<Longrightarrow> undoes [Create_Table n cs ks] [Drop_Table n]"
  by (rule undoesI) (auto simp: undo_create_table_types simp del: apply_ddl.simps split: sum.splits)

lemma unused_type:
  assumes "wf_schema s" and "e \<notin> fst ` set (sc_types s)" and "(m, t) \<in> set (sc_tables s)"
  shows "e \<notin> fst ` set (enums_of (tb_columns t))"
proof
  assume "e \<in> fst ` set (enums_of (tb_columns t))"
  then obtain c where c: "c \<in> set (tb_columns t)" "e \<in> fst ` set (enum_of c)"
    by (auto simp: enums_of_def)
  then obtain ls where "cl_type c = Enum_Type e ls"
    by (cases "cl_type c") (auto simp: enum_of_def)
  with c assms(1,3) have "(e, ls) \<in> set (sc_types s)"
    by (fastforce simp: wf_schema_def wf_table_def type_known_def)
  with assms(2) show False by force
qed

lemma undo_create_table_type [undo_intros]:
  assumes e: "enums_of cs = [(e, ls)]"
  shows "undoes [Create_Table n cs ks] [Drop_Table n, Drop_Type e]"
proof (rule undoesI)
  fix s s' assume wf: "wf_schema s" and "run_ddl [Create_Table n cs ks] s = Inr s'"
  then have c: "apply_ddl (Create_Table n cs ks) s = Inr s'" by (simp del: apply_ddl.simps split: sum.splits)
  note d = undo_create_table_types [OF wf c, unfolded e]
  from d(2) have fresh: "e \<notin> fst ` set (sc_types s)" by auto
  have "apply_ddl (Drop_Type e) (s\<lparr>sc_types := sc_types s @ [(e, ls)]\<rparr>) = Inr s"
    using unused_type [OF wf fresh] fresh by auto
  with d(1) show "run_ddl [Drop_Table n, Drop_Type e] s' = Inr s"
    by (simp del: apply_ddl.simps)
qed

lemma undo_create_check [undo_intros]: "undoes [Create_Check i n k] [Drop_Constraint i n]"
proof (rule undoesI)
  fix s s' assume wf: "wf_schema s" and "run_ddl [Create_Check i n k] s = Inr s'"
  then obtain t where n: "map_of (sc_tables s) n = Some t" and i: "Some i \<notin> constraint_name ` set (tb_constraints t)"
    and s': "s' = s\<lparr>sc_tables := alter n (\<lambda>t. t\<lparr>tb_constraints := tb_constraints t @ [Check i k]\<rparr>) (sc_tables s)\<rparr>"
    by (auto split: option.splits if_splits)
  have one: "u = t" if "(n, u) \<in> set (sc_tables s)" for u
    using wf n that by (auto simp: wf_schema_def)
  have "filter (\<lambda>k. constraint_name k \<noteq> Some i) (tb_constraints t) = tb_constraints t"
    using i by (force simp: filter_id_conv)
  then have "alter n (\<lambda>t. t\<lparr>tb_constraints := filter (\<lambda>k. constraint_name k \<noteq> Some i) (tb_constraints t)\<rparr>)
      (alter n (\<lambda>t. t\<lparr>tb_constraints := tb_constraints t @ [Check i k]\<rparr>) (sc_tables s)) = sc_tables s"
    by (simp, intro alter_id) (auto dest!: one simp: constraint_name_def)
  with n show "run_ddl [Drop_Constraint i n] s' = Inr s"
    by (simp add: s' constraint_name_def)
qed

lemma undo_add_column [undo_intros]: "undoes [Add_Column n c] [Drop_Column n (cl_name c)]"
proof (rule undoesI)
  fix s s' assume wf: "wf_schema s" and "run_ddl [Add_Column n c] s = Inr s'"
  then obtain t where n: "map_of (sc_tables s) n = Some t" and fresh: "cl_name c \<notin> set (column_names t)"
    and s': "s' = s\<lparr>sc_tables := alter n (\<lambda>t. t\<lparr>tb_columns := tb_columns t @ [c]\<rparr>) (sc_tables s)\<rparr>"
    by (auto split: option.splits if_splits)
  have one: "u = t" if "(n, u) \<in> set (sc_tables s)" for u
    using wf n that by (auto simp: wf_schema_def)
  have t: "wf_table s t" using wf n by (auto simp: wf_schema_def)
  have refs: "(n, cl_name c) \<notin> references u" if "(m, u) \<in> set (sc_tables s)" for m u
  proof
    assume "(n, cl_name c) \<in> references u"
    with wf that have "is_key_of (cl_name c) t"
      using n by (fastforce simp: mem_references wf_schema_def wf_table_def reference_known_def)
    with t fresh show False by (fastforce simp: is_key_of_def wf_table_def)
  qed
  have cols: "filter (\<lambda>d. cl_name d \<noteq> cl_name c) (tb_columns t) = tb_columns t"
    using fresh by (simp add: filter_id_conv column_names_def) (metis imageI)
  have cons: "filter (\<lambda>k. cl_name c \<notin> set (constraint_columns k)) (tb_constraints t) = tb_constraints t"
    using t fresh by (auto simp: filter_id_conv wf_table_def)
  let ?add = "\<lambda>t. t\<lparr>tb_columns := tb_columns t @ [c]\<rparr>"
  let ?drop = "\<lambda>t. t\<lparr>tb_columns := filter (\<lambda>d. cl_name d \<noteq> cl_name c) (tb_columns t),
    tb_constraints := filter (\<lambda>k. cl_name c \<notin> set (constraint_columns k)) (tb_constraints t)\<rparr>"
  have tables: "alter n ?drop (alter n ?add (sc_tables s)) = sc_tables s"
    by (simp, intro alter_id) (auto dest!: one simp: cols cons)
  have "filter (\<lambda>(_, x). \<not> (ix_table x = n \<and> cl_name c \<in> set (index_mentions x))) (sc_indexes s) = sc_indexes s"
    using wf n fresh by (fastforce simp: filter_id_conv wf_schema_def wf_index_def)
  moreover have "(n, cl_name c) \<notin> references u" if "(m, u) \<in> set (alter n ?add (sc_tables s))" for m u
    using that refs by (fastforce simp: set_alter mem_references split: if_splits)
  ultimately show "run_ddl [Drop_Column n (cl_name c)] s' = Inr s"
    using n tables by (auto simp: s' column_names_def)
qed

text \<open>A type may be dropped later than the table that used it.\<close>

fun leaves_types :: "ddl \<Rightarrow> bool" where
  "leaves_types (Drop_Table n) = True"
| "leaves_types (Drop_Index i) = True"
| "leaves_types (Drop_Type e) = True"
| "leaves_types _ = False"

lemma without_commute: "without a (without b xs) = without b (without a xs)"
  by (auto simp: without_def intro: filter_cong)

lemma drop_type_later_one:
  assumes "leaves_types d" and "run_ddl [Drop_Type e, d] s = Inr t"
  shows "run_ddl [d, Drop_Type e] s = Inr t"
proof (cases "\<exists>f. d = Drop_Type f")
  case True
  then obtain f where d: "d = Drop_Type f" by blast
  show ?thesis
  proof (cases "f = e")
    case True
    with assms(2) show ?thesis by (simp add: d)
  next
    case False
    then have "(f \<in> fst ` {(k, x) \<in> set xs. k \<noteq> e}) = (f \<in> fst ` set xs)"
      and "(e \<in> fst ` {(k, x) \<in> set xs. k \<noteq> f}) = (e \<in> fst ` set xs)" for xs :: "(string \<times> string list) list"
      by force+
    with assms(2) show ?thesis
      by (simp add: d without_commute [of f e] split: if_splits)
  qed
next
  case False
  with assms show ?thesis by (cases d) (auto split: if_splits)
qed

lemma drop_type_later:
  assumes "list_all leaves_types es" and "run_ddl (Drop_Type e # es) s = Inr t"
  shows "run_ddl (es @ [Drop_Type e]) s = Inr t"
  using assms
proof (induction es arbitrary: s)
  case (Cons d es)
  from Cons.prems(2) obtain u where u: "run_ddl [Drop_Type e, d] s = Inr u" "run_ddl es u = Inr t"
    by (auto simp del: apply_ddl.simps split: sum.splits)
  from drop_type_later_one [OF _ u(1)] Cons.prems(1) obtain v where v: "apply_ddl d s = Inr v" "apply_ddl (Drop_Type e) v = Inr u"
    by (auto simp del: apply_ddl.simps split: sum.splits)
  from Cons.IH [of v] Cons.prems(1) u(2) v show ?case by (simp del: apply_ddl.simps)
qed simp

lemma undoes_later:
  assumes "undoes us (ds @ Drop_Type e # es)" and "list_all leaves_types es"
  shows "undoes us (ds @ es @ [Drop_Type e])"
proof (rule undoesI)
  fix s s' assume "wf_schema s" and "run_ddl us s = Inr s'"
  from undoesD [OF assms(1) this] obtain t where "run_ddl ds s' = Inr t" "run_ddl (Drop_Type e # es) t = Inr s"
    unfolding run_ddl_append by (auto split: sum.splits simp del: run_ddl.simps)
  with drop_type_later [OF assms(2)] show "run_ddl (ds @ es @ [Drop_Type e]) s' = Inr s"
    by (simp add: run_ddl_append)
qed

section \<open>Each revision\<close>

lemma enums_of_simps [simp]: "enums_of [] = []" "enums_of (c # cs) = enum_of c @ enums_of cs"
  by (simp_all add: enums_of_def)

lemma enum_of_column [simp]: "enum_of (sa_column n t d b) = (case t of Enum_Type e ls \<Rightarrow> [(e, ls)] | _ \<Rightarrow> [])"
  by (simp add: sa_column_def enum_of_def)

lemma name_of_column [simp]: "cl_name (sa_column n t d b) = n"
  by (simp add: sa_column_def)

lemma enum_of_plain [simp]: "enum_of id_column = []" "enum_of (stamp_column n) = []" "enum_of (time_column n) = []"
    "enum_of (text_column n b) = []" "enum_of (uuid_column n b) = []"
  by (simp_all add: enum_of_def sa_column_def id_column_def stamp_column_def time_column_def text_column_def uuid_column_def)

lemma undoes_steps:
  "\<forall>(us, ds) \<in> set steps. undoes us ds \<Longrightarrow> undoes (concat (map fst steps)) (concat (map snd (rev steps)))"
  by (induction steps) (auto intro: undoes_append undoes_Nil)

lemma sessions_undone: "undoes (mg_upgrade sessions_migration) (mg_downgrade sessions_migration)"
  using undoes_steps [of "[([sessions_table], [Drop_Table ''sessions'']),
      ([Create_Index ''ix_sessions_expires_at_live'' _ _ _ _], [Drop_Index _]),
      ([Create_Index ''ix_sessions_user_id'' _ _ _ _], [Drop_Index _])]"]
  by (simp add: sessions_migration_def sessions_table_def undo_intros)

lemma mfa_undone: "undoes (mg_upgrade mfa_migration) (mg_downgrade mfa_migration)"
  using undoes_steps [of "[([mfa_credentials_table], [Drop_Table ''mfa_credentials'', Drop_Type ''mfa_method'']),
      ([mfa_recovery_codes_table], [Drop_Table ''mfa_recovery_codes'']),
      ([Create_Index ''ix_mfa_recovery_codes_unused'' _ _ _ _], [Drop_Index _])]"]
  by (simp add: mfa_migration_def mfa_credentials_table_def mfa_recovery_codes_table_def undo_intros)

lemma outbox_check_undone: "undoes (mg_upgrade outbox_check_migration) (mg_downgrade outbox_check_migration)"
  using undoes_steps [of "[([Create_Check ''ck_email_outbox_attempt_count_non_negative'' _ _], [Drop_Constraint _ _]),
      ([Create_Index ''ix_verification_tokens_expires_at_live'' _ _ _ _], [Drop_Index _])]"]
  by (simp add: outbox_check_migration_def undo_intros)

lemma password_reset_undone: "undoes (mg_upgrade password_reset_migration) (mg_downgrade password_reset_migration)"
  using undoes_steps [of "[([password_reset_tokens_table], [Drop_Table ''password_reset_tokens'']),
      ([Create_Index ''ix_password_reset_tokens_expires_at_live'' _ _ _ _], [Drop_Index _]),
      ([Create_Index ''ix_password_reset_tokens_user_id'' _ _ _ _], [Drop_Index _]),
      ([Add_Column ''users'' (sa_column ''auth_epoch'' _ _ _)], [Drop_Column _ ''auth_epoch''])]"]
    undo_add_column [of "''users''" "sa_column ''auth_epoch'' Bigint_Type (Sql ''0'') False"]
  by (simp add: password_reset_migration_def password_reset_tokens_table_def undo_intros)

lemma settings_undone: "undoes (mg_upgrade settings_migration) (mg_downgrade settings_migration)"
  by (simp add: settings_migration_def settings_table_def undo_intros)

lemma notifications_undone: "undoes (mg_upgrade notifications_migration) (mg_downgrade notifications_migration)"
  using undoes_steps [of "[([notifications_table], [Drop_Table ''notifications'', Drop_Type ''notification_type'']),
      ([Create_Index ''ix_notifications_user_recent'' _ _ _ _], [Drop_Index _]),
      ([Create_Index ''ix_notifications_user_unread'' _ _ _ _], [Drop_Index _])]"]
  by (simp add: notifications_migration_def notifications_table_def undo_intros)

lemma catalogue_undone: "undoes (mg_upgrade catalogue_migration) (mg_downgrade catalogue_migration)"
  using undoes_steps [of "[([categories_table], [Drop_Table ''categories'']),
      ([Create_Index ''ix_categories_live_slug'' _ _ _ _], [Drop_Index _]),
      ([value_table ''colours''], [Drop_Table ''colours'']), ([value_table ''materials''], [Drop_Table ''materials''])]"]
  by (simp add: catalogue_migration_def categories_table_def value_table_def undo_intros)

lemma identity_undone: "undoes (mg_upgrade identity_and_platform) (mg_downgrade identity_and_platform)"
proof -
  have "undoes (mg_upgrade identity_and_platform)
      ([Drop_Index ''ix_verification_tokens_user_id'', Drop_Table ''verification_tokens'', Drop_Index ''ix_email_outbox_due'',
        Drop_Table ''email_outbox''] @ Drop_Type ''outbox_status''
        # [Drop_Index ''ix_audit_logs_entity'', Drop_Table ''audit_logs'', Drop_Index ''ix_users_email_live'', Drop_Table ''users'',
           Drop_Type ''user_role''])"
    using undoes_steps [of "[([users_table], [Drop_Table ''users'', Drop_Type ''user_role'']),
        ([Create_Index ''ix_users_email_live'' _ _ _ _], [Drop_Index _]),
        ([audit_logs_table], [Drop_Table ''audit_logs'']), ([Create_Index ''ix_audit_logs_entity'' _ _ _ _], [Drop_Index _]),
        ([email_outbox_table], [Drop_Table ''email_outbox'', Drop_Type ''outbox_status'']),
        ([Create_Index ''ix_email_outbox_due'' _ _ _ _], [Drop_Index _]),
        ([verification_tokens_table], [Drop_Table ''verification_tokens'']),
        ([Create_Index ''ix_verification_tokens_user_id'' _ _ _ _], [Drop_Index _])]"]
    by (simp add: identity_and_platform_def users_table_def audit_logs_table_def email_outbox_table_def
        verification_tokens_table_def undo_intros)
  from undoes_later [OF this]
  have "undoes (mg_upgrade identity_and_platform)
      ([Drop_Index ''ix_verification_tokens_user_id'', Drop_Table ''verification_tokens'', Drop_Index ''ix_email_outbox_due'',
        Drop_Table ''email_outbox'', Drop_Index ''ix_audit_logs_entity'', Drop_Table ''audit_logs'',
        Drop_Index ''ix_users_email_live'', Drop_Table ''users''] @ Drop_Type ''user_role'' # [Drop_Type ''outbox_status''])"
    by simp
  from undoes_later [OF this] show ?thesis
    by (simp add: identity_and_platform_def)
qed

lemmas revisions_undone = identity_undone sessions_undone mfa_undone outbox_check_undone password_reset_undone
  settings_undone notifications_undone catalogue_undone

lemma revision_undone: "m \<in> set HISTORY \<Longrightarrow> m \<noteq> baseline \<Longrightarrow> undoes (mg_upgrade m) (mg_downgrade m)"
  by (auto simp: HISTORY_def intro: revisions_undone)

lemma downgrade_Cons: "downgrade (m # ms) s = (case downgrade ms s of Inl e \<Rightarrow> Inl e | Inr s' \<Rightarrow> run_ddl (mg_downgrade m) s')"
  by (simp add: downgrade_def run_ddl_append)

lemma later_revisions_undone:
  "set ms \<subseteq> set HISTORY - {baseline} \<Longrightarrow> wf_schema s \<Longrightarrow> upgrade ms s = Inr s' \<Longrightarrow> downgrade ms s' = Inr s"
proof (induction ms arbitrary: s)
  case (Cons m ms)
  then obtain u where u: "run_ddl (mg_upgrade m) s = Inr u" "upgrade ms u = Inr s'"
    by (auto simp: upgrade_Cons split: sum.splits)
  from Cons.IH [OF _ run_ddl_wf [OF Cons.prems(2) u(1)] u(2)] Cons.prems(1)
  have "downgrade ms s' = Inr u" by auto
  moreover have "run_ddl (mg_downgrade m) u = Inr s"
    by (rule undoesD [OF revision_undone Cons.prems(2) u(1)]) (use Cons.prems(1) in auto)
  ultimately show ?case by (simp add: downgrade_Cons)
qed (simp add: downgrade_def)

text \<open>The extensions: taken back where none of them was installed before.\<close>

lemma create_extensions:
  "distinct xs \<Longrightarrow> set xs \<inter> set (sc_extensions s) = {}
    \<Longrightarrow> run_ddl (map Create_Extension xs) s = Inr (s\<lparr>sc_extensions := sc_extensions s @ xs\<rparr>)"
  by (induction xs arbitrary: s) auto

lemma drop_extensions:
  "\<forall>(n, t) \<in> set (sc_tables s). \<forall>c \<in> set (tb_columns t). cl_type c \<noteq> Citext_Type
    \<Longrightarrow> run_ddl (map Drop_Extension xs) s = Inr (s\<lparr>sc_extensions := filter (\<lambda>y. y \<notin> set xs) (sc_extensions s)\<rparr>)"
  by (induction xs arbitrary: s) (auto intro!: filter_cong)

lemma baseline_undone:
  assumes wf: "wf_schema s" and fresh: "set EXTENSIONS \<inter> set (sc_extensions s) = {}"
    and up: "run_ddl (mg_upgrade baseline) s = Inr s'"
  shows "run_ddl (mg_downgrade baseline) s' = Inr s"
proof -
  have s': "s' = s\<lparr>sc_extensions := sc_extensions s @ EXTENSIONS\<rparr>"
    using create_extensions [OF _ fresh] up by (simp add: baseline_def EXTENSIONS_def)
  have "''citext'' \<in> set EXTENSIONS" by (simp add: EXTENSIONS_def)
  with wf fresh have "\<forall>(n, t) \<in> set (sc_tables s). \<forall>c \<in> set (tb_columns t). cl_type c \<noteq> Citext_Type"
    by (fastforce simp: wf_schema_def wf_table_def type_known_def)
  then have "run_ddl (map Drop_Extension (rev EXTENSIONS)) s'
      = Inr (s'\<lparr>sc_extensions := filter (\<lambda>y. y \<notin> set (rev EXTENSIONS)) (sc_extensions s')\<rparr>)"
    by (intro drop_extensions) (simp add: s')
  moreover have "filter (\<lambda>y. y \<notin> set (rev EXTENSIONS)) (sc_extensions s') = sc_extensions s"
    using fresh by (auto simp: s' filter_empty_conv filter_id_conv)
  ultimately show ?thesis by (simp add: baseline_def s')
qed


section \<open>No drift\<close>

lemma history_succeeds:
  obtains s where "upgrade HISTORY empty_schema = Inr s" and "agrees_with s METADATA" and "wf_schema s"
proof -
  from history_builds obtain s where s: "upgrade HISTORY empty_schema = Inr s" "agrees_with s METADATA"
    by (auto split: sum.splits)
  moreover from s(1) have "wf_schema s"
    unfolding upgrade_def by (rule run_ddl_wf [OF wf_empty_schema])
  ultimately show thesis by (rule that)
qed

text \<open>C5: The revisions form one line that reaches every file of the directory, and upgrading an empty
  database along it succeeds and leaves exactly the tables, constraints, indexes and types the ORM
  models declare.\<close>

theorem migrations_build_models:
  "\<exists>ms s. revisions_after (length VERSIONS) VERSIONS None = Some ms \<and> set ms = set VERSIONS
    \<and> upgrade ms empty_schema = Inr s \<and> wf_schema s \<and> agrees_with s METADATA"
  by (rule history_succeeds) (use history_followed history_complete in blast)



end
