(* ===== verification/Worker_Process.thy ===== *)
theory Worker_Process
  imports Jobs Settings_Registry "HOL-Library.Multiset" "HOL-Library.List_Lexorder" "HOL-Library.Char_ord"
begin

text \<open>
  The worker around the jobs: the mail provider it selects (integrations/email), the schedule
  (jobs/registry.py) and the life of the process (worker.py).  arq runs a cron job at every second
  whose fields agree with the ones it names.
\<close>

section \<open>The mail provider\<close>

record log_line =
  lg_event :: string
  lg_to :: string
  lg_template :: string
  lg_payload_keys :: "string list"

text \<open>\<open>ConsoleEmailProvider.send\<close>: it writes a line and never fails.\<close>

definition console_send :: "string \<Rightarrow> string \<Rightarrow> (string \<times> pyval) list \<Rightarrow> log_line" where
  "console_send to template payload = \<lparr>lg_event = ''console_email_send'', lg_to = to, lg_template = template,
     lg_payload_keys = sort (map fst payload)\<rparr>"

definition console_email_provider :: provider where
  "console_email_provider = (\<lambda>at to template payload. None)"

definition not_implemented :: "string \<Rightarrow> string" where
  "not_implemented name = ''Email provider '' @ py_repr name @ '' is not implemented yet - only '' @ quoted ''console''
     @ '' exists until a real provider is selected (SRS '' @ [CHR 0xA7] @ ''30.2).''"

definition get_email_provider :: "settings \<Rightarrow> string + provider" where
  "get_email_provider cfg = (if email_provider cfg = ''console'' then Inr console_email_provider
     else Inl (not_implemented (email_provider cfg)))"

text \<open>The line tells the recipient, the template and the names in the payload: it is the same for
  any two payloads with these names, in whatever order they come, so a token in it is never logged.\<close>

theorem console_line_without_values:
  assumes "mset (map fst payload) = mset (map fst payload')"
  shows "console_send to template payload = console_send to template payload'"
  using properties_for_sort [of "sort (map fst payload')" "map fst payload"] assms by (simp add: console_send_def)

section \<open>The jobs of the worker\<close>

text \<open>\<open>dispatch_outbox\<close> from the top: the provider first, so a name without one aborts the job
  before a message is claimed.\<close>

definition dispatch_job ::
  "settings \<Rightarrow> (uuid \<Rightarrow> bool) \<Rightarrow> tick list \<Rightarrow> database \<Rightarrow> (string + (app_error + nat)) \<times> database" where
  "dispatch_job cfg locked tks db = (case get_email_provider cfg of
       Inl e \<Rightarrow> (Inl e, db)
     | Inr provider \<Rightarrow> (case dispatch_outbox provider locked tks db of (x, db') \<Rightarrow> (Inr x, db')))"

datatype job = Dispatch_Outbox | Purge_Unverified_Accounts

definition FUNCTIONS :: "job list" where
  "FUNCTIONS = [Dispatch_Outbox, Purge_Unverified_Accounts]"

record cron_job =
  cj_job :: job
  cj_hour :: "int option"
  cj_minute :: "int option"
  cj_second :: "int option"
  cj_run_at_startup :: bool

definition CRON_JOBS :: "cron_job list" where
  "CRON_JOBS =
     [\<lparr>cj_job = Dispatch_Outbox, cj_hour = None, cj_minute = None, cj_second = Some 0, cj_run_at_startup = True\<rparr>,
      \<lparr>cj_job = Purge_Unverified_Accounts, cj_hour = Some 3, cj_minute = Some 17, cj_second = Some 0, cj_run_at_startup = False\<rparr>]"

text \<open>The jobs of the second \<open>s\<close> since midnight of some day.\<close>

definition agrees :: "int option \<Rightarrow> int \<Rightarrow> bool" where
  "agrees field v \<longleftrightarrow> (case field of None \<Rightarrow> True | Some f \<Rightarrow> f = v)"

definition fires :: "cron_job \<Rightarrow> int \<Rightarrow> bool" where
  "fires c s \<longleftrightarrow> agrees (cj_hour c) (s div 3600 mod 24) \<and> agrees (cj_minute c) (s div 60 mod 60) \<and> agrees (cj_second c) (s mod 60)"

definition jobs_at :: "int \<Rightarrow> job list" where
  "jobs_at s = map cj_job (filter (\<lambda>c. fires c s) CRON_JOBS)"

definition jobs_at_startup :: "job list" where
  "jobs_at_startup = map cj_job (filter cj_run_at_startup CRON_JOBS)"

section \<open>The process\<close>

text \<open>\<open>on_startup\<close> resolves the provider for its failure only; an exception of the poll loop, or of
  the start, ends the process with exit code 1.\<close>

definition on_startup :: "settings \<Rightarrow> string + unit" where
  "on_startup cfg = (case get_email_provider cfg of Inl e \<Rightarrow> Inl e | Inr _ \<Rightarrow> Inr ())"

text \<open>What \<open>RedisSettings.from_dsn\<close> gives is made to retry, also a command that timed out.\<close>

record redis_settings =
  conn_retries :: int
  conn_retry_delay :: int
  retry_on_timeout :: bool

definition worker_redis_settings :: "'a redis_settings_scheme \<Rightarrow> 'a redis_settings_scheme" where
  "worker_redis_settings from_dsn = from_dsn\<lparr>conn_retries := 10, conn_retry_delay := 2, retry_on_timeout := True\<rparr>"

definition worker_main :: "settings \<Rightarrow> (string + unit) \<Rightarrow> int" where
  "worker_main cfg poll_loop = (case on_startup cfg of
       Inl _ \<Rightarrow> 1
     | Inr _ \<Rightarrow> (case poll_loop of Inl _ \<Rightarrow> 1 | Inr _ \<Rightarrow> 0))"

section \<open>What runs when\<close>

lemma day_of_jobs:
  "Dispatch_Outbox \<in> set (jobs_at s) \<longleftrightarrow> s mod 60 = 0"
  "Purge_Unverified_Accounts \<in> set (jobs_at s) \<longleftrightarrow> s mod 86400 = 11820"
proof -
  show "Dispatch_Outbox \<in> set (jobs_at s) \<longleftrightarrow> s mod 60 = 0"
    by (auto simp: jobs_at_def CRON_JOBS_def fires_def agrees_def)
  have digits: "h = 3 \<and> n = 17 \<and> t = 0 \<longleftrightarrow> 3600 * h + 60 * n + t = 11820"
    if "0 \<le> t" "t < 60" "0 \<le> n" "n < 60" for h n t :: int
  proof
    assume sum: "3600 * h + 60 * n + t = 11820"
    define q where "q = 197 - 60 * h - n"
    from sum have t: "t = 60 * q" by (simp add: q_def)
    with that(1,2) have "0 \<le> q" "q < 1" by simp_all
    with t have "t = 0" by simp
    moreover from sum this have "n = 197 - 60 * h" by simp
    moreover from this that(3,4) have "h = 3" by linarith
    ultimately show "h = 3 \<and> n = 17 \<and> t = 0" by simp
  qed simp
  have products: "(3600 :: int) * 24 = 86400" "(60 :: int) * 60 = 3600" by simp_all
  have parts: "s mod 86400 = 3600 * (s div 3600 mod 24) + s mod 3600" "s mod 3600 = 60 * (s div 60 mod 60) + s mod 60"
    using zmod_zmult2_eq [of 24 s 3600, OF zero_le_numeral] zmod_zmult2_eq [of 60 s 60, OF zero_le_numeral]
    unfolding products .
  have "s mod 86400 = 3600 * (s div 3600 mod 24) + (60 * (s div 60 mod 60) + s mod 60)"
    by (simp only: parts)
  then have "s div 3600 mod 24 = 3 \<and> s div 60 mod 60 = 17 \<and> s mod 60 = 0 \<longleftrightarrow> s mod 86400 = 11820"
    using digits [of "s mod 60" "s div 60 mod 60" "s div 3600 mod 24"] by (simp only: add.assoc pos_mod_sign pos_mod_bound
        zero_less_numeral simp_thms)
  then show "Purge_Unverified_Accounts \<in> set (jobs_at s) \<longleftrightarrow> s mod 86400 = 11820"
    by (auto simp: jobs_at_def CRON_JOBS_def fires_def agrees_def)
qed

text \<open>Mail goes out every minute and when the worker starts, accounts are purged once a day, at 03:17;
  and a process that starts has a provider, so no dispatch of it is aborted.\<close>

theorem worker_schedule:
  "{s. day * 86400 \<le> s \<and> s < (day + 1) * 86400 \<and> Purge_Unverified_Accounts \<in> set (jobs_at s)}
      = {day * 86400 + 3 * 3600 + 17 * 60}
   \<and> {s. m * 60 \<le> s \<and> s < (m + 1) * 60 \<and> Dispatch_Outbox \<in> set (jobs_at s)} = {m * 60}
   \<and> jobs_at_startup = [Dispatch_Outbox]
   \<and> (on_startup cfg = Inr () \<longleftrightarrow> (\<exists>x. fst (dispatch_job cfg locked tks db) = Inr x))"
proof -
  have once: "{s. k * p \<le> s \<and> s < (k + 1) * p \<and> s mod p = a} = {k * p + a}" if "0 \<le> a" and "a < p" for k p a :: int
  proof -
    have "s mod p = s - k * p" if "k * p \<le> s" and "s < (k + 1) * p" for s
      using that \<open>0 \<le> a\<close> \<open>a < p\<close> by (intro mod_pos_pos_trivial [of "s - k * p" p, THEN trans [rotated]])
        (auto simp: algebra_simps mod_mult_self1 [of s "- k" p, simplified])
    then show ?thesis using that by (auto simp: algebra_simps)
  qed
  have "{s. day * 86400 \<le> s \<and> s < (day + 1) * 86400 \<and> s mod 86400 = 11820} = {day * 86400 + 3 * 3600 + 17 * 60}"
    "{s. m * 60 \<le> s \<and> s < (m + 1) * 60 \<and> s mod 60 = 0} = {m * 60}"
    using once [of 11820 86400 day] once [of 0 60 m] by simp_all
  then show ?thesis
    by (auto simp: day_of_jobs jobs_at_startup_def CRON_JOBS_def on_startup_def dispatch_job_def get_email_provider_def
        split: prod.split)
qed

end
