(* ===== verification/Spec2Isabelle.thy ===== *)
theory Spec2Isabelle
  imports Worked_Schema Worked_Http Row_Mapping Schema_Drift Worker_Process
begin

text \<open>
  Verification of the Bekaa3D backend, a FastAPI service over PostgreSQL and Redis
  (src/src/app) with its migrations (src/migrations).  The service is a modular monolith: each
  context (identity, platform, catalog, engagement) has entities (domain), use cases (application),
  SQL repositories (infrastructure) and routes (api).  A request opens one transaction
  (api/dependencies.py), which commits when the handler returns and rolls back when it raises,
  unless the handler committed first.  A worker (jobs) sends queued mail and purges accounts.

  What models what:

  \<^item> \<open>Prelude\<close>, \<open>Text_Codec\<close>, \<open>Python_Values\<close>, \<open>Digest\<close>: instants, UUIDs, Python values with their
    equality and texts, the text forms of integers, UUIDs and timestamps, SHA-256 and HMAC, tables
    as lists of rows.
  \<^item> \<open>Core\<close>: core/ and api/cookies.py: settings of the process, CSRF tokens, cookies, the Redis
    commands and the rate limiter.
  \<^item> \<open>Identity_Entities\<close>, \<open>Platform_Entities\<close>, \<open>Catalog_Entities\<close>, \<open>Engagement_Entities\<close>,
    \<open>Settings_Registry\<close>: the domain entities of the four contexts with every method, slugs,
    notification payloads, and the registry of settings with its validation.
  \<^item> \<open>Database\<close>, \<open>Settings_Store\<close>, \<open>Catalogue_Store\<close>, \<open>Notification_Centre\<close>: the repositories as
    statements on the tables of one transaction, with the uniqueness, foreign keys and cascades of
    the schema.  The locale \<open>row_store\<close> is what a repository that loads and saves by key promises;
    \<open>reference_table\<close> and \<open>value_store\<close> what the commands of the catalogue rely on.  Each is
    interpreted for every table.
  \<^item> \<open>Libraries\<close>, \<open>Session_Tokens\<close>, \<open>Second_Factor\<close>, \<open>Auth_Redis\<close>: password hashing, the
    signed tokens, TOTP and recovery codes, the login throttle and the MFA store.  Argon2, PyJWT,
    pyotp and Fernet are arguments of the definitions that call them.
  \<^item> \<open>Unit_Of_Work\<close>: use cases as computations over the transaction that return or raise; the
    invariant \<open>wf_db\<close> and that every statement keeps it.
  \<^item> \<open>Verification_Flow\<close>, \<open>Password_Reset\<close>, \<open>Session_Commands\<close>, \<open>Mfa_Commands\<close>, \<open>User_Admin\<close>,
    \<open>Settings_Store\<close>, \<open>Catalogue_Commands\<close>, \<open>Notification_Centre\<close>, \<open>Jobs\<close>: the use cases and the
    jobs.  \<open>Account_View\<close>: the abstract account (enabled, hash, epoch, live sessions, open links)
    the use cases of an account are refined against.
  \<^item> \<open>Keyset_Paging\<close>: cursor pagination, proved complete once in the locale \<open>keyset\<close>, and over
    cursor texts in \<open>text_keyset\<close>; both are interpreted on the lists of accounts, settings,
    notifications and reference values.  \<open>Cursor_Codec\<close>, \<open>Iso_Datetime\<close>, \<open>Page_Cursors\<close>: the texts:
    base64, \<open>datetime.fromisoformat\<close> and \<open>json.loads\<close> as CPython implements them.
  \<^item> \<open>Api_Boundary\<close>, \<open>Auth_Routes\<close>, \<open>Mfa_Routes\<close>, \<open>Settings_Routes\<close>, \<open>Catalogue_Routes\<close>,
    \<open>Notification_Centre\<close>: dependencies, rate limits, body checks, transactions and answers of the
    routes.  \<open>Http_Responses\<close>, \<open>Http_Routing\<close>: problem documents, request ids, the route table,
    health checks and the security annotations of the OpenAPI document (api/).
  \<^item> \<open>Worker_Process\<close>: worker.py, jobs/registry.py and the mail providers.
  \<^item> \<open>Table_History\<close>, \<open>Auth_System\<close>: the service as a step relation whose steps are the transactions
    and Redis changes of the requests and jobs of all contexts, freely interleaved; login and the
    completion of a login hold state between two steps.  \<open>Record_Keeping\<close> and \<open>Schema_Invariant\<close> prove
    what holds in, or between, all its reachable states.
  \<^item> \<open>Schema_Ddl\<close>, \<open>Schema_Migrations\<close>, \<open>Schema_Metadata\<close>, \<open>Schema_Drift\<close>: DDL on a catalogue of
    tables, indexes and types; the nine revisions; the thirteen ORM models; and that the revisions
    build what the models declare.  \<open>Schema_Rows\<close>, \<open>Schema_Integrity\<close>: rows that satisfy a schema.
    \<open>Row_Mapping\<close>: the \<open>_to_domain\<close> functions of the repositories, which read rows as entities.
    \<open>Schema_Backfill\<close>: the data statements of revision 8bd689bf2024.
  \<^item> \<open>Example_World\<close>, \<open>Worked_Examples\<close>, \<open>Worked_Office\<close>, \<open>Worked_Schema\<close>, \<open>Worked_Http\<close>: a concrete
    service and the properties applied to it.

  What is shown.  For the system: what was issued before a reset or a deactivation stays locked
  out whatever happens later, the audit log only grows, archived values are final, and every
  reachable database satisfies the schema.  For each use case: when it succeeds, what it changes,
  what it refuses and what a refusal leaves behind.  Refinements of the abstract account, round
  trips of tokens, cursors and migrations, the schedules of the throttle, the limiter and the worker,
  completeness of paging, progress of the outbox, and what a customer can see of the administrator's
  routes.

  Bounds.  Loops of the source are structural recursions.  A client that follows cursors has fuel,
  and the completeness theorems show that any fuel with more room than rows is enough.  The loops of
  the JSON decoder have the length of their text as fuel, of which every round consumes a character;
  the recursion limit of the interpreter is an argument, and any limit above zero reads the cursors the
  service writes.  \<open>revisions_after\<close> has the number of revisions as fuel, and reaches all of them.

  Not modelled: address syntax, the parsing of request bodies and the rendering of responses
  (FastAPI, pydantic); the PostgreSQL lock manager (a command whose reads are locked is one atomic
  step); values that the driver cannot encode, such as a text with a NUL character; log lines other
  than the one of the console mail provider; the configuration of logging and of the database engine.
  Strings are code points below 256, and the order of texts in the database is an argument.
\<close>

end
